(* ===== verification/Prelude.thy ===== *)
theory Prelude
  imports Main "HOL-Library.Word" "HOL-Library.Monad_Syntax" "HOL-Library.AList"
begin

text \<open>
  Shared vocabulary of the development: machine integers, byte and code-point strings,
  slices, hash maps as association lists, and the monad of Rust's panics.

  \<^item> \<open>u8\<close>, \<open>u16\<close>, \<open>u32\<close>, \<open>u64\<close> are words of that width. \<open>usize\<close> is \<open>nat\<close>: every
    \<open>usize\<close> the server computes with is a length or offset below \<open>2^34\<close>, so on the 64-bit
    targets the server is built for no \<open>usize\<close> sum wraps, and a \<open>checked_add\<close> is a sum.
  \<^item> A Rust \<open>str\<close> is the list of its code points (\<open>rstr\<close>).
  \<^item> A computation that may panic (slice index out of range, \<open>unwrap\<close> of \<open>None\<close>) or never
    return has an \<open>option\<close> result at its outermost layer; \<open>None\<close> there is "does not return".
  \<^item> A Rust \<open>HashMap\<close> is an association list with distinct keys; the order of the list is
    the iteration order, which the theorems leave arbitrary.
\<close>

unbundle bit_operations_syntax

section \<open>Types\<close>

type_synonym u8 = "8 word"
type_synonym u16 = "16 word"
type_synonym u32 = "32 word"
type_synonym u64 = "64 word"
type_synonym bytes = "u8 list"
type_synonym rstr = "nat list"

named_theorems codec \<open>length and decoding facts of the byte codecs\<close>
named_theorems amap \<open>lookups in updated hash maps\<close>

section \<open>Strings\<close>

definition str :: "string \<Rightarrow> rstr" where
  "str s = map of_char s"

definition bstr :: "string \<Rightarrow> bytes" where
  "bstr s = map of_char s"

lemma length_str [simp]: "length (str s) = length s"
  by (simp add: str_def)

lemma length_bstr [simp]: "length (bstr s) = length s"
  by (simp add: bstr_def)

section \<open>Slices\<close>

text \<open>\<open>xs.get(i..j)\<close>: the sub-slice, or \<open>None\<close> out of range. The same function models the
  panicking \<open>xs[i..j]\<close> in the panic monad.\<close>

definition slice_get :: "'a list \<Rightarrow> nat \<Rightarrow> nat \<Rightarrow> 'a list option" where
  "slice_get xs i j = (if i \<le> j \<and> j \<le> length xs then Some (take (j - i) (drop i xs)) else None)"

definition slice_from :: "'a list \<Rightarrow> nat \<Rightarrow> 'a list option" where
  "slice_from xs i = (if i \<le> length xs then Some (drop i xs) else None)"

text \<open>\<open>xs[off..off + ys.len()].copy_from_slice(ys)\<close>; \<open>None\<close> is the panic.\<close>

definition copy_at :: "'a list \<Rightarrow> nat \<Rightarrow> 'a list \<Rightarrow> 'a list option" where
  "copy_at xs off ys =
     (if off + length ys \<le> length xs
      then Some (take off xs @ ys @ drop (off + length ys) xs) else None)"

definition idx :: "'a list \<Rightarrow> nat \<Rightarrow> 'a option" where
  "idx xs i = (if i < length xs then Some (xs ! i) else None)"

lemma slice_get_Some_iff:
  "slice_get xs i j = Some ys \<longleftrightarrow> i \<le> j \<and> j \<le> length xs \<and> ys = take (j - i) (drop i xs)"
  by (auto simp: slice_get_def)

lemma slice_get_length [codec]: "slice_get xs i j = Some ys \<Longrightarrow> length ys = j - i"
  by (auto simp: slice_get_def split: if_splits)

lemma slice_get_append [simp]:
  "slice_get (xs @ ys @ zs) (length xs) (length xs + length ys) = Some ys"
  by (simp add: slice_get_def)

lemma slice_from_Some_iff: "slice_from xs i = Some ys \<longleftrightarrow> i \<le> length xs \<and> ys = drop i xs"
  by (auto simp: slice_from_def)

lemma copy_at_length [codec]: "copy_at xs off ys = Some zs \<Longrightarrow> length zs = length xs"
  by (auto simp: copy_at_def split: if_splits)

lemma copy_at_Some [simp]: "off + length ys \<le> length xs \<Longrightarrow>
    copy_at xs off ys = Some (take off xs @ ys @ drop (off + length ys) xs)"
  by (simp add: copy_at_def)

lemma idx_Some_iff: "idx xs i = Some x \<longleftrightarrow> i < length xs \<and> x = xs ! i"
  by (auto simp: idx_def)

lemma take_drop_split:
  "i \<le> j \<Longrightarrow> j \<le> length xs \<Longrightarrow> take i xs @ take (j - i) (drop i xs) @ drop j xs = xs"
proof -
  assume "i \<le> j" and "j \<le> length xs"
  have "take (j - i) (drop i xs) @ drop (j - i) (drop i xs) = drop i xs"
    by (rule append_take_drop_id)
  with \<open>i \<le> j\<close> show ?thesis by simp
qed

section \<open>Little-endian numbers\<close>

primrec to_le :: "nat \<Rightarrow> nat \<Rightarrow> bytes" where
  "to_le 0 v = []"
| "to_le (Suc n) v = word_of_nat (v mod 256) # to_le n (v div 256)"

primrec from_le :: "bytes \<Rightarrow> nat" where
  "from_le [] = 0"
| "from_le (b # bs) = unat b + 256 * from_le bs"

lemma unat_u8_bound: "unat (v :: u8) < 256"
  using unsigned_less [of v] by simp

lemma unat_u16_bound: "unat (v :: u16) < 2 ^ 16"
  using unsigned_less [of v] by simp

lemma unat_u32_bound: "unat (v :: u32) < 2 ^ 32"
  using unsigned_less [of v] by simp

lemma unat_u64_bound: "unat (v :: u64) < 2 ^ 64"
  using unsigned_less [of v] by simp

lemma length_to_le [simp, codec]: "length (to_le n v) = n"
  by (induction n arbitrary: v) auto

lemma unat_byte [simp]: "unat (word_of_nat (v mod 256) :: u8) = v mod 256"
  by (simp add: unat_of_nat)

lemma from_le_to_le: "from_le (to_le n v) = v mod 256 ^ n"
proof (induction n arbitrary: v)
  case 0
  then show ?case by simp
next
  case (Suc n)
  have "v mod 256 + 256 * (v div 256 mod 256 ^ n) = v mod (256 * 256 ^ n)"
    by (simp add: mod_mult2_eq)
  with Suc show ?case by simp
qed

lemma from_le_bound: "from_le bs < 256 ^ length bs"
proof (induction bs)
  case Nil
  then show ?case by simp
next
  case (Cons b bs)
  have "unat b < 256" by (rule unat_u8_bound)
  with Cons show ?case by simp
qed

lemma to_le_from_le: "to_le (length bs) (from_le bs) = bs"
proof (induction bs)
  case Nil
  then show ?case by simp
next
  case (Cons b bs)
  have "unat b < 256" by (rule unat_u8_bound)
  then have "(unat b + 256 * from_le bs) mod 256 = unat b"
    and "(unat b + 256 * from_le bs) div 256 = from_le bs" by auto
  with Cons show ?case by simp
qed

text \<open>\<open>to_le_bytes\<close> and \<open>from_le_bytes\<close> at each width.\<close>

definition le16 :: "u16 \<Rightarrow> bytes" where "le16 v = to_le 2 (unat v)"
definition le32 :: "u32 \<Rightarrow> bytes" where "le32 v = to_le 4 (unat v)"
definition le64 :: "u64 \<Rightarrow> bytes" where "le64 v = to_le 8 (unat v)"
definition u16_le :: "bytes \<Rightarrow> u16" where "u16_le bs = word_of_nat (from_le bs)"
definition u32_le :: "bytes \<Rightarrow> u32" where "u32_le bs = word_of_nat (from_le bs)"
definition u64_le :: "bytes \<Rightarrow> u64" where "u64_le bs = word_of_nat (from_le bs)"

lemma length_le [simp, codec]:
  "length (le16 v) = 2" "length (le32 w) = 4" "length (le64 x) = 8"
  by (simp_all add: le16_def le32_def le64_def)

lemma u16_le_le16 [simp, codec]: "u16_le (le16 v) = v"
proof -
  have "unat v < 2 ^ 16" by (rule unat_u16_bound)
  then show ?thesis by (simp add: u16_le_def le16_def from_le_to_le)
qed

lemma u32_le_le32 [simp, codec]: "u32_le (le32 v) = v"
proof -
  have "unat v < 2 ^ 32" by (rule unat_u32_bound)
  then show ?thesis by (simp add: u32_le_def le32_def from_le_to_le)
qed

lemma u64_le_le64 [simp, codec]: "u64_le (le64 v) = v"
proof -
  have "unat v < 2 ^ 64" by (rule unat_u64_bound)
  then show ?thesis by (simp add: u64_le_def le64_def from_le_to_le)
qed

lemma unat_u16_le: "length bs = 2 \<Longrightarrow> unat (u16_le bs) = from_le bs"
  using from_le_bound [of bs] by (simp add: u16_le_def unat_of_nat)

lemma unat_u32_le: "length bs = 4 \<Longrightarrow> unat (u32_le bs) = from_le bs"
  using from_le_bound [of bs] by (simp add: u32_le_def unat_of_nat)

lemma unat_u64_le: "length bs = 8 \<Longrightarrow> unat (u64_le bs) = from_le bs"
  using from_le_bound [of bs] by (simp add: u64_le_def unat_of_nat)

lemma le16_u16_le: "length bs = 2 \<Longrightarrow> le16 (u16_le bs) = bs"
  by (metis le16_def to_le_from_le unat_u16_le)

lemma le32_u32_le: "length bs = 4 \<Longrightarrow> le32 (u32_le bs) = bs"
  by (metis le32_def to_le_from_le unat_u32_le)

lemma le64_u64_le: "length bs = 8 \<Longrightarrow> le64 (u64_le bs) = bs"
  by (metis le64_def to_le_from_le unat_u64_le)

section \<open>Hash maps\<close>

type_synonym ('k, 'v) hmap = "('k \<times> 'v) list"

abbreviation hget :: "('k, 'v) hmap \<Rightarrow> 'k \<Rightarrow> 'v option" where
  "hget m k \<equiv> map_of m k"

definition hput :: "'k \<Rightarrow> 'v \<Rightarrow> ('k, 'v) hmap \<Rightarrow> ('k, 'v) hmap" where
  "hput k v m = AList.update k v m"

definition hdel :: "'k \<Rightarrow> ('k, 'v) hmap \<Rightarrow> ('k, 'v) hmap" where
  "hdel k m = AList.delete k m"

definition hmap_ok :: "('k, 'v) hmap \<Rightarrow> bool" where
  "hmap_ok m \<longleftrightarrow> distinct (map fst m)"

lemma hget_hput [simp, amap]: "hget (hput k v m) j = (if j = k then Some v else hget m j)"
  by (simp add: hput_def AList.update_conv)

lemma hget_hdel [simp, amap]: "hget (hdel k m) j = (if j = k then None else hget m j)"
  by (simp add: hdel_def AList.delete_conv)

lemma hmap_ok_hput [simp, intro]: "hmap_ok m \<Longrightarrow> hmap_ok (hput k v m)"
  by (simp add: hmap_ok_def hput_def AList.distinct_update)

lemma hmap_ok_hdel [simp, intro]: "hmap_ok m \<Longrightarrow> hmap_ok (hdel k m)"
  by (simp add: hmap_ok_def hdel_def AList.distinct_delete)

lemma hmap_ok_Nil [simp]: "hmap_ok []"
  by (simp add: hmap_ok_def)

text \<open>The number of entries, \<open>HashMap::len\<close>.\<close>

lemma length_hput: "length (hput k v m) = (if k \<in> fst ` set m then length m else Suc (length m))"
  unfolding hput_def by (induction m) auto

lemma length_hdel_le: "length (hdel k m) \<le> length m"
  by (simp add: hdel_def AList.length_delete_le)

text \<open>Writing through a reference to an entry: an entry that has been removed stays out of the
  map.\<close>

definition hset :: "'k \<Rightarrow> 'v \<Rightarrow> ('k, 'v) hmap \<Rightarrow> ('k, 'v) hmap" where
  "hset k v m = (if hget m k = None then m else hput k v m)"

lemma hget_hset [simp, amap]: "hget (hset k v m) j = (if j = k then map_option (\<lambda>_. v) (hget m k) else hget m j)"
  by (auto simp: hset_def)

lemma hmap_ok_hset [simp, intro]: "hmap_ok m \<Longrightarrow> hmap_ok (hset k v m)"
  by (simp add: hset_def)

lemma length_hset [simp]: "length (hset k v m) = length m"
  by (auto simp: hset_def length_hput map_of_eq_None_iff)

lemma set_hdel: "set (hdel k m) = {p \<in> set m. fst p \<noteq> k}"
  by (auto simp: hdel_def AList.delete_eq)

lemma hget_Some_mem: "hget m k = Some v \<Longrightarrow> (k, v) \<in> set m"
  by (rule map_of_SomeD)

lemma set_hput_subset: "set (hput k v m) \<subseteq> insert (k, v) (set m)"
  unfolding hput_def by (induction m) auto

lemma hmap_ok_mem_iff: "hmap_ok m \<Longrightarrow> (k, v) \<in> set m \<longleftrightarrow> hget m k = Some v"
  by (simp add: hmap_ok_def map_of_eq_Some_iff)

section \<open>Options\<close>

lemma bind_Some_iff [simp]: "Option.bind m f = Some y \<longleftrightarrow> (\<exists>x. m = Some x \<and> f x = Some y)"
  by (cases m) auto

lemma bind_None_iff: "Option.bind m f = None \<longleftrightarrow> m = None \<or> (\<exists>x. m = Some x \<and> f x = None)"
  by (cases m) auto

section \<open>Results\<close>

text \<open>Rust's \<open>Result<T, E>\<close> is \<open>'e + 'a\<close>; \<open>sbind\<close> is the \<open>?\<close> operator, and \<open>each\<close> a loop whose
  body may return an error.\<close>

definition sbind :: "'e + 'a \<Rightarrow> ('a \<Rightarrow> 'e + 'b) \<Rightarrow> 'e + 'b" where
  "sbind m f = (case m of Inl e \<Rightarrow> Inl e | Inr x \<Rightarrow> f x)"

fun each :: "('a \<Rightarrow> 'e + unit) \<Rightarrow> 'a list \<Rightarrow> 'e + unit" where
  "each f [] = Inr ()"
| "each f (x # xs) = sbind (f x) (\<lambda>_. each f xs)"

definition ensure :: "bool \<Rightarrow> 'e \<Rightarrow> 'e + unit" where
  "ensure b e = (if b then Inr () else Inl e)"

lemma sbind_simps [simp]: "sbind (Inl e) f = Inl e" "sbind (Inr x) f = f x"
  by (simp_all add: sbind_def)

lemma sbind_Inr_iff: "sbind m f = Inr y \<longleftrightarrow> (\<exists>x. m = Inr x \<and> f x = Inr y)"
  by (cases m) auto

lemma each_Inr_iff: "each f xs = Inr u \<longleftrightarrow> (\<forall>x \<in> set xs. f x = Inr ())"
  by (induction xs) (auto simp: sbind_Inr_iff)

lemma ensure_Inr_iff [simp]: "ensure b e = Inr u \<longleftrightarrow> b"
  by (simp add: ensure_def)

end
