(* ===== verification/Nt_Status.thy ===== *)
theory Nt_Status
  imports Prelude
begin

text \<open>
  NT status codes and the errno mapping of \<open>src/src/status.rs\<close>. The status codes are
  abbreviations, so goals about them are decided by arithmetic on the numerals. The errno
  values are Linux's.
\<close>

abbreviation (input) SUCCESS :: u32 where "SUCCESS \<equiv> 0x00000000"
abbreviation (input) PENDING :: u32 where "PENDING \<equiv> 0x00000103"
abbreviation (input) NOTIFY_CLEANUP :: u32 where "NOTIFY_CLEANUP \<equiv> 0x0000010B"
abbreviation (input) NOTIFY_ENUM_DIR :: u32 where "NOTIFY_ENUM_DIR \<equiv> 0x0000010C"
abbreviation (input) BUFFER_OVERFLOW :: u32 where "BUFFER_OVERFLOW \<equiv> 0x80000005"
abbreviation (input) NO_MORE_FILES :: u32 where "NO_MORE_FILES \<equiv> 0x80000006"
abbreviation (input) UNSUCCESSFUL :: u32 where "UNSUCCESSFUL \<equiv> 0xC0000001"
abbreviation (input) NOT_IMPLEMENTED :: u32 where "NOT_IMPLEMENTED \<equiv> 0xC0000002"
abbreviation (input) INVALID_PARAMETER :: u32 where "INVALID_PARAMETER \<equiv> 0xC000000D"
abbreviation (input) NO_SUCH_FILE :: u32 where "NO_SUCH_FILE \<equiv> 0xC000000F"
abbreviation (input) INVALID_DEVICE_REQUEST :: u32 where "INVALID_DEVICE_REQUEST \<equiv> 0xC0000010"
abbreviation (input) END_OF_FILE :: u32 where "END_OF_FILE \<equiv> 0xC0000011"
abbreviation (input) MORE_PROCESSING_REQUIRED :: u32 where "MORE_PROCESSING_REQUIRED \<equiv> 0xC0000016"
abbreviation (input) ACCESS_DENIED :: u32 where "ACCESS_DENIED \<equiv> 0xC0000022"
abbreviation (input) REQUEST_NOT_ACCEPTED :: u32 where "REQUEST_NOT_ACCEPTED \<equiv> 0xC00000D0"
abbreviation (input) BUFFER_TOO_SMALL :: u32 where "BUFFER_TOO_SMALL \<equiv> 0xC0000023"
abbreviation (input) OBJECT_NAME_INVALID :: u32 where "OBJECT_NAME_INVALID \<equiv> 0xC0000033"
abbreviation (input) OBJECT_NAME_NOT_FOUND :: u32 where "OBJECT_NAME_NOT_FOUND \<equiv> 0xC0000034"
abbreviation (input) OBJECT_NAME_COLLISION :: u32 where "OBJECT_NAME_COLLISION \<equiv> 0xC0000035"
abbreviation (input) OBJECT_PATH_NOT_FOUND :: u32 where "OBJECT_PATH_NOT_FOUND \<equiv> 0xC000003A"
abbreviation (input) SHARING_VIOLATION :: u32 where "SHARING_VIOLATION \<equiv> 0xC0000043"
abbreviation (input) FILE_LOCK_CONFLICT :: u32 where "FILE_LOCK_CONFLICT \<equiv> 0xC0000054"
abbreviation (input) LOCK_NOT_GRANTED :: u32 where "LOCK_NOT_GRANTED \<equiv> 0xC0000055"
abbreviation (input) LOGON_FAILURE :: u32 where "LOGON_FAILURE \<equiv> 0xC000006D"
abbreviation (input) TIME_DIFFERENCE_AT_DC :: u32 where "TIME_DIFFERENCE_AT_DC \<equiv> 0xC0000133"
abbreviation (input) DELETE_PENDING :: u32 where "DELETE_PENDING \<equiv> 0xC0000056"
abbreviation (input) DISK_FULL :: u32 where "DISK_FULL \<equiv> 0xC000007F"
abbreviation (input) INSUFFICIENT_RESOURCES :: u32 where "INSUFFICIENT_RESOURCES \<equiv> 0xC000009A"
abbreviation (input) IO_DEVICE_ERROR :: u32 where "IO_DEVICE_ERROR \<equiv> 0xC0000185"
abbreviation (input) FILE_IS_A_DIRECTORY :: u32 where "FILE_IS_A_DIRECTORY \<equiv> 0xC00000BA"
abbreviation (input) NOT_SUPPORTED :: u32 where "NOT_SUPPORTED \<equiv> 0xC00000BB"
abbreviation (input) BAD_NETWORK_NAME :: u32 where "BAD_NETWORK_NAME \<equiv> 0xC00000CC"
abbreviation (input) NETWORK_NAME_DELETED :: u32 where "NETWORK_NAME_DELETED \<equiv> 0xC00000C9"
abbreviation (input) DIRECTORY_NOT_EMPTY :: u32 where "DIRECTORY_NOT_EMPTY \<equiv> 0xC0000101"
abbreviation (input) NOT_A_DIRECTORY :: u32 where "NOT_A_DIRECTORY \<equiv> 0xC0000103"
abbreviation (input) CANCELLED :: u32 where "CANCELLED \<equiv> 0xC0000120"
abbreviation (input) FILE_CLOSED :: u32 where "FILE_CLOSED \<equiv> 0xC0000128"
abbreviation (input) USER_SESSION_DELETED :: u32 where "USER_SESSION_DELETED \<equiv> 0xC0000203"

type_synonym errno = int

abbreviation (input) EPERM :: errno where "EPERM \<equiv> 1"
abbreviation (input) ENOENT :: errno where "ENOENT \<equiv> 2"
abbreviation (input) EINTR :: errno where "EINTR \<equiv> 4"
abbreviation (input) EIO :: errno where "EIO \<equiv> 5"
abbreviation (input) ENXIO :: errno where "ENXIO \<equiv> 6"
abbreviation (input) EBADF :: errno where "EBADF \<equiv> 9"
abbreviation (input) EAGAIN :: errno where "EAGAIN \<equiv> 11"
abbreviation (input) ENOMEM :: errno where "ENOMEM \<equiv> 12"
abbreviation (input) EACCES :: errno where "EACCES \<equiv> 13"
abbreviation (input) EBUSY :: errno where "EBUSY \<equiv> 16"
abbreviation (input) EEXIST :: errno where "EEXIST \<equiv> 17"
abbreviation (input) ENOTDIR :: errno where "ENOTDIR \<equiv> 20"
abbreviation (input) EISDIR :: errno where "EISDIR \<equiv> 21"
abbreviation (input) EINVAL :: errno where "EINVAL \<equiv> 22"
abbreviation (input) ENFILE :: errno where "ENFILE \<equiv> 23"
abbreviation (input) EMFILE :: errno where "EMFILE \<equiv> 24"
abbreviation (input) ENOSPC :: errno where "ENOSPC \<equiv> 28"
abbreviation (input) EROFS :: errno where "EROFS \<equiv> 30"
abbreviation (input) ENOTEMPTY :: errno where "ENOTEMPTY \<equiv> 39"
abbreviation (input) EDQUOT :: errno where "EDQUOT \<equiv> 122"

definition from_errno :: "errno \<Rightarrow> u32" where
  "from_errno e =
     (if e = ENOENT then OBJECT_NAME_NOT_FOUND
      else if e = ENOTDIR then OBJECT_PATH_NOT_FOUND
      else if e = EACCES \<or> e = EPERM \<or> e = EROFS \<or> e = EBADF then ACCESS_DENIED
      else if e = EEXIST then OBJECT_NAME_COLLISION
      else if e = EISDIR then FILE_IS_A_DIRECTORY
      else if e = ENOTEMPTY then DIRECTORY_NOT_EMPTY
      else if e = ENOSPC \<or> e = EDQUOT then DISK_FULL
      else if e = ENFILE \<or> e = EMFILE \<or> e = ENOMEM then INSUFFICIENT_RESOURCES
      else if e = EINVAL then INVALID_PARAMETER
      else if e = EBUSY then SHARING_VIOLATION
      else if e = EIO then IO_DEVICE_ERROR
      else UNSUCCESSFUL)"

lemma from_errno_error: "0xC0000000 \<le> from_errno e"
  by (simp add: from_errno_def)

lemma from_errno_not_success [simp]: "from_errno e \<noteq> SUCCESS"
  by (simp add: from_errno_def)

end
