(* ===== verification/Ext.thy ===== *)
theory Ext
  imports Nt_Status
begin

text \<open>
  The code the server calls that is not part of it, as one record of functions that every
  definition using it takes as its argument \<open>E\<close>: the Linux system calls (over an abstract
  world \<open>'w\<close>), the crypto crates, and Unicode case mapping. Nothing is assumed here; what a
  theorem relies on is a named hypothesis (\<open>crypto_ok\<close>, \<open>aead_ok\<close>) of that theorem.
\<close>

type_synonym path = rstr
type_synonym fd = int

text \<open>What \<open>std::fs::Metadata\<close> and \<open>libc::stat\<close> report; times are \<open>i64\<close> seconds and
  nanoseconds.\<close>

record rawstat =
  st_mode :: u32
  st_size :: u64
  st_blocks :: u64
  st_mtime :: int
  st_mtime_nsec :: int
  st_atime :: int
  st_atime_nsec :: int
  st_ctime :: int
  st_ctime_nsec :: int
  st_ino :: u64
  st_nlink :: u64

record rawstatvfs =
  f_frsize :: u64
  f_blocks :: u64
  f_bavail :: u64
  f_bfree :: u64

datatype lock_kind = Shared | Exclusive | Unlock

text \<open>A \<open>struct timespec\<close> for \<open>futimens\<close>: \<open>None\<close> is \<open>UTIME_OMIT\<close>.\<close>

type_synonym timespec = "(int \<times> int) option"

record 'w ext =
  os_stat :: "path \<Rightarrow> 'w \<Rightarrow> errno + rawstat"
  os_fstat :: "fd \<Rightarrow> 'w \<Rightarrow> errno + rawstat"
  os_open :: "path \<Rightarrow> u32 \<Rightarrow> u32 \<Rightarrow> 'w \<Rightarrow> (errno + fd) \<times> 'w"
  os_getfl :: "fd \<Rightarrow> 'w \<Rightarrow> errno + u32"
  os_setfl :: "fd \<Rightarrow> u32 \<Rightarrow> 'w \<Rightarrow> (errno + unit) \<times> 'w"
  os_close :: "fd \<Rightarrow> 'w \<Rightarrow> 'w"
  os_dup :: "fd \<Rightarrow> 'w \<Rightarrow> (errno + fd) \<times> 'w"
  os_mkdir :: "path \<Rightarrow> u32 \<Rightarrow> 'w \<Rightarrow> (errno + unit) \<times> 'w"
  os_pread :: "fd \<Rightarrow> nat \<Rightarrow> u64 \<Rightarrow> 'w \<Rightarrow> (errno + bytes) \<times> 'w"
  os_pwrite :: "fd \<Rightarrow> bytes \<Rightarrow> u64 \<Rightarrow> 'w \<Rightarrow> (errno + nat) \<times> 'w"
  os_ftruncate :: "fd \<Rightarrow> u64 \<Rightarrow> 'w \<Rightarrow> (errno + unit) \<times> 'w"
  os_setlk :: "fd \<Rightarrow> lock_kind \<Rightarrow> nat \<Rightarrow> nat \<Rightarrow> 'w \<Rightarrow> (errno + unit) \<times> 'w"
  os_fsync :: "fd \<Rightarrow> 'w \<Rightarrow> (errno + unit) \<times> 'w"
  os_futimens :: "fd \<Rightarrow> timespec \<Rightarrow> timespec \<Rightarrow> 'w \<Rightarrow> (errno + unit) \<times> 'w"
  os_rename :: "path \<Rightarrow> path \<Rightarrow> 'w \<Rightarrow> (errno + unit) \<times> 'w"
  os_renameat2 :: "path \<Rightarrow> path \<Rightarrow> 'w \<Rightarrow> (errno + unit) \<times> 'w"
  os_rmdir :: "path \<Rightarrow> 'w \<Rightarrow> (errno + unit) \<times> 'w"
  os_unlink :: "path \<Rightarrow> 'w \<Rightarrow> (errno + unit) \<times> 'w"
  os_readdir :: "path \<Rightarrow> 'w \<Rightarrow> errno + (rstr option \<times> rawstat option) list"
  os_fstatvfs :: "fd \<Rightarrow> 'w \<Rightarrow> errno + rawstatvfs"
  os_urandom :: "nat \<Rightarrow> 'w \<Rightarrow> bytes \<times> 'w"
  os_now :: "'w \<Rightarrow> int \<times> int"
  cr_hmac_sha256 :: "bytes \<Rightarrow> bytes \<Rightarrow> bytes"
  cr_aes128_cmac :: "bytes \<Rightarrow> bytes \<Rightarrow> bytes"
  cr_sha512 :: "bytes \<Rightarrow> bytes"
  cr_hmac_md5 :: "bytes \<Rightarrow> bytes \<Rightarrow> bytes"
  cr_md4 :: "bytes \<Rightarrow> bytes"
  cr_aead_seal :: "u16 \<Rightarrow> bytes \<Rightarrow> bytes \<Rightarrow> bytes \<Rightarrow> bytes \<Rightarrow> bytes \<times> bytes"
  cr_aead_open :: "u16 \<Rightarrow> bytes \<Rightarrow> bytes \<Rightarrow> bytes \<Rightarrow> bytes \<Rightarrow> bytes \<Rightarrow> bytes option"
  uc_lower :: "rstr \<Rightarrow> rstr"
  uc_upper :: "rstr \<Rightarrow> rstr"

text \<open>Output lengths of the crypto primitives, fixed by their types in the crates.\<close>

definition crypto_ok :: "'w ext \<Rightarrow> bool" where
  "crypto_ok E \<longleftrightarrow>
     (\<forall>k m. length (cr_hmac_sha256 E k m) = 32) \<and>
     (\<forall>k m. length (cr_aes128_cmac E k m) = 16) \<and>
     (\<forall>m. length (cr_sha512 E m) = 64) \<and>
     (\<forall>k m. length (cr_hmac_md5 E k m) = 16) \<and>
     (\<forall>c k n a p. length (fst (cr_aead_seal E c k n a p)) = length p \<and>
        length (snd (cr_aead_seal E c k n a p)) = 16)"

text \<open>AEAD correctness: what was sealed opens, under the same cipher, key, nonce and
  associated data.\<close>

definition aead_ok :: "'w ext \<Rightarrow> bool" where
  "aead_ok E \<longleftrightarrow>
     (\<forall>c k n a p. cr_aead_open E c k n a (fst (cr_aead_seal E c k n a p))
        (snd (cr_aead_seal E c k n a p)) = Some p)"

section \<open>A concrete instance\<close>

text \<open>A small host to evaluate the model on: every path is a directory owned by the server, files
  are empty, randomness and the clock are constant, the case mappings are the ASCII ones and
  the cryptography is the identity with constant tags.\<close>

definition demo_stat :: rawstat where
  "demo_stat = \<lparr>st_mode = 0x41ED, st_size = 0, st_blocks = 0, st_mtime = 0, st_mtime_nsec = 0,
     st_atime = 0, st_atime_nsec = 0, st_ctime = 0, st_ctime_nsec = 0, st_ino = 2, st_nlink = 2\<rparr>"

definition demo_ext :: "'w ext" where
  "demo_ext = \<lparr>
     os_stat = (\<lambda>p w. Inr demo_stat),
     os_fstat = (\<lambda>fd w. Inr demo_stat),
     os_open = (\<lambda>p fl m w. (Inr 3, w)),
     os_getfl = (\<lambda>fd w. Inr 0),
     os_setfl = (\<lambda>fd fl w. (Inr (), w)),
     os_close = (\<lambda>fd w. w),
     os_dup = (\<lambda>fd w. (Inr 4, w)),
     os_mkdir = (\<lambda>p m w. (Inr (), w)),
     os_pread = (\<lambda>fd n off w. (Inr [], w)),
     os_pwrite = (\<lambda>fd bs off w. (Inr (length bs), w)),
     os_ftruncate = (\<lambda>fd n w. (Inr (), w)),
     os_setlk = (\<lambda>fd k s l w. (Inr (), w)),
     os_fsync = (\<lambda>fd w. (Inr (), w)),
     os_futimens = (\<lambda>fd a m w. (Inr (), w)),
     os_rename = (\<lambda>a b w. (Inr (), w)),
     os_renameat2 = (\<lambda>a b w. (Inr (), w)),
     os_rmdir = (\<lambda>p w. (Inr (), w)),
     os_unlink = (\<lambda>p w. (Inr (), w)),
     os_readdir = (\<lambda>p w. Inr []),
     os_fstatvfs = (\<lambda>fd w. Inr \<lparr>f_frsize = 4096, f_blocks = 100, f_bavail = 50, f_bfree = 60\<rparr>),
     os_urandom = (\<lambda>n w. (replicate n 1, w)),
     os_now = (\<lambda>w. (0, 0)),
     cr_hmac_sha256 = (\<lambda>k m. replicate 32 7),
     cr_aes128_cmac = (\<lambda>k m. replicate 16 7),
     cr_sha512 = (\<lambda>m. replicate 64 7),
     cr_hmac_md5 = (\<lambda>k m. replicate 16 7),
     cr_md4 = (\<lambda>m. replicate 16 7),
     cr_aead_seal = (\<lambda>c k n a p. (p, replicate 16 7)),
     cr_aead_open = (\<lambda>c k n a ct tag. if tag = replicate 16 7 then Some ct else None),
     uc_lower = map (\<lambda>c. if 65 \<le> c \<and> c \<le> 90 then c + 32 else c),
     uc_upper = map (\<lambda>c. if 97 \<le> c \<and> c \<le> 122 then c - 32 else c)\<rparr>"

abbreviation (input) demo :: "unit ext" where "demo \<equiv> demo_ext"

lemma crypto_ok_demo [simp]: "crypto_ok demo_ext"
  by (simp add: crypto_ok_def demo_ext_def)

lemma aead_ok_demo [simp]: "aead_ok demo_ext"
  by (simp add: aead_ok_def demo_ext_def)

lemma crypto_ok_unit: "crypto_ok demo" and aead_ok_unit: "aead_ok demo"
  by simp_all

end
