(* ===== verification/Wire.thy ===== *)
theory Wire
  imports Prelude
begin

text \<open>
  The little-endian wire primitives of \<open>src/src/wire.rs\<close>: the bounds-checked reader \<open>Rdr\<close>,
  the \<open>Put\<close> writer on \<open>Vec<u8>\<close>, and UTF-16LE strings. The locale \<open>wire_field\<close> is the
  contract between a writer and the reader of the same field; it is interpreted for every
  integer width, and its client lemmas decode whole runs of fields.
\<close>

section \<open>The reader\<close>

record rdr =
  rd_b :: bytes
  rd_pos :: nat

definition rdr_new :: "bytes \<Rightarrow> rdr" where
  "rdr_new b = \<lparr>rd_b = b, rd_pos = 0\<rparr>"

definition rdr_take :: "nat \<Rightarrow> rdr \<Rightarrow> (bytes \<times> rdr) option" where
  "rdr_take n r =
     (case slice_get (rd_b r) (rd_pos r) (rd_pos r + n) of
        None \<Rightarrow> None
      | Some s \<Rightarrow> Some (s, r\<lparr>rd_pos := rd_pos r + n\<rparr>))"

definition rdr_skip :: "nat \<Rightarrow> rdr \<Rightarrow> rdr option" where
  "rdr_skip n r = map_option snd (rdr_take n r)"

definition rdr_u8 :: "rdr \<Rightarrow> (u8 \<times> rdr) option" where
  "rdr_u8 r = map_option (map_prod (\<lambda>s. s ! 0) id) (rdr_take 1 r)"

definition rdr_u16 :: "rdr \<Rightarrow> (u16 \<times> rdr) option" where
  "rdr_u16 r = map_option (map_prod u16_le id) (rdr_take 2 r)"

definition rdr_u32 :: "rdr \<Rightarrow> (u32 \<times> rdr) option" where
  "rdr_u32 r = map_option (map_prod u32_le id) (rdr_take 4 r)"

definition rdr_u64 :: "rdr \<Rightarrow> (u64 \<times> rdr) option" where
  "rdr_u64 r = map_option (map_prod u64_le id) (rdr_take 8 r)"

text \<open>The loop \<open>for _ in 0..n { v.push(r.field()?) }\<close> that several parsers share.\<close>

primrec rdr_many :: "(rdr \<Rightarrow> ('a \<times> rdr) option) \<Rightarrow> nat \<Rightarrow> rdr \<Rightarrow> ('a list \<times> rdr) option" where
  "rdr_many f 0 r = Some ([], r)"
| "rdr_many f (Suc n) r =
     do { (x, r) \<leftarrow> f r; (xs, r) \<leftarrow> rdr_many f n r; Some (x # xs, r) }"

section \<open>The writer\<close>

text \<open>Each \<open>Put\<close> method appends to the vector; a run of them appends the concatenation.\<close>

definition p8 :: "bytes \<Rightarrow> u8 \<Rightarrow> bytes" where "p8 tx v = tx @ [v]"
definition p16 :: "bytes \<Rightarrow> u16 \<Rightarrow> bytes" where "p16 tx v = tx @ le16 v"
definition p32 :: "bytes \<Rightarrow> u32 \<Rightarrow> bytes" where "p32 tx v = tx @ le32 v"
definition p64 :: "bytes \<Rightarrow> u64 \<Rightarrow> bytes" where "p64 tx v = tx @ le64 v"
definition pbytes :: "bytes \<Rightarrow> bytes \<Rightarrow> bytes" where "pbytes tx v = tx @ v"

abbreviation zbytes :: "nat \<Rightarrow> bytes" where "zbytes n \<equiv> replicate n 0"

definition zeros :: "bytes \<Rightarrow> nat \<Rightarrow> bytes" where "zeros tx n = tx @ zbytes n"

definition patch32 :: "bytes \<Rightarrow> nat \<Rightarrow> u32 \<Rightarrow> bytes option" where
  "patch32 tx off v = copy_at tx off (le32 v)"

definition pad8 :: "bytes \<Rightarrow> nat \<Rightarrow> bytes" where
  "pad8 tx base =
     (let rem = (length tx - base) mod 8
      in if rem \<noteq> 0 then zeros tx (8 - rem) else tx)"

section \<open>UTF-16LE strings\<close>

definition utf16_units :: "nat \<Rightarrow> u16 list" where
  "utf16_units c =
     (if c < 0x10000 then [word_of_nat c]
      else [word_of_nat (0xD800 + (c - 0x10000) div 0x400),
            word_of_nat (0xDC00 + (c - 0x10000) mod 0x400)])"

definition utf16le :: "rstr \<Rightarrow> bytes" where
  "utf16le s = concat (map le16 (concat (map utf16_units s)))"

text \<open>\<open>String::from_utf16_lossy\<close>: an unpaired surrogate becomes U+FFFD.\<close>

fun decode_utf16_lossy :: "nat list \<Rightarrow> rstr" where
  "decode_utf16_lossy [] = []"
| "decode_utf16_lossy (u # us) =
     (if u < 0xD800 \<or> 0xDFFF < u then u # decode_utf16_lossy us
      else if 0xDC00 \<le> u then 0xFFFD # decode_utf16_lossy us
      else (case us of
              [] \<Rightarrow> [0xFFFD]
            | u2 # us' \<Rightarrow>
                if 0xDC00 \<le> u2 \<and> u2 \<le> 0xDFFF
                then (0x10000 + (u - 0xD800) * 0x400 + (u2 - 0xDC00)) # decode_utf16_lossy us'
                else 0xFFFD # decode_utf16_lossy us))"

fun chunks2 :: "bytes \<Rightarrow> u16 list" where
  "chunks2 (a # b # bs) = u16_le [a, b] # chunks2 bs"
| "chunks2 _ = []"

definition from_utf16le :: "bytes \<Rightarrow> rstr" where
  "from_utf16le b = decode_utf16_lossy (map unat (chunks2 b))"

definition scalar :: "nat \<Rightarrow> bool" where
  "scalar c \<longleftrightarrow> c < 0x110000 \<and> \<not> (0xD800 \<le> c \<and> c < 0xE000)"

section \<open>What is left to read\<close>

definition rdr_ok :: "rdr \<Rightarrow> bool" where
  "rdr_ok r \<longleftrightarrow> rd_pos r \<le> length (rd_b r)"

definition rest :: "rdr \<Rightarrow> bytes" where
  "rest r = drop (rd_pos r) (rd_b r)"

definition adv :: "nat \<Rightarrow> rdr \<Rightarrow> rdr" where
  "adv n r = r\<lparr>rd_pos := rd_pos r + n\<rparr>"

lemma rdr_ok_new [simp, intro]: "rdr_ok (rdr_new b)"
  by (simp add: rdr_ok_def rdr_new_def)

lemma rest_new [simp]: "rest (rdr_new b) = b"
  by (simp add: rest_def rdr_new_def)

lemma rest_adv [simp]: "rest (adv n r) = drop n (rest r)"
  by (simp add: rest_def adv_def add.commute)

lemma rdr_ok_adv: "rdr_ok r \<Longrightarrow> n \<le> length (rest r) \<Longrightarrow> rdr_ok (adv n r)"
  by (simp add: rdr_ok_def adv_def rest_def)

lemma adv_adv [simp]: "adv m (adv n r) = adv (n + m) r"
  by (simp add: adv_def add.assoc)

lemma adv_0 [simp]: "adv 0 r = r"
  by (simp add: adv_def)

lemma rd_b_adv [simp]: "rd_b (adv n r) = rd_b r"
  by (simp add: adv_def)

lemma rd_pos_adv [simp]: "rd_pos (adv n r) = rd_pos r + n"
  by (simp add: adv_def)

lemma rdr_take_eq:
  "rdr_ok r \<Longrightarrow> rdr_take n r = (if n \<le> length (rest r) then Some (take n (rest r), adv n r) else None)"
  by (auto simp: rdr_take_def slice_get_def rest_def adv_def rdr_ok_def)

lemma rdr_skip_eq:
  "rdr_ok r \<Longrightarrow> rdr_skip n r = (if n \<le> length (rest r) then Some (adv n r) else None)"
  by (simp add: rdr_skip_def rdr_take_eq)

lemma rdr_take_Some:
  "rdr_take n r = Some (s, r') \<longleftrightarrow>
     rd_pos r + n \<le> length (rd_b r) \<and> s = take n (rest r) \<and> r' = adv n r"
  by (auto simp: rdr_take_def slice_get_def rest_def adv_def split: option.splits)

section \<open>The contract of a fixed-width field\<close>

locale wire_field =
  fixes enc :: "'a \<Rightarrow> bytes"
    and dec :: "rdr \<Rightarrow> ('a \<times> rdr) option"
    and width :: nat
  assumes enc_length: "length (enc v) = width"
    and dec_enc: "rdr_ok r \<Longrightarrow> rest r = enc v @ ys \<Longrightarrow> dec r = Some (v, adv width r)"
    and dec_total: "rdr_ok r \<Longrightarrow> width \<le> length (rest r) \<Longrightarrow>
        \<exists>v. dec r = Some (v, adv width r) \<and> enc v = take width (rest r)"
    and dec_short: "rdr_ok r \<Longrightarrow> length (rest r) < width \<Longrightarrow> dec r = None"
begin

lemma dec_Some_iff:
  assumes "rdr_ok r"
  shows "dec r = Some (v, r') \<longleftrightarrow>
    width \<le> length (rest r) \<and> enc v = take width (rest r) \<and> r' = adv width r"
proof (cases "width \<le> length (rest r)")
  case True
  from dec_total [OF assms True] obtain w where
    w: "dec r = Some (w, adv width r)" and e: "enc w = take width (rest r)" by blast
  have "v = w" if "enc v = take width (rest r)"
  proof -
    from that have "rest r = enc v @ drop width (rest r)" by simp
    from dec_enc [OF assms this] w show ?thesis by simp
  qed
  with True w e show ?thesis by auto
next
  case False
  with dec_short [OF assms] show ?thesis by simp
qed

lemma enc_inj: "enc v = enc w \<Longrightarrow> v = w"
proof -
  assume eq: "enc v = enc w"
  have "rest (rdr_new (enc v)) = enc v @ []" "rest (rdr_new (enc v)) = enc w @ []"
    using eq by simp_all
  then show "v = w" using dec_enc [OF rdr_ok_new] by (metis option.inject prod.inject)
qed

lemma many_enc:
  "rdr_ok r \<Longrightarrow> rest r = concat (map enc vs) @ ys \<Longrightarrow>
     rdr_many dec (length vs) r = Some (vs, adv (length vs * width) r)"
proof (induction vs arbitrary: r)
  case Nil
  then show ?case by simp
next
  case (Cons v vs)
  have d: "dec r = Some (v, adv width r)"
    using Cons.prems by (intro dec_enc) auto
  have ok: "rdr_ok (adv width r)"
    using Cons.prems by (intro rdr_ok_adv) (auto simp: enc_length)
  have "rest (adv width r) = concat (map enc vs) @ ys"
    using Cons.prems(2) by (simp add: enc_length)
  from Cons.IH [OF ok this] d show ?case by simp
qed

lemma many_length: "rdr_many dec n r = Some (vs, r') \<Longrightarrow> length vs = n"
  by (induction n arbitrary: r vs) auto

lemma many_bound:
  "rdr_ok r \<Longrightarrow> rdr_many dec n r = Some (vs, r') \<Longrightarrow>
     n * width \<le> length (rest r) \<and> r' = adv (n * width) r \<and> rdr_ok r'"
proof (induction n arbitrary: r vs)
  case 0
  then show ?case by simp
next
  case (Suc n)
  from Suc.prems(2) obtain x r1 xs where d: "dec r = Some (x, r1)"
    and m: "rdr_many dec n r1 = Some (xs, r')" by auto
  from d Suc.prems(1) have w: "width \<le> length (rest r)" and r1: "r1 = adv width r"
    by (simp_all add: dec_Some_iff)
  have "rdr_ok r1" unfolding r1 using Suc.prems(1) w by (rule rdr_ok_adv)
  from Suc.IH [OF this m] w r1 show ?case by auto
qed

end

lemma rdr_field_interp:
  assumes "\<And>v. length (enc v) = n" and "\<And>v. decb (enc v) = v"
    and "\<And>bs. length bs = n \<Longrightarrow> enc (decb bs) = bs"
    and dec: "\<And>r. dec r = map_option (map_prod decb id) (rdr_take n r)"
  shows "wire_field enc dec n"
proof
  fix v r ys
  show "length (enc v) = n" by (rule assms(1))
  show "dec r = Some (v, adv n r)" if "rdr_ok r" "rest r = enc v @ ys"
    using that assms(1,2) by (simp add: dec rdr_take_eq)
  show "dec r = None" if "rdr_ok r" "length (rest r) < n"
    using that by (simp add: dec rdr_take_eq)
  show "\<exists>v. dec r = Some (v, adv n r) \<and> enc v = take n (rest r)"
    if "rdr_ok r" "n \<le> length (rest r)"
    using that assms(3) by (simp add: dec rdr_take_eq)
qed

interpretation f8: wire_field "\<lambda>v. [v]" rdr_u8 1
  by (rule rdr_field_interp [where decb = "\<lambda>s. s ! 0"])
    (auto simp: rdr_u8_def length_Suc_conv)

interpretation f16: wire_field le16 rdr_u16 2
  by (rule rdr_field_interp [where decb = u16_le]) (auto simp: rdr_u16_def le16_u16_le)

interpretation f32: wire_field le32 rdr_u32 4
  by (rule rdr_field_interp [where decb = u32_le]) (auto simp: rdr_u32_def le32_u32_le)

interpretation f64: wire_field le64 rdr_u64 8
  by (rule rdr_field_interp [where decb = u64_le]) (auto simp: rdr_u64_def le64_u64_le)

lemmas field_iffs = f8.dec_Some_iff f16.dec_Some_iff f32.dec_Some_iff f64.dec_Some_iff

lemmas field_encs = f8.dec_enc f16.dec_enc f32.dec_enc f64.dec_enc

section \<open>Padding\<close>

lemma pad8_prefix: "\<exists>k < 8. pad8 tx base = tx @ zbytes k"
proof (cases "(length tx - base) mod 8 = 0")
  case True
  then show ?thesis by (intro exI [of _ 0]) (simp add: pad8_def)
next
  case False
  then show ?thesis
    by (intro exI [of _ "8 - (length tx - base) mod 8"]) (simp add: pad8_def zeros_def Let_def)
qed

lemma length_pad8_ge: "length tx \<le> length (pad8 tx base)"
  using pad8_prefix [of tx base] by auto

lemma pad8_aligned: "base \<le> length tx \<Longrightarrow> (length (pad8 tx base) - base) mod 8 = 0"
proof -
  assume b: "base \<le> length tx"
  define n where "n = length tx - base"
  have "(n + (8 - n mod 8)) mod 8 = 0" by presburger
  moreover have "pad8 tx base = (if n mod 8 = 0 then tx else tx @ zbytes (8 - n mod 8))"
    by (simp add: pad8_def zeros_def Let_def n_def)
  moreover have "length (tx @ zbytes k) - base = n + k" for k
    using b by (simp add: n_def)
  ultimately show ?thesis
    by (cases "n mod 8 = 0") (simp_all only: if_True if_False simp_thms, simp add: n_def)
qed

section \<open>UTF-16 round trip\<close>

lemma chunks2_le16: "chunks2 (le16 u @ bs) = u # chunks2 bs"
proof -
  have "length (le16 u) = Suc (Suc 0)" by simp
  then obtain a b where ab: "le16 u = [a, b]"
    by (auto simp only: length_Suc_conv length_0_conv)
  have "u16_le [a, b] = u" unfolding ab [symmetric] by (rule u16_le_le16)
  then show ?thesis unfolding ab by simp
qed

lemma chunks2_units: "chunks2 (concat (map le16 us)) = us"
  by (induction us) (simp_all add: chunks2_le16)

lemma unat_unit: "n < 65536 \<Longrightarrow> unat (word_of_nat n :: u16) = n"
  by (simp add: unat_of_nat)

lemma decode_units:
  assumes "scalar c"
  shows "decode_utf16_lossy (map unat (utf16_units c) @ us) = c # decode_utf16_lossy us"
proof (cases "c < 0x10000")
  case True
  with assms show ?thesis by (auto simp: utf16_units_def unat_unit scalar_def)
next
  case False
  define h where "h = (c - 0x10000) div 0x400"
  define l where "l = (c - 0x10000) mod 0x400"
  have c: "c = 0x10000 + h * 0x400 + l" using False by (simp add: h_def l_def)
  have h: "h < 0x400" using assms by (auto simp: h_def scalar_def)
  have l: "l < 0x400" by (simp add: l_def)
  have u: "map unat (utf16_units c) = [0xD800 + h, 0xDC00 + l]"
  proof -
    have "unat (word_of_nat (0xD800 + h) :: u16) = 0xD800 + h"
      and "unat (word_of_nat (0xDC00 + l) :: u16) = 0xDC00 + l"
      using h l by (intro unat_unit; simp)+
    then show ?thesis
      using False by (simp add: utf16_units_def h_def [symmetric] l_def [symmetric] del: of_nat_add)
  qed
  have "decode_utf16_lossy ((0xD800 + h) # (0xDC00 + l) # us)
      = (0x10000 + h * 0x400 + l) # decode_utf16_lossy us"
    using h l by simp
  then show ?thesis by (simp add: u c [symmetric])
qed

lemma from_utf16le_utf16le: "list_all scalar s \<Longrightarrow> from_utf16le (utf16le s) = s"
proof (induction s)
  case Nil
  then show ?case by (simp add: utf16le_def from_utf16le_def)
next
  case (Cons c s)
  then show ?case
    using decode_units [of c "map unat (concat (map utf16_units s))"]
    by (simp only: utf16le_def from_utf16le_def chunks2_units) simp
qed

lemma length_utf16le: "length (utf16le s) = 2 * length (concat (map utf16_units s))"
  by (simp add: utf16le_def length_concat o_def sum_list_triv)

section \<open>Properties\<close>

text \<open>(C27) Names survive the wire: decoding the UTF-16LE encoding of any string of Unicode scalar
  values, surrogate pairs included, gives the string back.\<close>

theorem utf16_round_trip:
  assumes "list_all scalar s"
  shows "from_utf16le (utf16le s) = s"
  using assms by (rule from_utf16le_utf16le)

theorem utf16_round_trip_witness: "from_utf16le (utf16le [0x41, 0x20AC, 0x1F680]) = [0x41, 0x20AC, 0x1F680]"
  by (rule utf16_round_trip) (simp add: scalar_def)

end
