(* ===== verification/Strings.thy ===== *)
theory Strings
  imports Prelude
begin

text \<open>
  The parts of Rust's \<open>str\<close> the configuration, authorization and PAC code uses, on lists of
  code points: ASCII case folding, trimming, splitting, UTF-8 byte offsets, and unsigned
  decimal parsing and printing, hexadecimal printing, joining and searching.
\<close>

section \<open>ASCII case folding\<close>

definition ascii_lower :: "nat \<Rightarrow> nat" where
  "ascii_lower c = (if 65 \<le> c \<and> c \<le> 90 then c + 32 else c)"

definition eq_ignore_ascii_case :: "rstr \<Rightarrow> rstr \<Rightarrow> bool" where
  "eq_ignore_ascii_case a b \<longleftrightarrow> map ascii_lower a = map ascii_lower b"

section \<open>Trimming\<close>

text \<open>Code points with the Unicode property \<open>White_Space\<close>, which \<open>trim\<close> removes.\<close>

definition is_space :: "nat \<Rightarrow> bool" where
  "is_space c \<longleftrightarrow> (9 \<le> c \<and> c \<le> 13) \<or> c = 32 \<or> c = 0x85 \<or> c = 0xA0 \<or> c = 0x1680 \<or>
     (0x2000 \<le> c \<and> c \<le> 0x200A) \<or> c = 0x2028 \<or> c = 0x2029 \<or> c = 0x202F \<or> c = 0x205F \<or> c = 0x3000"

definition trim_start :: "rstr \<Rightarrow> rstr" where
  "trim_start s = dropWhile is_space s"

definition trim :: "rstr \<Rightarrow> rstr" where
  "trim s = rev (dropWhile is_space (rev (trim_start s)))"

section \<open>Splitting\<close>

fun split_once :: "nat \<Rightarrow> rstr \<Rightarrow> (rstr \<times> rstr) option" where
  "split_once d [] = None"
| "split_once d (c # cs) =
     (if c = d then Some ([], cs)
      else (case split_once d cs of None \<Rightarrow> None | Some (a, b) \<Rightarrow> Some (c # a, b)))"

definition rsplit_once :: "nat \<Rightarrow> rstr \<Rightarrow> (rstr \<times> rstr) option" where
  "rsplit_once d s =
     (case split_once d (rev s) of None \<Rightarrow> None | Some (a, b) \<Rightarrow> Some (rev b, rev a))"

definition strip_prefix :: "nat \<Rightarrow> rstr \<Rightarrow> rstr option" where
  "strip_prefix c s = (case s of [] \<Rightarrow> None | x # xs \<Rightarrow> if x = c then Some xs else None)"

definition starts_with :: "nat \<Rightarrow> rstr \<Rightarrow> bool" where
  "starts_with c s \<longleftrightarrow> strip_prefix c s \<noteq> None"

text \<open>The fields of \<open>s.split(P)\<close>; there is always at least one.\<close>

fun split_on :: "(nat \<Rightarrow> bool) \<Rightarrow> rstr \<Rightarrow> rstr list" where
  "split_on P [] = [[]]"
| "split_on P (c # cs) =
     (if P c then [] # split_on P cs
      else (case split_on P cs of [] \<Rightarrow> [[c]] | x # xs \<Rightarrow> (c # x) # xs))"

section \<open>UTF-8 byte offsets\<close>

definition utf8_len :: "nat \<Rightarrow> nat" where
  "utf8_len c = (if c < 0x80 then 1 else if c < 0x800 then 2 else if c < 0x10000 then 3 else 4)"

definition byte_len :: "rstr \<Rightarrow> nat" where
  "byte_len s = sum_list (map utf8_len s)"

text \<open>\<open>&s[..n]\<close>: a panic (\<open>None\<close>) unless \<open>n\<close> is a character boundary within the string.\<close>

fun byte_prefix :: "nat \<Rightarrow> rstr \<Rightarrow> rstr option" where
  "byte_prefix 0 s = Some []"
| "byte_prefix n [] = None"
| "byte_prefix n (c # cs) =
     (if utf8_len c \<le> n then (case byte_prefix (n - utf8_len c) cs of None \<Rightarrow> None | Some p \<Rightarrow> Some (c # p))
      else None)"

section \<open>Unsigned decimal numbers\<close>

definition is_digit :: "nat \<Rightarrow> bool" where
  "is_digit c \<longleftrightarrow> 48 \<le> c \<and> c \<le> 57"

definition dec_value :: "rstr \<Rightarrow> nat" where
  "dec_value s = foldl (\<lambda>a c. a * 10 + (c - 48)) 0 s"

text \<open>\<open>s.parse::<uN>()\<close>: an optional plus sign and at least one digit, in range.\<close>

definition parse_uint :: "nat \<Rightarrow> rstr \<Rightarrow> nat option" where
  "parse_uint w s =
     (let d = (case s of [] \<Rightarrow> [] | c # cs \<Rightarrow> if c = 43 then cs else s)
      in if d \<noteq> [] \<and> list_all is_digit d \<and> dec_value d < 2 ^ w then Some (dec_value d) else None)"

fun show_uint :: "nat \<Rightarrow> rstr" where
  "show_uint n = (if n < 10 then [48 + n] else show_uint (n div 10) @ [48 + n mod 10])"

declare show_uint.simps [simp del]

text \<open>Lower-case hexadecimal: \<open>{:x}\<close>, and \<open>{:08x}\<close> of a \<open>u32\<close>.\<close>

definition hex_lower :: "nat \<Rightarrow> nat" where
  "hex_lower d = (if d < 10 then 48 + d else 87 + d)"

fun show_hex :: "nat \<Rightarrow> rstr" where
  "show_hex n = (if n < 16 then [hex_lower n] else show_hex (n div 16) @ [hex_lower (n mod 16)])"

declare show_hex.simps [simp del]

definition show_hex8 :: "u32 \<Rightarrow> rstr" where
  "show_hex8 v = map (\<lambda>i. hex_lower (unat v div 16 ^ i mod 16)) [7, 6, 5, 4, 3, 2, 1, 0]"

text \<open>\<open>join\<close> of a slice of strings, and \<open>contains\<close>.\<close>

fun join :: "rstr \<Rightarrow> rstr list \<Rightarrow> rstr" where
  "join sep [] = []"
| "join sep [x] = x"
| "join sep (x # y # xs) = x @ sep @ join sep (y # xs)"

fun contains :: "rstr \<Rightarrow> rstr \<Rightarrow> bool" where
  "contains p [] \<longleftrightarrow> p = []"
| "contains p (c # cs) \<longleftrightarrow> take (length p) (c # cs) = p \<or> contains p cs"

lemma show_uint_nonempty [simp]: "show_uint n \<noteq> []"
  by (subst show_uint.simps) simp

lemma show_uint_digits: "list_all is_digit (show_uint n)"
proof (induction n rule: show_uint.induct)
  case (1 n)
  then show ?case by (subst show_uint.simps) (auto simp: is_digit_def list_all_iff)
qed

lemma dec_value_show: "dec_value (show_uint n) = n"
proof (induction n rule: show_uint.induct)
  case (1 n)
  then show ?case by (subst show_uint.simps) (auto simp: dec_value_def)
qed

lemma show_uint_mem: "c \<in> set (show_uint n) \<Longrightarrow> 48 \<le> c \<and> c \<le> 57"
  using show_uint_digits [of n] by (auto simp: list_all_iff is_digit_def)

lemma parse_show_uint: "n < 2 ^ w \<Longrightarrow> parse_uint w (show_uint n) = Some n"
proof -
  assume n: "n < 2 ^ w"
  obtain c cs where c: "show_uint n = c # cs" by (metis show_uint_nonempty list.exhaust)
  then have "c \<noteq> 43" using show_uint_mem [of c n] by auto
  with c n show ?thesis
    using show_uint_digits [of n] dec_value_show [of n] by (simp add: parse_uint_def)
qed

lemma parse_uint_bound: "parse_uint w s = Some n \<Longrightarrow> n < 2 ^ w"
  by (auto simp: parse_uint_def Let_def split: if_splits)

section \<open>Facts on splitting and trimming\<close>

lemma split_once_Some: "split_once d s = Some (a, b) \<Longrightarrow> s = a @ d # b \<and> d \<notin> set a"
  by (induction s arbitrary: a) (auto split: if_splits option.splits)

lemma split_once_None: "split_once d s = None \<longleftrightarrow> d \<notin> set s"
  by (induction s) (auto split: option.splits)

lemma rsplit_once_Some: "rsplit_once d s = Some (a, b) \<Longrightarrow> s = a @ d # b \<and> d \<notin> set b"
proof -
  assume "rsplit_once d s = Some (a, b)"
  then have "split_once d (rev s) = Some (rev b, rev a)"
    by (auto simp: rsplit_once_def split: option.splits)
  then have "rev s = rev b @ d # rev a \<and> d \<notin> set b"
    by (auto dest: split_once_Some)
  then show ?thesis by (metis append_Cons append_Nil append_assoc rev.simps(2) rev_append rev_swap)
qed

lemma split_on_nonempty [simp]: "split_on P s \<noteq> []"
  by (induction s) (auto split: list.splits)

lemma split_on_free: "c \<in> set (split_on P s) \<Longrightarrow> x \<in> set c \<Longrightarrow> \<not> P x"
proof (induction s arbitrary: c)
  case Nil
  then show ?case by simp
next
  case (Cons a s)
  obtain y ys where y: "split_on P s = y # ys"
    using split_on_nonempty by (metis list.exhaust)
  then have IH: "c \<in> set (y # ys) \<Longrightarrow> x \<in> set c \<Longrightarrow> \<not> P x" for c
    using Cons.IH by simp
  show ?case
    using Cons.prems y IH [of y] IH [of c] by (auto split: if_splits)
qed

lemma split_on_none: "\<forall>c \<in> set s. \<not> P c \<Longrightarrow> split_on P s = [s]"
  by (induction s) auto

lemma split_on_append: "\<forall>c \<in> set a. \<not> P c \<Longrightarrow> P d \<Longrightarrow> split_on P (a @ d # b) = a # split_on P b"
  by (induction a) auto

lemma byte_prefix_Cons:
  "0 < n \<Longrightarrow> byte_prefix n (c # cs) = (if utf8_len c \<le> n then map_option ((#) c) (byte_prefix (n - utf8_len c) cs) else None)"
  by (cases n) (auto split: option.splits)

lemma byte_prefix_boundary: "byte_prefix n s = Some p \<Longrightarrow> \<exists>t. s = p @ t \<and> byte_len p = n"
proof (induction n s arbitrary: p rule: byte_prefix.induct)
  case (3 n c cs)
  then show ?case by (auto simp: byte_len_def split: if_splits option.splits)
qed (auto simp: byte_len_def)

end
