(* ===== verification/Vfs.thy ===== *)
theory Vfs
  imports Ext Wire Strings
begin

text \<open>
  The filesystem layer of \<open>src/src/vfs.rs\<close>: metadata mapping, path resolution below a share
  root, opening files, positioned reads and writes, byte-range locks and directory
  snapshots, over the system calls of \<open>Ext\<close>. The table of open files is in \<open>Handles\<close>.
\<close>

section \<open>Metadata\<close>

abbreviation (input) ATTR_READONLY :: u32 where "ATTR_READONLY \<equiv> 0x01"
abbreviation (input) ATTR_HIDDEN :: u32 where "ATTR_HIDDEN \<equiv> 0x02"
abbreviation (input) ATTR_DIRECTORY :: u32 where "ATTR_DIRECTORY \<equiv> 0x10"
abbreviation (input) ATTR_ARCHIVE :: u32 where "ATTR_ARCHIVE \<equiv> 0x20"
abbreviation (input) EPOCH_DELTA_SECS :: int where "EPOCH_DELTA_SECS \<equiv> 11644473600"

text \<open>Unix time to FILETIME. The release build's \<open>u64\<close> arithmetic wraps.\<close>

definition filetime :: "int \<Rightarrow> int \<Rightarrow> u64" where
  "filetime secs nsec =
     (if secs < - EPOCH_DELTA_SECS then 0
      else word_of_int (secs + EPOCH_DELTA_SECS) * 10000000 + word_of_int nsec div 100)"

definition filetime_now :: "'w ext \<Rightarrow> 'w \<Rightarrow> u64" where
  "filetime_now E w =
     (case os_now E w of (secs, nsec) \<Rightarrow> if secs < 0 then filetime 0 0 else filetime secs nsec)"

record meta =
  m_size :: u64
  m_alloc :: u64
  m_attrs :: u32
  m_crtime :: u64
  m_atime :: u64
  m_mtime :: u64
  m_ctime :: u64
  m_ino :: u64
  m_nlink :: u32
  m_is_dir :: bool

definition st_is_dir :: "rawstat \<Rightarrow> bool" where
  "st_is_dir m \<longleftrightarrow> st_mode m AND 0xF000 = 0x4000"

definition meta_from_std :: "rawstat \<Rightarrow> meta" where
  "meta_from_std m =
     (let is_dir = st_is_dir m;
          attrs = (if is_dir then ATTR_DIRECTORY else 0);
          attrs = (if st_mode m AND 0x80 = 0 then attrs OR ATTR_READONLY else attrs);
          attrs = (if attrs = 0 then ATTR_ARCHIVE else attrs);
          mtime = filetime (st_mtime m) (st_mtime_nsec m)
      in \<lparr>m_size = st_size m, m_alloc = st_blocks m * 512, m_attrs = attrs, m_crtime = mtime,
          m_atime = filetime (st_atime m) (st_atime_nsec m), m_mtime = mtime,
          m_ctime = filetime (st_ctime m) (st_ctime_nsec m), m_ino = st_ino m,
          m_nlink = ucast (st_nlink m), m_is_dir = is_dir\<rparr>)"

definition finalize_attrs :: "u32 \<Rightarrow> rstr \<Rightarrow> u32" where
  "finalize_attrs attrs leaf =
     (if take 1 leaf = str ''.'' \<and> leaf \<noteq> str ''.'' \<and> leaf \<noteq> str ''..''
      then attrs OR ATTR_HIDDEN else attrs)"

text \<open>\<open>std::fs\<close> refuses a path with an interior NUL without a raw OS error, hence \<open>EIO\<close>.\<close>

definition stat_meta :: "'w ext \<Rightarrow> path \<Rightarrow> 'w \<Rightarrow> errno + meta" where
  "stat_meta E p w =
     (if 0 \<in> set p then Inl EIO else map_sum id meta_from_std (os_stat E p w))"

definition fstat_meta :: "'w ext \<Rightarrow> fd \<Rightarrow> 'w \<Rightarrow> errno + meta" where
  "fstat_meta E fd w =
     (if fd < 0 then Inl EBADF else map_sum id meta_from_std (os_fstat E fd w))"

section \<open>Paths\<close>

definition cpath :: "path \<Rightarrow> errno + path" where
  "cpath p = (if 0 \<in> set p then Inl EINVAL else Inr p)"

definition rename_noreplace :: "'w ext \<Rightarrow> path \<Rightarrow> path \<Rightarrow> 'w \<Rightarrow> (errno + unit) \<times> 'w" where
  "rename_noreplace E a b w =
     (case cpath a of
        Inl e \<Rightarrow> (Inl e, w)
      | Inr a \<Rightarrow> (case cpath b of Inl e \<Rightarrow> (Inl e, w) | Inr b \<Rightarrow> os_renameat2 E a b w))"

abbreviation (input) SLASH :: nat where "SLASH \<equiv> 47"
abbreviation (input) BACKSLASH :: nat where "BACKSLASH \<equiv> 92"

text \<open>\<open>PathBuf::push\<close> on Unix.\<close>

definition path_push :: "path \<Rightarrow> rstr \<Rightarrow> path" where
  "path_push p c =
     (if take 1 c = [SLASH] then c
      else if p = [] \<or> last p = SLASH then p @ c
      else p @ [SLASH] @ c)"

fun resolve_loop :: "path \<Rightarrow> rstr \<Rightarrow> rstr list \<Rightarrow> u32 + path \<times> rstr" where
  "resolve_loop p rel [] = Inr (p, rel)"
| "resolve_loop p rel (c # cs) =
     (if c = [] \<or> c = str ''.'' then resolve_loop p rel cs
      else if c = str ''..'' then Inl OBJECT_NAME_INVALID
      else if 0 \<in> set c then Inl OBJECT_NAME_INVALID
      else resolve_loop (path_push p c) ((if rel \<noteq> [] then rel @ [BACKSLASH] else rel) @ c) cs)"

definition resolve :: "path \<Rightarrow> rstr \<Rightarrow> u32 + path \<times> rstr" where
  "resolve root smb_name =
     resolve_loop root [] (split_on (\<lambda>c. c = BACKSLASH \<or> c = SLASH) smb_name)"

section \<open>Files\<close>

abbreviation (input) O_RDONLY :: u32 where "O_RDONLY \<equiv> 0"
abbreviation (input) O_RDWR :: u32 where "O_RDWR \<equiv> 2"
abbreviation (input) O_CREAT :: u32 where "O_CREAT \<equiv> 0x40"
abbreviation (input) O_EXCL :: u32 where "O_EXCL \<equiv> 0x80"
abbreviation (input) O_TRUNC :: u32 where "O_TRUNC \<equiv> 0x200"
abbreviation (input) O_NONBLOCK :: u32 where "O_NONBLOCK \<equiv> 0x800"
abbreviation (input) O_DIRECTORY :: u32 where "O_DIRECTORY \<equiv> 0x10000"
abbreviation (input) O_CLOEXEC :: u32 where "O_CLOEXEC \<equiv> 0x80000"

definition open_kind_ok :: "'w ext \<Rightarrow> fd \<Rightarrow> 'w \<Rightarrow> errno + unit" where
  "open_kind_ok E fd w =
     (case os_fstat E fd w of
        Inl e \<Rightarrow> Inl e
      | Inr st \<Rightarrow> (let k = st_mode st AND 0xF000
                  in if k = 0x8000 \<or> k = 0x4000 then Inr () else Inl ENXIO))"

definition clear_nonblock :: "'w ext \<Rightarrow> fd \<Rightarrow> 'w \<Rightarrow> (errno + unit) \<times> 'w" where
  "clear_nonblock E fd w =
     (case os_getfl E fd w of
        Inl e \<Rightarrow> (Inl e, w)
      | Inr fl \<Rightarrow> os_setfl E fd (fl AND NOT O_NONBLOCK) w)"

definition open_raw :: "'w ext \<Rightarrow> path \<Rightarrow> u32 \<Rightarrow> u32 \<Rightarrow> 'w \<Rightarrow> (errno + fd) \<times> 'w" where
  "open_raw E p flags mode w =
     (case cpath p of
        Inl e \<Rightarrow> (Inl e, w)
      | Inr c \<Rightarrow>
          (case os_open E c (flags OR O_CLOEXEC OR O_NONBLOCK) mode w of
             (Inl e, w) \<Rightarrow> (Inl e, w)
           | (Inr fd, w) \<Rightarrow>
               (case (case open_kind_ok E fd w of
                        Inl e \<Rightarrow> (Inl e, w) | Inr () \<Rightarrow> clear_nonblock E fd w) of
                  (Inr (), w) \<Rightarrow> (Inr fd, w)
                | (Inl e, w) \<Rightarrow> (Inl e, os_close E fd w))))"

partial_function (option) pread ::
  "'w ext \<Rightarrow> fd \<Rightarrow> nat \<Rightarrow> u64 \<Rightarrow> 'w \<Rightarrow> ((errno + bytes) \<times> 'w) option" where
  "pread E fd n off w =
     (case os_pread E fd n off w of
        (Inr bs, w) \<Rightarrow> Some (Inr bs, w)
      | (Inl e, w) \<Rightarrow> if e \<noteq> EINTR then Some (Inl e, w) else pread E fd n off w)"

partial_function (option) pwrite_all ::
  "'w ext \<Rightarrow> fd \<Rightarrow> bytes \<Rightarrow> u64 \<Rightarrow> 'w \<Rightarrow> ((errno + unit) \<times> 'w) option" where
  "pwrite_all E fd buf off w =
     (if buf = [] then Some (Inr (), w)
      else (case os_pwrite E fd buf off w of
              (Inl e, w) \<Rightarrow> if e = EINTR then pwrite_all E fd buf off w else Some (Inl e, w)
            | (Inr n, w) \<Rightarrow>
                if n \<le> length buf then pwrite_all E fd (drop n buf) (off + word_of_nat n) w
                else None))"

definition range_lock ::
  "'w ext \<Rightarrow> fd \<Rightarrow> u64 \<Rightarrow> u64 \<Rightarrow> lock_kind \<Rightarrow> 'w \<Rightarrow> (errno + unit) \<times> 'w" where
  "range_lock E fd off len kind w =
     (let start = min (unat off) (2 ^ 63 - 1);
          l_len = min (unat len) (2 ^ 63 - 1 - start)
      in if l_len = 0 then (Inr (), w) else os_setlk E fd kind start l_len w)"

definition fs_sizes :: "'w ext \<Rightarrow> fd \<Rightarrow> 'w \<Rightarrow> errno + u64 \<times> u64 \<times> u64 \<times> u32 \<times> u32" where
  "fs_sizes E fd w =
     (case os_fstatvfs E fd w of
        Inl e \<Rightarrow> Inl e
      | Inr s \<Rightarrow>
          (let frsize = (if f_frsize s > 0 then f_frsize s else 512);
               spu = ucast (max (frsize div 512) 1)
           in Inr (f_blocks s, f_bavail s, f_bfree s, spu, 512)))"

section \<open>Directories and open files\<close>

record dir_ent =
  de_name :: rstr
  de_meta :: meta

record dir_state =
  ds_entries :: "dir_ent list"
  ds_pos :: nat
  ds_pattern :: rstr

record open_file =
  of_fd :: fd
  of_path :: path
  of_rel :: rstr
  of_leaf :: rstr
  of_share_idx :: u32
  of_tree_id :: u32
  of_is_dir :: bool
  of_writable :: bool
  of_delete_on_close :: bool
  of_dir :: "dir_state option"
  of_oplock_ino :: "u64 option"
  of_lease_key :: "bytes option"
  of_lease_granted :: u32

definition snapshot_entry :: "rstr option \<times> rawstat option \<Rightarrow> dir_ent option" where
  "snapshot_entry ent =
     (case ent of
        (Some name, Some md) \<Rightarrow>
          (let m = meta_from_std md
           in Some \<lparr>de_name = name, de_meta = m\<lparr>m_attrs := finalize_attrs (m_attrs m) name\<rparr>\<rparr>)
      | _ \<Rightarrow> None)"

definition dir_snapshot :: "'w ext \<Rightarrow> open_file \<Rightarrow> rstr \<Rightarrow> 'w \<Rightarrow> errno + dir_ent list" where
  "dir_snapshot E f pattern w =
     (case fstat_meta E (of_fd f) w of
        Inl e \<Rightarrow> Inl e
      | Inr self_meta \<Rightarrow>
          (case (if 0 \<in> set (of_path f) then Inl EIO else os_readdir E (of_path f) w) of
             Inl e \<Rightarrow> Inl e
           | Inr rd \<Rightarrow>
               (let out = [\<lparr>de_name = str ''.'', de_meta = self_meta\<rparr>,
                           \<lparr>de_name = str ''..'', de_meta = self_meta\<rparr>]
                          @ List.map_filter snapshot_entry rd
                in Inr (if pattern = [] \<or> pattern = str ''*'' then out
                        else filter (\<lambda>e. uc_lower E (de_name e) = uc_lower E pattern) out))))"

section \<open>Path resolution stays below the share root\<close>

definition safe_comp :: "rstr \<Rightarrow> bool" where
  "safe_comp c \<longleftrightarrow> c \<noteq> [] \<and> c \<noteq> str ''.'' \<and> c \<noteq> str ''..'' \<and>
     0 \<notin> set c \<and> SLASH \<notin> set c \<and> BACKSLASH \<notin> set c"

definition join_with :: "nat \<Rightarrow> rstr list \<Rightarrow> rstr" where
  "join_with s cs = concat (map (\<lambda>c. s # c) cs)"

text \<open>The path \<open>root/c1/\<dots>/cn\<close>, where \<open>root\<close> may already end in a slash.\<close>

definition under_root :: "path \<Rightarrow> rstr list \<Rightarrow> path" where
  "under_root root cs =
     (case cs of
        [] \<Rightarrow> root
      | c # cs' \<Rightarrow> (if root = [] \<or> last root = SLASH then root @ c else root @ [SLASH] @ c)
                   @ join_with SLASH cs')"

lemma split_on_no_sep:
  assumes "c \<in> set (split_on (\<lambda>c. c = BACKSLASH \<or> c = SLASH) s)"
  shows "BACKSLASH \<notin> set c" and "SLASH \<notin> set c"
  using split_on_free [OF assms] by blast+

lemma resolve_loop_filter:
  "resolve_loop p rel (filter (\<lambda>c. c \<noteq> [] \<and> c \<noteq> str ''.'') cs) = resolve_loop p rel cs"
  by (induction p rel cs rule: resolve_loop.induct) auto

lemma join_with_Nil [simp]: "join_with s [] = []"
  by (simp add: join_with_def)

lemma join_with_Cons [simp]: "join_with s (c # cs) = s # c @ join_with s cs"
  by (simp add: join_with_def)

lemma safe_comp_last: "safe_comp c \<Longrightarrow> c \<noteq> [] \<and> last c \<noteq> SLASH"
  unfolding safe_comp_def by (metis last_in_set)

lemma safe_comp_take: "safe_comp c \<Longrightarrow> take 1 c \<noteq> [SLASH]"
  by (cases c) (auto simp: safe_comp_def)

lemma resolve_loop_safe:
  assumes "\<forall>c \<in> set cs. c \<noteq> [] \<and> c \<noteq> str ''.'' \<and> SLASH \<notin> set c \<and> BACKSLASH \<notin> set c"
    and "p \<noteq> []" and "last p \<noteq> SLASH" and "rel \<noteq> []"
  shows "resolve_loop p rel cs = Inr (q, rel') \<Longrightarrow>
    list_all safe_comp cs \<and> q = p @ join_with SLASH cs \<and> rel' = rel @ join_with BACKSLASH cs"
  using assms
proof (induction cs arbitrary: p rel)
  case Nil
  then show ?case by simp
next
  case (Cons c cs)
  from Cons.prems have c: "c \<noteq> [] \<and> c \<noteq> str ''.'' \<and> SLASH \<notin> set c \<and> BACKSLASH \<notin> set c"
    by simp
  with Cons.prems have s: "safe_comp c"
    by (auto simp: safe_comp_def split: if_splits)
  have "resolve_loop (path_push p c) (rel @ [BACKSLASH] @ c) cs = Inr (q, rel')"
    using Cons.prems s by (auto simp: safe_comp_def)
  moreover have "path_push p c = p @ [SLASH] @ c"
    using Cons.prems safe_comp_take [OF s] by (simp add: path_push_def)
  ultimately show ?case
    using Cons.IH [of "p @ [SLASH] @ c" "rel @ [BACKSLASH] @ c"] Cons.prems s
    by (auto simp: safe_comp_last)
qed

lemma resolve_Inr:
  assumes "resolve root name = Inr (p, rel)"
  shows "\<exists>cs. list_all safe_comp cs \<and>
    cs = filter (\<lambda>c. c \<noteq> [] \<and> c \<noteq> str ''.'') (split_on (\<lambda>c. c = BACKSLASH \<or> c = SLASH) name) \<and>
    p = under_root root cs \<and> rel = drop 1 (join_with BACKSLASH cs)"
proof -
  define cs where "cs = filter (\<lambda>c. c \<noteq> [] \<and> c \<noteq> str ''.'')
      (split_on (\<lambda>c. c = BACKSLASH \<or> c = SLASH) name)"
  have r: "resolve_loop root [] cs = Inr (p, rel)"
    using assms unfolding resolve_def cs_def by (simp only: resolve_loop_filter)
  have free: "\<forall>c \<in> set cs. c \<noteq> [] \<and> c \<noteq> str ''.'' \<and> SLASH \<notin> set c \<and> BACKSLASH \<notin> set c"
    unfolding cs_def by (auto dest: split_on_no_sep)
  show ?thesis
  proof (cases cs)
    case Nil
    with r have "list_all safe_comp cs \<and> p = under_root root cs \<and> rel = drop 1 (join_with BACKSLASH cs)"
      by (simp add: under_root_def)
    then show ?thesis using cs_def by blast
  next
    case (Cons c cs')
    have c: "c \<noteq> [] \<and> c \<noteq> str ''.'' \<and> SLASH \<notin> set c \<and> BACKSLASH \<notin> set c"
      using free Cons by simp
    have r': "resolve_loop root [] (c # cs') = Inr (p, rel)"
      using r Cons by simp
    then have s: "safe_comp c"
      using c by (auto simp: safe_comp_def split: if_splits)
    define q where "q = path_push root c"
    have q: "q = (if root = [] \<or> last root = SLASH then root @ c else root @ [SLASH] @ c)"
      using safe_comp_take [OF s] by (simp add: q_def path_push_def)
    have "q \<noteq> []" "last q \<noteq> SLASH" "c \<noteq> []"
      using safe_comp_last [OF s] by (auto simp: q)
    moreover have "resolve_loop q c cs' = Inr (p, rel)"
      using r' s by (auto simp: safe_comp_def q_def)
    ultimately have "list_all safe_comp cs' \<and> p = q @ join_with SLASH cs'
        \<and> rel = c @ join_with BACKSLASH cs'"
      using free Cons by (intro resolve_loop_safe) auto
    then have "list_all safe_comp cs \<and> p = under_root root cs \<and> rel = drop 1 (join_with BACKSLASH cs)"
      using s by (simp add: under_root_def q Cons)
    then show ?thesis using cs_def by blast
  qed
qed

lemma resolve_loop_dotdot: "str ''..'' \<in> set cs \<Longrightarrow> resolve_loop p rel cs = Inl OBJECT_NAME_INVALID"
  by (induction p rel cs rule: resolve_loop.induct) (auto simp: str_def)

lemma resolve_loop_bad:
  "resolve_loop p rel cs = Inl e \<Longrightarrow> \<exists>c \<in> set cs. c = str ''..'' \<or> 0 \<in> set c"
  by (induction p rel cs rule: resolve_loop.induct) (auto split: if_splits)

lemma resolve_loop_error: "resolve_loop p rel cs = Inl e \<Longrightarrow> e = OBJECT_NAME_INVALID"
  by (induction p rel cs rule: resolve_loop.induct) (auto split: if_splits)

section \<open>Times\<close>

lemma unat_filetime:
  assumes "- EPOCH_DELTA_SECS \<le> s" and "s < 922337203685 - EPOCH_DELTA_SECS"
    and "0 \<le> n" and "n < 1000000000"
  shows "unat (filetime s n) = nat ((s + EPOCH_DELTA_SECS) * 10000000 + n div 100)"
proof -
  define a where "a = nat (s + EPOCH_DELTA_SECS)"
  define b where "b = nat n"
  have ab: "s + EPOCH_DELTA_SECS = int a" "n = int b"
    using assms by (simp_all add: a_def b_def)
  have bd: "a < 922337203685" "b < 1000000000" using assms ab by linarith+
  have "a * 10000000 + b div 100 < 2 ^ 64" "a < 2 ^ 64" "b < 2 ^ 64" "a * 10000000 < 2 ^ 64"
    using bd by simp_all
  then have "unat (word_of_nat a * 10000000 + word_of_nat b div 100 :: u64) = a * 10000000 + b div 100"
    by (simp add: unat_word_ariths unat_div_distrib unat_of_nat)
  moreover have "nat (int a * 10000000 + int b div 100) = a * 10000000 + b div 100"
    by (simp add: nat_add_distrib nat_mult_distrib nat_div_distrib)
  ultimately show ?thesis
    using assms by (simp add: filetime_def ab)
qed

section \<open>Writing a whole buffer\<close>

text \<open>What \<open>pwrite(2)\<close> documents for a regular file, on the world's view \<open>content\<close> of the bytes
  behind \<open>fd\<close>: it transfers between one byte and the whole buffer to the given offset and
  leaves the rest of the file alone, or fails. (Interruption is a separate case: the loop
  retries it.)\<close>

definition pwrite_ok :: "'w ext \<Rightarrow> fd \<Rightarrow> ('w \<Rightarrow> nat \<Rightarrow> u8) \<Rightarrow> bool" where
  "pwrite_ok E fd content \<longleftrightarrow>
     (\<forall>buf off w. buf \<noteq> [] \<longrightarrow>
        (case os_pwrite E fd buf off w of
           (Inl e, w') \<Rightarrow> e \<noteq> EINTR
         | (Inr n, w') \<Rightarrow> 0 < n \<and> n \<le> length buf \<and>
             (\<forall>i. content w' i =
                (if unat off \<le> i \<and> i < unat off + n then buf ! (i - unat off) else content w i))))"

lemma unat_add_of_nat:
  assumes "unat (off :: u64) + n < 2 ^ 64"
  shows "unat (off + word_of_nat n) = unat off + n"
  using assms by (simp add: unat_word_ariths unat_of_nat)

lemma pwrite_all_overlay:
  assumes "pwrite_ok E fd content" and "unat off + length buf < 2 ^ 64"
  shows "\<exists>r w'. pwrite_all E fd buf off w = Some (r, w') \<and>
    (r = Inr () \<longrightarrow> (\<forall>i. content w' i =
       (if unat off \<le> i \<and> i < unat off + length buf then buf ! (i - unat off) else content w i)))"
  using assms(2)
proof (induction "length buf" arbitrary: buf off w rule: less_induct)
  case less
  show ?case
  proof (cases "buf = []")
    case True
    then show ?thesis by (subst pwrite_all.simps) auto
  next
    case False
    obtain r w1 where o: "os_pwrite E fd buf off w = (r, w1)" by (cases "os_pwrite E fd buf off w") auto
    note ok = assms(1) [unfolded pwrite_ok_def, rule_format, OF False, of off w, unfolded o]
    show ?thesis
    proof (cases r)
      case (Inl e)
      with ok have "e \<noteq> EINTR" by simp
      with o Inl False show ?thesis by (subst pwrite_all.simps) simp
    next
      case (Inr n)
      with ok have n: "0 < n" "n \<le> length buf"
        and c: "\<And>i. content w1 i =
          (if unat off \<le> i \<and> i < unat off + n then buf ! (i - unat off) else content w i)"
        by simp_all
      have u: "unat (off + word_of_nat n) = unat off + n"
        using less.prems n by (intro unat_add_of_nat) simp
      have "length (drop n buf) < length buf" "unat (off + word_of_nat n) + length (drop n buf) < 2 ^ 64"
        using n False less.prems u by auto
      from less.hyps [OF this, of w1] obtain r' w' where
        r': "pwrite_all E fd (drop n buf) (off + word_of_nat n) w1 = Some (r', w')"
          "r' = Inr () \<longrightarrow> (\<forall>i. content w' i =
             (if unat off + n \<le> i \<and> i < unat off + n + length (drop n buf)
              then drop n buf ! (i - (unat off + n)) else content w1 i))"
        unfolding u by blast
      have "pwrite_all E fd buf off w = Some (r', w')"
        using o Inr n False r'(1) by (subst pwrite_all.simps) simp
      moreover have "r' = Inr () \<longrightarrow> (\<forall>i. content w' i =
          (if unat off \<le> i \<and> i < unat off + length buf then buf ! (i - unat off) else content w i))"
        using r'(2) n by (auto simp: c)
      ultimately show ?thesis by blast
    qed
  qed
qed

section \<open>Properties\<close>



text \<open>A host whose writes transfer one byte at a time.\<close>

definition short_write_ext :: "(nat \<Rightarrow> u8) ext" where
  "short_write_ext = demo_ext\<lparr>os_pwrite := (\<lambda>fd bs off w. (Inr 1, w(unat off := hd bs)))\<rparr>"

lemma pwrite_ok_short: "pwrite_ok short_write_ext fd (\<lambda>w. w)"
  by (auto simp: pwrite_ok_def short_write_ext_def hd_conv_nth Suc_le_eq)


end
