(* ===== verification/Handles.thy ===== *)
theory Handles
  imports Vfs
begin

text \<open>
  The slab of open files, \<open>HandleTable\<close> of \<open>src/src/vfs.rs\<close>: its operations, the invariant
  they keep, and the contract the request handlers rely on (locale \<open>handle_store\<close>): a finite
  map from file ids to open files in which a file is visible only on its own tree.
\<close>

named_theorems handle

section \<open>The table\<close>

record handle_table =
  ht_slots :: "open_file option list"
  ht_gens :: "u32 list"
  ht_free :: "nat list"

definition ht_default :: handle_table where
  "ht_default = \<lparr>ht_slots = [], ht_gens = [], ht_free = []\<rparr>"

definition ht_id :: "u32 \<Rightarrow> nat \<Rightarrow> u64" where
  "ht_id g i = push_bit 32 (ucast g) OR word_of_nat i"

text \<open>\<open>Vec::pop\<close> takes from the end. A free index outside the slots is a panic (\<open>None\<close>).\<close>

definition ht_insert :: "open_file \<Rightarrow> handle_table \<Rightarrow> (u64 \<times> handle_table) option" where
  "ht_insert f t =
     (if ht_free t = [] then
        (let t = t\<lparr>ht_slots := ht_slots t @ [Some f], ht_gens := ht_gens t @ [1]\<rparr>;
             i = length (ht_slots t) - 1
         in do { g \<leftarrow> idx (ht_gens t) i; Some (ht_id g i, t) })
      else
        (let i = last (ht_free t)
         in do {
              _ \<leftarrow> idx (ht_slots t) i;
              g \<leftarrow> idx (ht_gens t) i;
              Some (ht_id g i, t\<lparr>ht_slots := (ht_slots t)[i := Some f],
                                 ht_free := butlast (ht_free t)\<rparr>) }))"

text \<open>The generations have the length of the slots (\<open>ht_ok\<close>), so indexing them does not
  panic where the slot index is in range.\<close>

definition ht_slot :: "handle_table \<Rightarrow> u64 \<Rightarrow> nat option" where
  "ht_slot t fid =
     (let i = unat (fid AND 0xFFFFFFFF); g = ucast (drop_bit 32 fid) :: u32
      in if i < length (ht_slots t) \<and> idx (ht_gens t) i = Some g \<and> ht_slots t ! i \<noteq> None
         then Some i else None)"

definition ht_lookup :: "handle_table \<Rightarrow> u64 \<Rightarrow> open_file option" where
  "ht_lookup t fid = (case ht_slot t fid of None \<Rightarrow> None | Some i \<Rightarrow> ht_slots t ! i)"

definition ht_get :: "handle_table \<Rightarrow> u64 \<Rightarrow> u32 \<Rightarrow> open_file option" where
  "ht_get t fid tree_id =
     (case ht_lookup t fid of
        None \<Rightarrow> None
      | Some f \<Rightarrow> if of_tree_id f = tree_id then Some f else None)"

text \<open>The write-back of the \<open>&mut OpenFile\<close> that \<open>get\<close> hands out.\<close>

definition ht_set :: "u64 \<Rightarrow> open_file \<Rightarrow> handle_table \<Rightarrow> handle_table" where
  "ht_set fid f t =
     (case ht_slot t fid of
        None \<Rightarrow> t
      | Some i \<Rightarrow> t\<lparr>ht_slots := (ht_slots t)[i := Some f]\<rparr>)"

definition next_gen :: "u32 \<Rightarrow> u32" where
  "next_gen g = max (g + 1) 1"

definition ht_take :: "nat \<Rightarrow> handle_table \<Rightarrow> handle_table" where
  "ht_take i t = t\<lparr>ht_slots := (ht_slots t)[i := None],
                   ht_gens := (ht_gens t)[i := next_gen (ht_gens t ! i)],
                   ht_free := ht_free t @ [i]\<rparr>"

definition ht_remove :: "u64 \<Rightarrow> u32 \<Rightarrow> handle_table \<Rightarrow> open_file option \<times> handle_table" where
  "ht_remove fid tree_id t =
     (case ht_slot t fid of
        None \<Rightarrow> (None, t)
      | Some i \<Rightarrow>
          (case ht_slots t ! i of
             Some f \<Rightarrow> if of_tree_id f \<noteq> tree_id then (None, t) else (Some f, ht_take i t)
           | None \<Rightarrow> (None, ht_take i t)))"

definition ht_len :: "handle_table \<Rightarrow> nat" where
  "ht_len t = length (ht_slots t) - length (ht_free t)"

definition ids_in_tree :: "handle_table \<Rightarrow> u32 \<Rightarrow> u64 list" where
  "ids_in_tree t tree_id =
     map (\<lambda>i. ht_id (ht_gens t ! i) i)
       (filter (\<lambda>i. case ht_slots t ! i of None \<Rightarrow> False | Some f \<Rightarrow> of_tree_id f = tree_id)
          [0..<length (ht_slots t)])"

fun take_loop :: "nat list \<Rightarrow> handle_table \<Rightarrow> open_file list \<times> handle_table" where
  "take_loop [] t = ([], t)"
| "take_loop (i # is) t =
     (case ht_slots t ! i of
        None \<Rightarrow> take_loop is t
      | Some f \<Rightarrow> (case take_loop is (ht_take i t) of (v, t) \<Rightarrow> (f # v, t)))"

definition take_all :: "handle_table \<Rightarrow> open_file list \<times> handle_table" where
  "take_all t = take_loop [0..<length (ht_slots t)] t"

section \<open>File ids\<close>

lemma low_word_bit:
  assumes "unat w < 2 ^ 32"
  shows "\<not> bit (w :: u64) (n + 32)"
proof
  assume "bit w (n + 32)"
  then have "bit (unat w) (n + 32)" by (simp add: bit_unsigned_iff)
  moreover have "take_bit 32 (unat w) = unat w"
    using assms by (simp add: take_bit_nat_eq_self)
  ultimately show False
    by (metis bit_take_bit_iff not_add_less2)
qed

lemma ht_id_gen:
  assumes "i < 2 ^ 32"
  shows "(ucast (drop_bit 32 (ht_id g i)) :: u32) = g"
proof (rule bit_word_eqI)
  fix n assume n: "n < LENGTH(32)"
  have "unat (word_of_nat i :: u64) < 2 ^ 32"
    using assms by (simp add: unat_of_nat)
  then have "\<not> bit (word_of_nat i :: u64) (n + 32)" by (rule low_word_bit)
  with n show "bit (ucast (drop_bit 32 (ht_id g i)) :: u32) n = bit g n"
    by (simp add: ht_id_def bit_simps add.commute)
qed

lemma ht_id_index:
  assumes "i < 2 ^ 32"
  shows "unat (ht_id g i AND 0xFFFFFFFF) = i"
proof -
  have i: "unat (word_of_nat i :: u64) = i"
    using assms by (simp add: unat_of_nat)
  have m: "(0xFFFFFFFF :: u64) = mask 32" by (simp add: mask_eq_exp_minus_1)
  have "take_bit 32 (push_bit 32 (ucast g) :: u64) = 0"
    by (rule bit_word_eqI) (simp add: bit_simps)
  then have "ht_id g i AND 0xFFFFFFFF = take_bit 32 (word_of_nat i :: u64)"
    unfolding ht_id_def m take_bit_eq_mask [symmetric] by simp
  also have "\<dots> = word_of_nat i"
  proof (rule bit_word_eqI)
    fix n assume "n < LENGTH(64)"
    show "bit (take_bit 32 (word_of_nat i :: u64)) n = bit (word_of_nat i :: u64) n"
    proof (cases "n < 32")
      case True
      then show ?thesis by (simp add: bit_take_bit_iff)
    next
      case False
      then obtain k where "n = k + 32" by (metis add.commute le_Suc_ex not_less)
      moreover have "\<not> bit (word_of_nat i :: u64) (k + 32)"
        using i assms by (intro low_word_bit) simp
      ultimately show ?thesis by (simp add: bit_take_bit_iff)
    qed
  qed
  finally show ?thesis using i by simp
qed

lemma ht_id_inj:
  "i < 2 ^ 32 \<Longrightarrow> j < 2 ^ 32 \<Longrightarrow> ht_id g i = ht_id h j \<longleftrightarrow> g = h \<and> i = j"
  by (metis ht_id_gen ht_id_index)

lemma ht_id_split: "ht_id (ucast (drop_bit 32 fid)) (unat (fid AND 0xFFFFFFFF)) = fid"
proof -
  have m: "(0xFFFFFFFF :: u64) = mask 32" by (simp add: mask_eq_exp_minus_1)
  have "word_of_nat (unat (fid AND 0xFFFFFFFF)) = take_bit 32 fid"
    by (simp add: m take_bit_eq_mask)
  then show ?thesis
    by (intro bit_word_eqI) (auto simp: ht_id_def bit_simps)
qed

section \<open>The invariant and lookups\<close>

definition ht_ok :: "handle_table \<Rightarrow> bool" where
  "ht_ok t \<longleftrightarrow>
     length (ht_gens t) = length (ht_slots t) \<and> length (ht_slots t) \<le> 2 ^ 32 \<and>
     distinct (ht_free t) \<and>
     set (ht_free t) = {i. i < length (ht_slots t) \<and> ht_slots t ! i = None} \<and>
     0 \<notin> set (ht_gens t)"

lemma ht_okD:
  assumes "ht_ok t"
  shows "length (ht_gens t) = length (ht_slots t)" and "length (ht_slots t) \<le> 2 ^ 32"
    and "distinct (ht_free t)"
    and "set (ht_free t) = {i. i < length (ht_slots t) \<and> ht_slots t ! i = None}"
    and "0 \<notin> set (ht_gens t)"
  using assms by (auto simp: ht_ok_def)

lemma option_eqI: "(\<And>x. a = Some x \<longleftrightarrow> b = Some x) \<Longrightarrow> a = b"
  by (cases a; cases b) auto

lemma ht_slot_iff:
  assumes "ht_ok t"
  shows "ht_slot t fid = Some i \<longleftrightarrow>
    i < length (ht_slots t) \<and> fid = ht_id (ht_gens t ! i) i \<and> ht_slots t ! i \<noteq> None"
proof
  assume "ht_slot t fid = Some i"
  then have i: "i = unat (fid AND 0xFFFFFFFF)" "i < length (ht_slots t)"
    "idx (ht_gens t) i = Some (ucast (drop_bit 32 fid))" "ht_slots t ! i \<noteq> None"
    by (auto simp: ht_slot_def Let_def split: if_splits)
  then have "ht_gens t ! i = ucast (drop_bit 32 fid)" by (simp add: idx_Some_iff)
  with i show "i < length (ht_slots t) \<and> fid = ht_id (ht_gens t ! i) i \<and> ht_slots t ! i \<noteq> None"
    using ht_id_split [of fid] by simp
next
  assume i: "i < length (ht_slots t) \<and> fid = ht_id (ht_gens t ! i) i \<and> ht_slots t ! i \<noteq> None"
  then have "i < 2 ^ 32" using ht_okD(2) [OF assms] by simp
  with i have "unat (fid AND 0xFFFFFFFF) = i" "ucast (drop_bit 32 fid) = ht_gens t ! i"
    using ht_id_index ht_id_gen by blast+
  with i show "ht_slot t fid = Some i"
    using ht_okD(1) [OF assms] by (simp add: ht_slot_def Let_def idx_Some_iff)
qed

lemma ht_lookup_iff:
  assumes "ht_ok t"
  shows "ht_lookup t fid = Some f \<longleftrightarrow>
    (\<exists>i < length (ht_slots t). fid = ht_id (ht_gens t ! i) i \<and> ht_slots t ! i = Some f)"
proof
  assume "ht_lookup t fid = Some f"
  then obtain i where "ht_slot t fid = Some i" "ht_slots t ! i = Some f"
    by (auto simp: ht_lookup_def split: option.splits)
  then show "\<exists>i < length (ht_slots t). fid = ht_id (ht_gens t ! i) i \<and> ht_slots t ! i = Some f"
    using ht_slot_iff [OF assms] by blast
next
  assume "\<exists>i < length (ht_slots t). fid = ht_id (ht_gens t ! i) i \<and> ht_slots t ! i = Some f"
  then obtain i where i: "i < length (ht_slots t)" "fid = ht_id (ht_gens t ! i) i"
    "ht_slots t ! i = Some f" by blast
  then have "ht_slot t fid = Some i" by (simp add: ht_slot_iff [OF assms])
  with i show "ht_lookup t fid = Some f" by (simp add: ht_lookup_def)
qed

lemma ht_lookup_id:
  assumes "ht_ok t" and "i < length (ht_slots t)"
  shows "ht_lookup t (ht_id (ht_gens t ! i) i) = ht_slots t ! i"
proof (rule option_eqI)
  fix f
  have "i < 2 ^ 32" and b: "\<And>j. j < length (ht_slots t) \<Longrightarrow> j < 2 ^ 32"
    using assms ht_okD(2) by fastforce+
  then show "ht_lookup t (ht_id (ht_gens t ! i) i) = Some f \<longleftrightarrow> ht_slots t ! i = Some f"
    unfolding ht_lookup_iff [OF assms(1)] using assms(2) ht_id_inj by metis
qed

lemma ht_lookup_eqI:
  assumes "ht_ok t'"
    and "\<And>fid f. (\<exists>i < length (ht_slots t'). fid = ht_id (ht_gens t' ! i) i \<and> ht_slots t' ! i = Some f)
      \<longleftrightarrow> m fid = Some f"
  shows "ht_lookup t' = m"
proof (rule ext, rule option_eqI)
  fix fid f
  show "ht_lookup t' fid = Some f \<longleftrightarrow> m fid = Some f"
    using assms(2) by (simp add: ht_lookup_iff [OF assms(1)])
qed

lemma ht_ok_default [simp]: "ht_ok ht_default"
  by (simp add: ht_ok_def ht_default_def)

lemma ht_lookup_default [simp]: "ht_lookup ht_default fid = None"
  by (simp add: ht_lookup_def ht_slot_def ht_default_def)

lemma ht_len_live:
  assumes "ht_ok t"
  shows "ht_len t = length (filter (\<lambda>s. s \<noteq> None) (ht_slots t))"
proof -
  let ?n = "length (ht_slots t)"
  have "length (ht_free t) = card {i. i < ?n \<and> ht_slots t ! i = None}"
    using ht_okD(3,4) [OF assms] by (metis distinct_card)
  also have "\<dots> = length (filter (\<lambda>s. s = None) (ht_slots t))"
    by (simp add: length_filter_conv_card)
  finally show ?thesis
    using sum_length_filter_compl [of "\<lambda>s. s = None" "ht_slots t"] by (simp add: ht_len_def)
qed

section \<open>What the operations do to lookups\<close>

lemma ht_index_bound: "ht_ok t \<Longrightarrow> i < length (ht_slots t) \<Longrightarrow> i < 2 ^ 32"
  using ht_okD(2) by fastforce

text \<open>A table that differs from \<open>t\<close> in slot \<open>i\<close> only, where \<open>t\<close> had no file or the same generation.\<close>

lemma ht_lookup_upd:
  assumes ok: "ht_ok t" "ht_ok t'" and i: "i < length (ht_slots t')"
    and eq: "\<And>j. j \<noteq> i \<Longrightarrow> j < length (ht_slots t') \<longleftrightarrow> j < length (ht_slots t)"
      "\<And>j. j \<noteq> i \<Longrightarrow> j < length (ht_slots t) \<Longrightarrow>
         ht_gens t' ! j = ht_gens t ! j \<and> ht_slots t' ! j = ht_slots t ! j"
    and old: "i < length (ht_slots t) \<Longrightarrow>
         ht_slots t ! i = None \<or> ht_gens t ! i = ht_gens t' ! i \<or> ht_slots t' ! i = None \<and> fid = ht_id (ht_gens t ! i) i"
    and fid: "fid = ht_id (ht_gens t' ! i) i \<or>
         ht_slots t' ! i = None \<and> i < length (ht_slots t) \<and> fid = ht_id (ht_gens t ! i) i"
  shows "ht_lookup t' = (ht_lookup t)(fid := ht_slots t' ! i)"
proof (rule ht_lookup_eqI [OF ok(2)])
  fix x f
  have b: "i < 2 ^ 32" "\<And>j. j < length (ht_slots t) \<Longrightarrow> j < 2 ^ 32"
    using ok i ht_index_bound by blast+
  have inj: "\<And>g j h. j < length (ht_slots t) \<Longrightarrow> ht_id g j = ht_id h i \<longleftrightarrow> g = h \<and> j = i"
    using b ht_id_inj by blast
  show "(\<exists>j < length (ht_slots t'). x = ht_id (ht_gens t' ! j) j \<and> ht_slots t' ! j = Some f)
      \<longleftrightarrow> ((ht_lookup t)(fid := ht_slots t' ! i)) x = Some f" (is "?L = ?R")
  proof
    assume ?L
    then obtain j where j: "j < length (ht_slots t')" "x = ht_id (ht_gens t' ! j) j"
      "ht_slots t' ! j = Some f" by blast
    show ?R
    proof (cases "j = i")
      case True
      with j fid show ?thesis by auto
    next
      case False
      then have "j < length (ht_slots t)" "x = ht_id (ht_gens t ! j) j" "ht_slots t ! j = Some f"
        using j eq by auto
      moreover from this have "x \<noteq> fid" using inj [of j] False fid by auto
      ultimately show ?thesis using ht_lookup_iff [OF ok(1)] by auto
    qed
  next
    assume R: ?R
    show ?L
    proof (cases "x = fid")
      case True
      with R fid i show ?thesis by auto
    next
      case False
      with R obtain j where j: "j < length (ht_slots t)" "x = ht_id (ht_gens t ! j) j"
        "ht_slots t ! j = Some f" using ht_lookup_iff [OF ok(1), of x f] by auto
      have "j \<noteq> i"
        using j old fid False by auto
      with j eq show ?thesis by metis
    qed
  qed
qed

lemma ht_insert_ok:
  assumes "ht_ok t" and "ht_len t < 2 ^ 32"
  shows "\<exists>fid t'. ht_insert f t = Some (fid, t') \<and> ht_ok t' \<and> ht_lookup t fid = None \<and>
    ht_lookup t' = (ht_lookup t)(fid \<mapsto> f)"
proof (cases "ht_free t = []")
  case True
  let ?n = "length (ht_slots t)"
  let ?t = "t\<lparr>ht_slots := ht_slots t @ [Some f], ht_gens := ht_gens t @ [1]\<rparr>"
  have len: "?n < 2 ^ 32" using assms True by (simp add: ht_len_def)
  have g: "length (ht_gens t) = ?n" using ht_okD(1) [OF assms(1)] .
  have ok: "ht_ok ?t"
    using ht_okD [OF assms(1)] len True by (auto simp: ht_ok_def nth_append less_Suc_eq)
  have look: "ht_lookup ?t = (ht_lookup t)(ht_id 1 ?n := ht_slots ?t ! ?n)"
    by (rule ht_lookup_upd [OF assms(1) ok]) (auto simp: nth_append g)
  have "ht_lookup t (ht_id 1 ?n) = None"
  proof (rule ccontr)
    assume "ht_lookup t (ht_id 1 ?n) \<noteq> None"
    then obtain j where "j < ?n" "ht_id 1 ?n = ht_id (ht_gens t ! j) j"
      using ht_lookup_iff [OF assms(1)] by blast
    then show False using len ht_id_inj [of ?n j] by auto
  qed
  with True g ok look show ?thesis
    by (simp add: ht_insert_def Let_def idx_Some_iff nth_append)
next
  case False
  define i where "i = last (ht_free t)"
  let ?t = "t\<lparr>ht_slots := (ht_slots t)[i := Some f], ht_free := butlast (ht_free t)\<rparr>"
  have fr: "ht_free t = butlast (ht_free t) @ [i]" using False by (simp add: i_def)
  then have i: "i < length (ht_slots t)" "ht_slots t ! i = None"
    using ht_okD(4) [OF assms(1)] by (metis (mono_tags, lifting) in_set_conv_decomp mem_Collect_eq)+
  have g: "length (ht_gens t) = length (ht_slots t)" using ht_okD(1) [OF assms(1)] .
  have d: "distinct (butlast (ht_free t))" "set (butlast (ht_free t)) = set (ht_free t) - {i}"
    using ht_okD(3) [OF assms(1)] fr
    by (metis distinct_butlast, metis Diff_insert_absorb distinct_append distinct.simps(2)
      Un_insert_right append.right_neutral disjoint_insert(1) list.set(1) list.set(2) set_append sup_bot.right_neutral)
  have ok: "ht_ok ?t"
    using ht_okD [OF assms(1)] i d by (auto simp: ht_ok_def nth_list_update)
  have look: "ht_lookup ?t = (ht_lookup t)(ht_id (ht_gens t ! i) i := ht_slots ?t ! i)"
    by (rule ht_lookup_upd [OF assms(1) ok]) (use i in auto)
  have "ht_lookup t (ht_id (ht_gens t ! i) i) = None"
    using ht_lookup_id [OF assms(1) i(1)] i(2) by simp
  with False g ok look i show ?thesis
    by (simp add: ht_insert_def Let_def i_def [symmetric] idx_Some_iff)
qed

lemma next_gen_nonzero [simp]: "next_gen g \<noteq> 0" "0 \<noteq> next_gen g"
  by (auto simp: next_gen_def max_def word_le_def)

lemma ht_slots_take [simp]: "ht_slots (ht_take i t) = (ht_slots t)[i := None]"
  by (simp add: ht_take_def)

lemma ht_ok_take:
  assumes "ht_ok t" and "i < length (ht_slots t)" and "ht_slots t ! i \<noteq> None"
  shows "ht_ok (ht_take i t)"
proof -
  have "i \<notin> set (ht_free t)" using ht_okD(4) [OF assms(1)] assms(3) by auto
  moreover have "set ((ht_gens t)[i := next_gen (ht_gens t ! i)]) \<subseteq> insert (next_gen (ht_gens t ! i)) (set (ht_gens t))"
    by (rule set_update_subset_insert)
  ultimately show ?thesis
    using ht_okD [OF assms(1)] assms(2) by (auto simp: ht_ok_def ht_take_def nth_list_update)
qed

lemma ht_lookup_take:
  assumes "ht_ok t" and "i < length (ht_slots t)" and "ht_slots t ! i \<noteq> None"
  shows "ht_lookup (ht_take i t) = (ht_lookup t)(ht_id (ht_gens t ! i) i := None)"
proof -
  have "ht_lookup (ht_take i t) = (ht_lookup t)(ht_id (ht_gens t ! i) i := ht_slots (ht_take i t) ! i)"
    using ht_okD(1) [OF assms(1)] assms
    by (intro ht_lookup_upd [OF assms(1) ht_ok_take [OF assms]]) (auto simp: ht_take_def)
  with assms show ?thesis by simp
qed

lemma ht_remove_hit:
  assumes "ht_ok t" and "ht_lookup t fid = Some f" and "of_tree_id f = tr"
  shows "\<exists>t'. ht_remove fid tr t = (Some f, t') \<and> ht_ok t' \<and> ht_lookup t' = (ht_lookup t)(fid := None)"
proof -
  obtain i where i: "ht_slot t fid = Some i" "ht_slots t ! i = Some f"
    using assms(2) by (auto simp: ht_lookup_def split: option.splits)
  then have "i < length (ht_slots t)" "fid = ht_id (ht_gens t ! i) i"
    using ht_slot_iff [OF assms(1)] by blast+
  with i assms show ?thesis
    by (simp add: ht_remove_def ht_ok_take ht_lookup_take)
qed

lemma ht_remove_miss:
  assumes "ht_ok t" and "\<forall>f. ht_lookup t fid = Some f \<longrightarrow> of_tree_id f \<noteq> tr"
  shows "ht_remove fid tr t = (None, t)"
proof (cases "ht_slot t fid")
  case (Some i)
  then obtain f where "ht_slots t ! i = Some f"
    using ht_slot_iff [OF assms(1)] by auto
  with Some assms(2) show ?thesis by (simp add: ht_remove_def ht_lookup_def)
qed (simp add: ht_remove_def)

lemma ht_set_ok:
  assumes "ht_ok t" and "ht_lookup t fid \<noteq> None"
  shows "ht_ok (ht_set fid f t) \<and> ht_lookup (ht_set fid f t) = (ht_lookup t)(fid \<mapsto> f)"
proof -
  obtain i where i: "ht_slot t fid = Some i"
    using assms(2) by (auto simp: ht_lookup_def split: option.splits)
  then have l: "i < length (ht_slots t)" "fid = ht_id (ht_gens t ! i) i" "ht_slots t ! i \<noteq> None"
    using ht_slot_iff [OF assms(1)] by blast+
  let ?t = "t\<lparr>ht_slots := (ht_slots t)[i := Some f]\<rparr>"
  have "{j. j < length (ht_slots t) \<and> (ht_slots t)[i := Some f] ! j = None} =
      {j. j < length (ht_slots t) \<and> ht_slots t ! j = None}"
    using l(1,3) by (auto simp: nth_list_update split: if_splits)
  then have ok: "ht_ok ?t"
    using assms(1) by (simp add: ht_ok_def)
  have "ht_lookup ?t = (ht_lookup t)(fid := ht_slots ?t ! i)"
    using l by (intro ht_lookup_upd [OF assms(1) ok]) auto
  with i l ok show ?thesis by (simp add: ht_set_def)
qed

lemma set_ids_in_tree:
  assumes "ht_ok t"
  shows "set (ids_in_tree t tr) = {fid. \<exists>f. ht_lookup t fid = Some f \<and> of_tree_id f = tr}"
  by (auto simp: ids_in_tree_def ht_lookup_iff [OF assms] split: option.splits)

lemma distinct_ids_in_tree:
  assumes "ht_ok t"
  shows "distinct (ids_in_tree t tr)"
proof -
  have "inj_on (\<lambda>i. ht_id (ht_gens t ! i) i) {..<length (ht_slots t)}"
    using ht_index_bound [OF assms] by (auto intro!: inj_onI simp: ht_id_inj)
  then have "inj_on (\<lambda>i. ht_id (ht_gens t ! i) i)
      (set (filter P [0..<length (ht_slots t)]))" for P
    by (rule inj_on_subset) auto
  then show ?thesis by (simp add: ids_in_tree_def distinct_map)
qed

lemma take_loop_ok:
  assumes "ht_ok t" and "\<forall>i \<in> set is. i < length (ht_slots t)" and "take_loop is t = (v, t')"
  shows "ht_ok t' \<and> length (ht_slots t') = length (ht_slots t) \<and>
    (\<forall>i < length (ht_slots t). ht_slots t' ! i = (if i \<in> set is then None else ht_slots t ! i))"
  using assms
proof (induction "is" t arbitrary: v t' rule: take_loop.induct)
  case (2 i "is" t)
  show ?case
  proof (cases "ht_slots t ! i")
    case None
    with 2 show ?thesis by auto
  next
    case (Some f)
    obtain w where w: "take_loop is (ht_take i t) = (w, t')"
      using 2(5) Some by (auto split: prod.splits)
    have "ht_ok (ht_take i t)" using 2(3,4) Some by (simp add: ht_ok_take)
    from 2(2) [OF Some this _ w] 2(4) show ?thesis
      by (auto simp: nth_list_update)
  qed
qed simp

lemma take_all_empty:
  assumes "ht_ok t" and "take_all t = (v, t')"
  shows "ht_ok t'" and "ht_lookup t' fid = None" and "ht_len t' = 0"
proof -
  have l: "ht_ok t' \<and> length (ht_slots t') = length (ht_slots t) \<and>
      (\<forall>i < length (ht_slots t). ht_slots t' ! i = None)"
    using take_loop_ok [OF assms(1) _ assms(2) [unfolded take_all_def]] by simp
  then show "ht_ok t'" by simp
  with l show "ht_lookup t' fid = None"
    by (cases "ht_lookup t' fid") (auto simp: ht_lookup_iff)
  have "filter (\<lambda>s. s \<noteq> None) (ht_slots t') = []"
    using l by (auto simp: filter_empty_conv in_set_conv_nth)
  then show "ht_len t' = 0" using l by (simp add: ht_len_live)
qed

section \<open>The contract of the handle table\<close>

locale handle_store =
  fixes lookup :: "'t \<Rightarrow> u64 \<Rightarrow> 'f option"
    and ins :: "'f \<Rightarrow> 't \<Rightarrow> (u64 \<times> 't) option"
    and rem :: "u64 \<Rightarrow> u32 \<Rightarrow> 't \<Rightarrow> 'f option \<times> 't"
    and upd :: "u64 \<Rightarrow> 'f \<Rightarrow> 't \<Rightarrow> 't"
    and ids :: "'t \<Rightarrow> u32 \<Rightarrow> u64 list"
    and tree :: "'f \<Rightarrow> u32"
    and invar :: "'t \<Rightarrow> bool"
    and room :: "'t \<Rightarrow> bool"
  assumes ins_ok: "invar t \<Longrightarrow> room t \<Longrightarrow> \<exists>fid t'. ins f t = Some (fid, t') \<and> invar t' \<and>
      lookup t fid = None \<and> lookup t' = (lookup t)(fid \<mapsto> f)"
    and rem_hit: "invar t \<Longrightarrow> lookup t fid = Some f \<Longrightarrow> tree f = tr \<Longrightarrow>
      \<exists>t'. rem fid tr t = (Some f, t') \<and> invar t' \<and> lookup t' = (lookup t)(fid := None)"
    and rem_miss: "invar t \<Longrightarrow> \<forall>f. lookup t fid = Some f \<longrightarrow> tree f \<noteq> tr \<Longrightarrow> rem fid tr t = (None, t)"
    and upd_ok: "invar t \<Longrightarrow> lookup t fid \<noteq> None \<Longrightarrow>
      invar (upd fid f t) \<and> lookup (upd fid f t) = (lookup t)(fid \<mapsto> f)"
    and ids_set: "invar t \<Longrightarrow> set (ids t tr) = {fid. \<exists>f. lookup t fid = Some f \<and> tree f = tr}"
begin

definition get :: "'t \<Rightarrow> u64 \<Rightarrow> u32 \<Rightarrow> 'f option" where
  "get t fid tr = (case lookup t fid of None \<Rightarrow> None | Some f \<Rightarrow> if tree f = tr then Some f else None)"

lemma get_Some_iff: "get t fid tr = Some f \<longleftrightarrow> lookup t fid = Some f \<and> tree f = tr"
  by (auto simp: get_def split: option.splits)

lemma rem_fst: "invar t \<Longrightarrow> fst (rem fid tr t) = get t fid tr"
proof (cases "get t fid tr")
  case None
  assume "invar t"
  moreover have "\<forall>f. lookup t fid = Some f \<longrightarrow> tree f \<noteq> tr"
    using None by (auto simp: get_def split: option.splits)
  ultimately show ?thesis using None rem_miss by simp
next
  case (Some f)
  assume "invar t"
  with Some rem_hit [of t fid f tr] show ?thesis by (auto simp: get_def split: option.splits if_splits)
qed

lemma rem_invar: "invar t \<Longrightarrow> invar (snd (rem fid tr t))"
proof (cases "get t fid tr")
  case None
  assume t: "invar t"
  have "\<forall>f. lookup t fid = Some f \<longrightarrow> tree f \<noteq> tr"
    using None by (auto simp: get_def split: option.splits)
  with t rem_miss show ?thesis by simp
next
  case (Some f)
  assume "invar t"
  with Some rem_hit [of t fid f tr] show ?thesis by (auto simp: get_Some_iff)
qed

lemma rem_lookup:
  assumes "invar t"
  shows "lookup (snd (rem fid tr t)) x = (if x = fid \<and> get t fid tr \<noteq> None then None else lookup t x)"
proof (cases "get t fid tr")
  case None
  then have "\<forall>f. lookup t fid = Some f \<longrightarrow> tree f \<noteq> tr"
    by (auto simp: get_def split: option.splits)
  with None rem_miss [OF assms] show ?thesis by simp
next
  case (Some f)
  with rem_hit [OF assms, of fid f tr] show ?thesis by (auto simp: get_Some_iff)
qed

text \<open>Closing a list of ids, the loop of TREE\_DISCONNECT.\<close>

lemma rem_list:
  assumes "invar t"
  shows "invar (fold (\<lambda>fid t. snd (rem fid tr t)) fids t) \<and>
    lookup (fold (\<lambda>fid t. snd (rem fid tr t)) fids t) x =
      (if x \<in> set fids \<and> get t x tr \<noteq> None then None else lookup t x)"
  using assms
proof (induction fids arbitrary: t)
  case (Cons fid fids)
  from Cons.IH [OF rem_invar [OF Cons.prems, of fid tr]] show ?case
    by (auto simp: get_def rem_lookup [OF Cons.prems] split: option.splits)
qed simp

lemma rem_tree:
  assumes "invar t"
  shows "get (fold (\<lambda>fid t. snd (rem fid tr t)) (ids t tr) t) x tr' = (if tr' = tr then None else get t x tr')"
  using rem_list [OF assms, of tr "ids t tr" x] ids_set [OF assms, of tr]
  by (auto simp: get_def split: option.splits if_splits)

end

interpretation ht: handle_store ht_lookup ht_insert ht_remove ht_set ids_in_tree of_tree_id ht_ok
  "\<lambda>t. ht_len t < 2 ^ 32"
  by unfold_locales
    (fact ht_insert_ok ht_remove_hit ht_remove_miss ht_set_ok set_ids_in_tree)+

lemma ht_get_eq: "ht_get = ht.get"
  by (simp add: fun_eq_iff ht_get_def ht.get_def)

section \<open>Generations\<close>

lemma unat_minus_one_u32: "unat (- 1 :: u32) = 2 ^ 32 - 1"
  by (simp add: unsigned_minus_1_eq_mask mask_eq_exp_minus_1)

lemma unat_next_gen:
  assumes "g \<noteq> 0"
  shows "unat (next_gen g) = unat g mod (2 ^ 32 - 1) + 1"
proof (cases "g = - 1")
  case True
  then have "unat g = 2 ^ 32 - 1" by (simp only: unat_minus_one_u32)
  with True show ?thesis by (simp add: next_gen_def)
next
  case False
  then have "unat (g + 1) = unat g + 1"
    by (metis Suc_eq_plus1 add.commute unatSuc add.inverse_inverse add_eq_0_iff)
  moreover have "unat g \<noteq> 2 ^ 32 - 1"
    using False by (metis unat_minus_one_u32 word_unat_eq_iff)
  ultimately have "unat (g + 1) = unat g + 1" "unat g < 2 ^ 32 - 1"
    using unat_u32_bound [of g] by linarith+
  then have "max (g + 1) 1 = g + 1"
    using assms by (auto simp: max_def word_le_nat_alt unat_eq_0)
  with \<open>unat (g + 1) = unat g + 1\<close> \<open>unat g < 2 ^ 32 - 1\<close> show ?thesis
    by (simp add: next_gen_def)
qed

lemma next_gen_pow_nonzero: "g \<noteq> 0 \<Longrightarrow> (next_gen ^^ j) g \<noteq> 0"
  by (cases j) auto

lemma unat_next_gen_pow:
  assumes "g \<noteq> 0"
  shows "unat ((next_gen ^^ j) g) = (unat g - 1 + j) mod (2 ^ 32 - 1) + 1"
proof (induction j)
  case 0
  have "0 < unat g" "unat g - 1 < 2 ^ 32 - 1"
    using assms unat_u32_bound [of g] by (simp_all add: unat_gt_0)
  then show ?case by simp
next
  case (Suc j)
  have "unat ((next_gen ^^ Suc j) g) = unat ((next_gen ^^ j) g) mod (2 ^ 32 - 1) + 1"
    using unat_next_gen [OF next_gen_pow_nonzero [OF assms]] by simp
  then show ?case unfolding Suc by (simp add: mod_simps)
qed

text \<open>After \<open>2^32 - 1\<close> closes of a slot its generation is back where it started.\<close>

lemma next_gen_cycle:
  assumes "g \<noteq> 0"
  shows "(next_gen ^^ (2 ^ 32 - 1)) g = g"
proof -
  have "0 < unat g" "unat g - 1 < 2 ^ 32 - 1"
    using assms unat_u32_bound [of g] by (simp_all add: unat_gt_0)
  then have "unat ((next_gen ^^ (2 ^ 32 - 1)) g) = unat g"
    unfolding unat_next_gen_pow [OF assms] by (simp only: mod_add_self2 mod_less)
  then show ?thesis by (simp only: word_unat_eq_iff)
qed

lemma next_gen_fresh:
  assumes "g \<noteq> 0" and "0 < j" and "j < 2 ^ 32 - 1"
  shows "(next_gen ^^ j) g \<noteq> g"
proof
  assume "(next_gen ^^ j) g = g"
  then have "(unat g - 1 + j) mod (2 ^ 32 - 1) + 1 = unat g"
    using unat_next_gen_pow [OF assms(1), of j] by (simp only:)
  moreover have g: "0 < unat g" "unat g - 1 < 2 ^ 32 - 1"
    using assms unat_u32_bound [of g] by (simp_all add: unat_gt_0)
  ultimately have "(unat g - 1 + j) mod (2 ^ 32 - 1) = (unat g - 1) mod (2 ^ 32 - 1)" by simp
  then have "(2 ^ 32 - 1) dvd j"
    by (simp only: mod_eq_dvd_iff_nat [OF le_add1] add_diff_cancel_left')
  then have "2 ^ 32 - 1 \<le> j" using assms(2) by (rule dvd_imp_le)
  with assms(3) show False by simp
qed

section \<open>Histories of a table\<close>

datatype ht_op = Ins open_file | Rem u64 u32 | TakeAll | Upd u64 open_file

fun ht_step :: "ht_op \<Rightarrow> handle_table \<Rightarrow> handle_table" where
  "ht_step (Ins f) t = (case ht_insert f t of Some (_, t') \<Rightarrow> t' | None \<Rightarrow> t)"
| "ht_step (Rem fid tr) t = snd (ht_remove fid tr t)"
| "ht_step TakeAll t = snd (take_all t)"
| "ht_step (Upd fid f) t = ht_set fid f t"

definition ht_run :: "ht_op list \<Rightarrow> handle_table \<Rightarrow> handle_table" where
  "ht_run ops t = fold ht_step ops t"

fun closing :: "ht_op \<Rightarrow> bool" where
  "closing (Ins _) = False"
| "closing (Upd _ _) = False"
| "closing _ = True"

definition gen_adv :: "nat \<Rightarrow> nat \<Rightarrow> handle_table \<Rightarrow> handle_table \<Rightarrow> bool" where
  "gen_adv i k t t' \<longleftrightarrow> i < length (ht_gens t') \<and>
     (\<exists>j \<le> k. ht_gens t' ! i = (next_gen ^^ j) (ht_gens t ! i))"

lemma gen_adv_trans:
  assumes "gen_adv i k t t'" and "gen_adv i l t' t''"
  shows "gen_adv i (k + l) t t''"
proof -
  obtain a b where "a \<le> k" "ht_gens t' ! i = (next_gen ^^ a) (ht_gens t ! i)"
    "b \<le> l" "ht_gens t'' ! i = (next_gen ^^ b) (ht_gens t' ! i)" "i < length (ht_gens t'')"
    using assms by (auto simp: gen_adv_def)
  then have "b + a \<le> k + l \<and> ht_gens t'' ! i = (next_gen ^^ (b + a)) (ht_gens t ! i)"
    by (simp add: funpow_add)
  with \<open>i < length (ht_gens t'')\<close> show ?thesis unfolding gen_adv_def by blast
qed

lemma gen_adv_take:
  "i < length (ht_gens t) \<Longrightarrow> gen_adv i (if j = i then 1 else 0) t (ht_take j t)"
  by (auto simp: gen_adv_def ht_take_def intro: exI [of _ "Suc 0"])

lemma gen_adv_refl: "i < length (ht_gens t) \<Longrightarrow> gen_adv i 0 t t"
  by (simp add: gen_adv_def)

lemma gen_adv_mono: "gen_adv i k t t' \<Longrightarrow> k \<le> l \<Longrightarrow> gen_adv i l t t'"
  unfolding gen_adv_def by (meson order_trans)

lemma gen_adv_take_loop:
  assumes "i < length (ht_gens t)"
  shows "gen_adv i (count_list is i) t (snd (take_loop is t))"
  using assms
proof (induction "is" t rule: take_loop.induct)
  case (1 t)
  then show ?case by (simp add: gen_adv_refl)
next
  case (2 j "is" t)
  show ?case
  proof (cases "ht_slots t ! j")
    case None
    with 2 show ?thesis by (auto intro: gen_adv_mono)
  next
    case (Some f)
    have a: "gen_adv i (if j = i then 1 else 0) t (ht_take j t)"
      using 2(3) by (rule gen_adv_take)
    then have "gen_adv i (count_list is i) (ht_take j t) (snd (take_loop is (ht_take j t)))"
      using 2(2) [OF Some] by (simp add: gen_adv_def)
    from gen_adv_trans [OF a this] Some show ?thesis
      by (auto split: prod.splits if_splits)
  qed
qed

lemma count_list_distinct: "distinct xs \<Longrightarrow> count_list xs x \<le> Suc 0"
  by (induction xs) (auto simp: count_notin)

lemma gen_adv_step:
  assumes "i < length (ht_gens t)"
  shows "gen_adv i (if closing op then 1 else 0) t (ht_step op t)"
proof (cases op)
  case (Ins f)
  with assms show ?thesis
    by (auto simp: gen_adv_def ht_insert_def Let_def nth_append idx_Some_iff split: option.splits if_splits)
next
  case (Rem fid tr)
  have "gen_adv i 1 t (ht_take j t)" for j
    using gen_adv_take [OF assms, of j] by (rule gen_adv_mono) simp
  moreover have "gen_adv i 1 t t"
    using gen_adv_refl [OF assms] by (rule gen_adv_mono) simp
  ultimately show ?thesis
    using Rem by (auto simp: ht_remove_def split: option.splits)
next
  case TakeAll
  have "count_list [0..<length (ht_slots t)] i \<le> 1"
    by (simp add: count_list_distinct)
  with gen_adv_take_loop [OF assms] TakeAll show ?thesis
    by (auto simp: take_all_def intro: gen_adv_mono)
next
  case (Upd fid f)
  with assms show ?thesis by (auto simp: gen_adv_def ht_set_def split: option.splits)
qed

lemma gen_adv_run:
  "i < length (ht_gens t) \<Longrightarrow> gen_adv i (length (filter closing ops)) t (ht_run ops t)"
proof (induction ops arbitrary: t)
  case Nil
  then show ?case by (simp add: ht_run_def gen_adv_refl)
next
  case (Cons op ops)
  have a: "gen_adv i (if closing op then 1 else 0) t (ht_step op t)"
    using Cons.prems by (rule gen_adv_step)
  then have "gen_adv i (length (filter closing ops)) (ht_step op t) (ht_run ops (ht_step op t))"
    using Cons.IH by (simp add: gen_adv_def)
  from gen_adv_trans [OF a this] show ?case
    by (simp add: ht_run_def split: if_splits)
qed

lemma ht_lookup_gen:
  "idx (ht_gens t) (unat (fid AND 0xFFFFFFFF)) \<noteq> Some (ucast (drop_bit 32 fid)) \<Longrightarrow> ht_lookup t fid = None"
  by (simp add: ht_lookup_def ht_slot_def Let_def)

section \<open>Properties\<close>

definition sample_file :: "u32 \<Rightarrow> open_file" where
  "sample_file tr = \<lparr>of_fd = 7, of_path = str ''/srv/a'', of_rel = str ''a'', of_leaf = str ''a'',
     of_share_idx = 0, of_tree_id = tr, of_is_dir = False, of_writable = True,
     of_delete_on_close = False, of_dir = None, of_oplock_ino = None, of_lease_key = None,
     of_lease_granted = 0\<rparr>"

definition sample_table :: handle_table where
  "sample_table = \<lparr>ht_slots = [Some (sample_file 1), Some (sample_file 2)], ht_gens = [1, 1], ht_free = []\<rparr>"

lemma ht_ok_sample [simp]: "ht_ok sample_table"
  by (auto simp: ht_ok_def sample_table_def less_Suc_eq)

text \<open>(C10) Opening a file: \<open>HandleTable::insert\<close> does not panic, returns an id that was not
  live, and afterwards \<open>get\<close> finds the file under this id on the tree it was opened on and on
  no other tree, while what \<open>get\<close> returns for every other id is unchanged.\<close>

theorem insert_then_get:
  assumes "ht_ok t" and "ht_len t < 2 ^ 32"
  shows "\<exists>fid t'. ht_insert f t = Some (fid, t') \<and> ht_ok t' \<and> ht_lookup t fid = None \<and>
    (\<forall>tr. ht_get t' fid tr = (if tr = of_tree_id f then Some f else None)) \<and>
    (\<forall>x tr. x \<noteq> fid \<longrightarrow> ht_get t' x tr = ht_get t x tr)"
proof -
  obtain fid t' where "ht_insert f t = Some (fid, t')" "ht_ok t'" "ht_lookup t fid = None"
    "ht_lookup t' = (ht_lookup t)(fid \<mapsto> f)"
    using ht.ins_ok [OF assms] by blast
  moreover from this have "ht_get t' fid tr = (if tr = of_tree_id f then Some f else None)"
    "x \<noteq> fid \<Longrightarrow> ht_get t' x tr = ht_get t x tr" for x tr
    by (auto simp: ht_get_def)
  ultimately show ?thesis by blast
qed

theorem insert_then_get_witness:
  "\<exists>fid t'. ht_insert (sample_file 3) sample_table = Some (fid, t') \<and> ht_get t' fid 3 = Some (sample_file 3)"
proof -
  have "ht_len sample_table < 2 ^ 32" by (simp add: ht_len_def sample_table_def)
  from insert_then_get [OF ht_ok_sample this, of "sample_file 3"] show ?thesis
    by (auto simp: sample_file_def)
qed

text \<open>(C11) A handle is closed only through its own tree: \<open>remove\<close> with the tree the file was
  opened on returns it and makes its id miss from then on; with any other tree it returns
  nothing and leaves the whole table as it was.\<close>

theorem remove_own_tree_only:
  assumes "ht_ok t"
  shows "fst (ht_remove fid tr t) = ht_get t fid tr \<and> ht_ok (snd (ht_remove fid tr t)) \<and>
    (\<forall>x. ht_lookup (snd (ht_remove fid tr t)) x =
       (if x = fid \<and> ht_get t fid tr \<noteq> None then None else ht_lookup t x)) \<and>
    (ht_get t fid tr = None \<longrightarrow> snd (ht_remove fid tr t) = t)"
proof -
  have "ht_get t fid tr = None \<Longrightarrow> ht_remove fid tr t = (None, t)"
    by (intro ht.rem_miss [OF assms]) (auto simp: ht_get_def)
  then show ?thesis
    using ht.rem_fst [OF assms] ht.rem_invar [OF assms] ht.rem_lookup [OF assms]
    by (simp add: ht_get_eq)
qed

theorem remove_own_tree_only_witness:
  "fst (ht_remove (ht_id 1 0) 1 sample_table) = Some (sample_file 1) \<and>
   snd (ht_remove (ht_id 1 0) 2 sample_table) = sample_table"
proof -
  have "ht_lookup sample_table (ht_id (ht_gens sample_table ! 0) 0) = ht_slots sample_table ! 0"
    by (intro ht_lookup_id) (simp_all add: sample_table_def [symmetric], simp add: sample_table_def)
  then have "ht_lookup sample_table (ht_id 1 0) = Some (sample_file 1)"
    by (simp add: sample_table_def)
  then show ?thesis
    using remove_own_tree_only [OF ht_ok_sample, of "ht_id 1 0" 1]
      remove_own_tree_only [OF ht_ok_sample, of "ht_id 1 0" 2]
    by (simp add: ht_get_def sample_file_def)
qed

text \<open>(C12) A stale file id misses: once a handle is closed, no sequence of further opens,
  closes, updates and whole-table teardowns with fewer than \<open>2^32 - 2\<close> closing operations
  makes its id live again. (The generation then wraps, see \<open>next_gen_cycle\<close>.)\<close>

theorem stale_id_misses:
  assumes "ht_ok t" and "ht_lookup t fid = Some f"
    and "length (filter closing ops) < 2 ^ 32 - 2"
  shows "ht_lookup (ht_run ops (snd (ht_remove fid (of_tree_id f) t))) fid = None"
proof -
  obtain i where i: "ht_slot t fid = Some i" "ht_slots t ! i = Some f"
    using assms(2) by (auto simp: ht_lookup_def split: option.splits)
  then have l: "i < length (ht_gens t)" "fid = ht_id (ht_gens t ! i) i"
    using ht_slot_iff [OF assms(1)] ht_okD(1) [OF assms(1)] by auto
  then have b: "i < 2 ^ 32" using ht_index_bound [OF assms(1)] ht_okD(1) [OF assms(1)] by simp
  define g where "g = ht_gens t ! i"
  have "g \<in> set (ht_gens t)" using l(1) by (simp add: g_def)
  then have g0: "g \<noteq> 0" using ht_okD(5) [OF assms(1)] by metis
  have r: "snd (ht_remove fid (of_tree_id f) t) = ht_take i t"
    using i by (simp add: ht_remove_def)
  have "gen_adv i (length (filter closing ops)) (ht_take i t) (ht_run ops (ht_take i t))"
    using l by (intro gen_adv_run) (simp add: ht_take_def)
  then obtain j where j: "j \<le> length (filter closing ops)" "i < length (ht_gens (ht_run ops (ht_take i t)))"
    "ht_gens (ht_run ops (ht_take i t)) ! i = (next_gen ^^ j) (next_gen g)"
    using l(1) by (auto simp: gen_adv_def ht_take_def g_def)
  have "(next_gen ^^ Suc j) g \<noteq> g"
    using g0 j(1) assms(3) by (intro next_gen_fresh) auto
  then have "idx (ht_gens (ht_run ops (ht_take i t))) i \<noteq> Some g"
    using j by (simp add: idx_Some_iff funpow_swap1)
  then show ?thesis
    unfolding r using ht_id_index [OF b, of g] ht_id_gen [OF b, of g] l(2)
    by (intro ht_lookup_gen) (simp add: g_def)
qed

theorem stale_id_misses_witness:
  "ht_lookup (ht_run [Ins (sample_file 1), Rem (ht_id 1 1) 2, Ins (sample_file 2)]
     (snd (ht_remove (ht_id 1 0) 1 sample_table))) (ht_id 1 0) = None"
proof -
  have "ht_lookup sample_table (ht_id (ht_gens sample_table ! 0) 0) = ht_slots sample_table ! 0"
    by (intro ht_lookup_id) (simp_all add: sample_table_def [symmetric], simp add: sample_table_def)
  then have "ht_lookup sample_table (ht_id 1 0) = Some (sample_file 1)"
    by (simp add: sample_table_def)
  from stale_id_misses [OF ht_ok_sample this] show ?thesis
    by (simp add: sample_file_def)
qed

text \<open>(C13) Disconnecting a tree closes exactly its own handles: after removing every id that
  \<open>ids_in_tree\<close> lists, no id is found on that tree and what every other tree sees is
  unchanged.\<close>

theorem tree_disconnect_exact:
  assumes "ht_ok t"
  shows "ht_get (fold (\<lambda>fid t. snd (ht_remove fid tr t)) (ids_in_tree t tr) t) x tr' =
    (if tr' = tr then None else ht_get t x tr')"
  unfolding ht_get_eq by (rule ht.rem_tree [OF assms])

theorem tree_disconnect_exact_witness:
  "ht_get (fold (\<lambda>fid t. snd (ht_remove fid 1 t)) (ids_in_tree sample_table 1) sample_table) (ht_id 1 0) 1 = None"
  using tree_disconnect_exact [OF ht_ok_sample, of 1 "ht_id 1 0" 1] by simp

end
