(* ===== verification/Pac.thy ===== *)
theory Pac
  imports Wire Strings
begin

text \<open>
  Security identifiers and the Kerberos PAC decoder of \<open>src/src/pac.rs\<close>. The reader state is
  the cursor of \<open>Wire\<close> (\<open>Rd\<close> is the same structure as \<open>Rdr\<close>). The error strings of the
  decoder are collapsed to \<open>None\<close>, except \<open>NO_LOGON_INFO\<close>, the only one a caller tells apart.
\<close>

section \<open>SIDs\<close>

abbreviation (input) MAX_SUBAUTH :: nat where "MAX_SUBAUTH \<equiv> 15"
abbreviation (input) MAX_GROUPS :: nat where "MAX_GROUPS \<equiv> 8192"

record sid =
  sid_revision :: u8
  sid_authority :: u64
  sid_sub :: "u32 list"

fun collect_option :: "'a option list \<Rightarrow> 'a list option" where
  "collect_option [] = Some []"
| "collect_option (None # xs) = None"
| "collect_option (Some x # xs) = (case collect_option xs of None \<Rightarrow> None | Some ys \<Rightarrow> Some (x # ys))"

definition sid_parse :: "rstr \<Rightarrow> sid option" where
  "sid_parse s =
     (case split_on (\<lambda>c. c = 45) s of
        a # b # c # it \<Rightarrow>
          (if \<not> eq_ignore_ascii_case a (str ''S'') then None
           else do {
             revision \<leftarrow> parse_uint 8 b;
             authority \<leftarrow> parse_uint 64 c;
             if revision \<noteq> 1 \<or> authority \<ge> 2 ^ 48 then None
             else do {
               sub \<leftarrow> collect_option (map (\<lambda>p. parse_uint 32 p) it);
               if sub = [] \<or> length sub > MAX_SUBAUTH then None
               else Some \<lparr>sid_revision = word_of_nat revision, sid_authority = word_of_nat authority,
                          sid_sub = map word_of_nat sub\<rparr> } })
      | _ \<Rightarrow> None)"

definition with_rid :: "sid \<Rightarrow> u32 \<Rightarrow> sid" where
  "with_rid s rid = s\<lparr>sid_sub := sid_sub s @ [rid]\<rparr>"

definition sid_display :: "sid \<Rightarrow> rstr" where
  "sid_display s =
     str ''S-'' @ show_uint (unat (sid_revision s)) @ str ''-'' @ show_uint (unat (sid_authority s)) @
     concat (map (\<lambda>x. 45 # show_uint (unat x)) (sid_sub s))"

record logon_info =
  li_user :: rstr
  li_domain :: rstr
  li_domain_sid :: "sid option"
  li_user_sid :: "sid option"
  li_groups :: "sid list"

definition has_sid :: "logon_info \<Rightarrow> sid \<Rightarrow> bool" where
  "has_sid l s \<longleftrightarrow> li_user_sid l = Some s \<or> s \<in> set (li_groups l)"

section \<open>The NDR reader\<close>

definition nd_align :: "nat \<Rightarrow> rdr \<Rightarrow> rdr option" where
  "nd_align a r = rdr_skip ((a - rd_pos r mod a) mod a) r"

definition nd_u16 :: "rdr \<Rightarrow> (u16 \<times> rdr) option" where
  "nd_u16 r = do { r \<leftarrow> nd_align 2 r; rdr_u16 r }"

definition nd_u32 :: "rdr \<Rightarrow> (u32 \<times> rdr) option" where
  "nd_u32 r = do { r \<leftarrow> nd_align 4 r; rdr_u32 r }"

definition nd_u64 :: "rdr \<Rightarrow> (u64 \<times> rdr) option" where
  "nd_u64 r = do {
     (lo, r) \<leftarrow> nd_u32 r;
     (hi, r) \<leftarrow> nd_u32 r;
     Some (ucast lo OR push_bit 32 (ucast hi), r) }"

record ustr =
  us_len :: u16
  us_present :: bool

definition ustr_hdr :: "rdr \<Rightarrow> (ustr \<times> rdr) option" where
  "ustr_hdr r = do {
     (len, r) \<leftarrow> nd_u16 r;
     (_, r) \<leftarrow> nd_u16 r;
     (p, r) \<leftarrow> nd_u32 r;
     Some (\<lparr>us_len = len, us_present = (p \<noteq> 0)\<rparr>, r) }"

definition ustr_body :: "ustr \<Rightarrow> rdr \<Rightarrow> (rstr option \<times> rdr) option" where
  "ustr_body h r =
     (if \<not> us_present h then Some (None, r)
      else do {
        (_, r) \<leftarrow> nd_u32 r;
        (_, r) \<leftarrow> nd_u32 r;
        (a, r) \<leftarrow> nd_u32 r;
        let actual = unat a;
        if actual * 2 < unat (us_len h) \<or> actual > 0x8000 then None
        else do {
          (raw, r) \<leftarrow> rdr_take (actual * 2) r;
          let units = take (unat (us_len h) div 2) (chunks2 raw);
          Some (Some (decode_utf16_lossy (map unat units)), r) } })"

fun nd_u32s :: "nat \<Rightarrow> rdr \<Rightarrow> (u32 list \<times> rdr) option" where
  "nd_u32s 0 r = Some ([], r)"
| "nd_u32s (Suc n) r = do { (x, r) \<leftarrow> nd_u32 r; (xs, r) \<leftarrow> nd_u32s n r; Some (x # xs, r) }"

definition be_fold :: "bytes \<Rightarrow> u64" where
  "be_fold a = foldl (\<lambda>acc b. push_bit 8 acc OR ucast b) 0 a"

definition nd_sid :: "rdr \<Rightarrow> (sid \<times> rdr) option" where
  "nd_sid r = do {
     (max, r) \<leftarrow> nd_u32 r;
     (revision, r) \<leftarrow> rdr_u8 r;
     (n, r) \<leftarrow> rdr_u8 r;
     if unat n \<noteq> unat max \<or> n = 0 \<or> unat n > MAX_SUBAUTH then None
     else do {
       (a, r) \<leftarrow> rdr_take 6 r;
       (sub, r) \<leftarrow> nd_u32s (unat n) r;
       Some (\<lparr>sid_revision = revision, sid_authority = be_fold a, sid_sub = sub\<rparr>, r) } }"

fun nd_pairs :: "nat \<Rightarrow> rdr \<Rightarrow> (u32 list \<times> rdr) option" where
  "nd_pairs 0 r = Some ([], r)"
| "nd_pairs (Suc n) r = do {
     (x, r) \<leftarrow> nd_u32 r;
     (_, r) \<leftarrow> nd_u32 r;
     (xs, r) \<leftarrow> nd_pairs n r;
     Some (x # xs, r) }"

definition nd_rids :: "rdr \<Rightarrow> (u32 list \<times> rdr) option" where
  "nd_rids r = do {
     (n, r) \<leftarrow> nd_u32 r;
     if unat n > MAX_GROUPS then None else nd_pairs (unat n) r }"

section \<open>LOGON\_INFO\<close>

definition li_header :: "rdr \<Rightarrow> rdr option" where
  "li_header r = do {
     (ver, r) \<leftarrow> rdr_u8 r;
     (endian, r) \<leftarrow> rdr_u8 r;
     (hlen, r) \<leftarrow> nd_u16 r;
     if ver \<noteq> 1 \<or> endian \<noteq> 0x10 \<or> hlen \<noteq> 8 then None
     else do {
       (_, r) \<leftarrow> nd_u32 r;
       (_, r) \<leftarrow> nd_u32 r;
       (_, r) \<leftarrow> nd_u32 r;
       (p, r) \<leftarrow> nd_u32 r;
       if p = 0 then None else Some r } }"

fun ustr_hdrs :: "nat \<Rightarrow> rdr \<Rightarrow> (ustr list \<times> rdr) option" where
  "ustr_hdrs 0 r = Some ([], r)"
| "ustr_hdrs (Suc n) r = do { (h, r) \<leftarrow> ustr_hdr r; (hs, r) \<leftarrow> ustr_hdrs n r; Some (h # hs, r) }"

record li_fixed =
  lf_strs :: "ustr list"
  lf_user_id :: u32
  lf_primary_group :: u32
  lf_group_ids :: bool
  lf_logon_server :: ustr
  lf_domain_name :: ustr
  lf_domain_sid :: bool
  lf_extra_sids :: bool
  lf_res_domain :: bool
  lf_res_ids :: bool

definition li_fixed_part :: "rdr \<Rightarrow> (li_fixed \<times> rdr) option" where
  "li_fixed_part r = do {
     r \<leftarrow> rdr_skip (6 * 8) r;
     (strs, r) \<leftarrow> ustr_hdrs 6 r;
     (_, r) \<leftarrow> nd_u16 r;
     (_, r) \<leftarrow> nd_u16 r;
     (user_id, r) \<leftarrow> nd_u32 r;
     (primary_group, r) \<leftarrow> nd_u32 r;
     (_, r) \<leftarrow> nd_u32 r;
     (group_ids, r) \<leftarrow> nd_u32 r;
     (_, r) \<leftarrow> nd_u32 r;
     r \<leftarrow> rdr_skip 16 r;
     (logon_server, r) \<leftarrow> ustr_hdr r;
     (domain_name, r) \<leftarrow> ustr_hdr r;
     (domain_sid, r) \<leftarrow> nd_u32 r;
     r \<leftarrow> rdr_skip (2 * 4) r;
     (_, r) \<leftarrow> nd_u32 r;
     (_, r) \<leftarrow> nd_u32 r;
     r \<leftarrow> rdr_skip (2 * 8) r;
     (_, r) \<leftarrow> nd_u32 r;
     (_, r) \<leftarrow> nd_u32 r;
     (_, r) \<leftarrow> nd_u32 r;
     (extra_sids, r) \<leftarrow> nd_u32 r;
     (res_domain, r) \<leftarrow> nd_u32 r;
     (_, r) \<leftarrow> nd_u32 r;
     (res_ids, r) \<leftarrow> nd_u32 r;
     Some (\<lparr>lf_strs = strs, lf_user_id = user_id, lf_primary_group = primary_group,
            lf_group_ids = (group_ids \<noteq> 0), lf_logon_server = logon_server,
            lf_domain_name = domain_name, lf_domain_sid = (domain_sid \<noteq> 0),
            lf_extra_sids = (extra_sids \<noteq> 0), lf_res_domain = (res_domain \<noteq> 0),
            lf_res_ids = (res_ids \<noteq> 0)\<rparr>, r) }"

fun ustr_bodies :: "ustr list \<Rightarrow> rdr \<Rightarrow> rdr option" where
  "ustr_bodies [] r = Some r"
| "ustr_bodies (h # hs) r = do { (_, r) \<leftarrow> ustr_body h r; ustr_bodies hs r }"

fun nd_sids :: "u32 list \<Rightarrow> rdr \<Rightarrow> (sid list \<times> rdr) option" where
  "nd_sids [] r = Some ([], r)"
| "nd_sids (p # ps) r =
     (if p \<noteq> 0 then do { (s, r) \<leftarrow> nd_sid r; (ss, r) \<leftarrow> nd_sids ps r; Some (s # ss, r) }
      else nd_sids ps r)"

definition nd_extra :: "rdr \<Rightarrow> (sid list \<times> rdr) option" where
  "nd_extra r = do {
     (n, r) \<leftarrow> nd_u32 r;
     if unat n > MAX_GROUPS then None
     else do { (present, r) \<leftarrow> nd_pairs (unat n) r; nd_sids present r } }"

definition nd_when :: "bool \<Rightarrow> 'a \<Rightarrow> (rdr \<Rightarrow> ('a \<times> rdr) option) \<Rightarrow> rdr \<Rightarrow> ('a \<times> rdr) option" where
  "nd_when c d f r = (if c then f r else Some (d, r))"

definition nd_opt_sid :: "rdr \<Rightarrow> (sid option \<times> rdr) option" where
  "nd_opt_sid r = do { (s, r) \<leftarrow> nd_sid r; Some (Some s, r) }"

definition add_group :: "sid list \<Rightarrow> sid \<Rightarrow> sid list" where
  "add_group groups s = (if s \<in> set groups then groups else groups @ [s])"

definition li_collect :: "sid option \<Rightarrow> u32 \<Rightarrow> u32 list \<Rightarrow> sid list \<Rightarrow> sid option \<Rightarrow> u32 list \<Rightarrow> sid list" where
  "li_collect domain_sid primary_group rids extra res_domain res_rids =
     foldl add_group []
       ((case domain_sid of None \<Rightarrow> []
         | Some d \<Rightarrow> with_rid d primary_group # map (with_rid d) rids)
        @ extra
        @ (case res_domain of None \<Rightarrow> [] | Some d \<Rightarrow> map (with_rid d) res_rids))"

definition default_str :: "rstr option \<Rightarrow> rstr" where
  "default_str s = (case s of None \<Rightarrow> [] | Some x \<Rightarrow> x)"

definition li_deferred :: "li_fixed \<Rightarrow> rdr \<Rightarrow> logon_info option" where
  "li_deferred h r = do {
     s0 \<leftarrow> idx (lf_strs h) 0;
     (user, r) \<leftarrow> ustr_body s0 r;
     r \<leftarrow> ustr_bodies (drop 1 (lf_strs h)) r;
     (rids, r) \<leftarrow> nd_when (lf_group_ids h) [] nd_rids r;
     (_, r) \<leftarrow> ustr_body (lf_logon_server h) r;
     (domain, r) \<leftarrow> ustr_body (lf_domain_name h) r;
     (domain_sid, r) \<leftarrow> nd_when (lf_domain_sid h) None nd_opt_sid r;
     (extra, r) \<leftarrow> nd_when (lf_extra_sids h) [] nd_extra r;
     (res_domain, r) \<leftarrow> nd_when (lf_res_domain h) None nd_opt_sid r;
     (res_rids, r) \<leftarrow> nd_when (lf_res_ids h) [] nd_rids r;
     Some \<lparr>li_user = default_str user, li_domain = default_str domain,
           li_domain_sid = domain_sid,
           li_user_sid = map_option (\<lambda>d. with_rid d (lf_user_id h)) domain_sid,
           li_groups = li_collect domain_sid (lf_primary_group h) rids extra res_domain res_rids\<rparr> }"

definition parse_logon_info :: "bytes \<Rightarrow> logon_info option" where
  "parse_logon_info buf = do {
     r \<leftarrow> li_header (rdr_new buf);
     (h, r) \<leftarrow> li_fixed_part r;
     li_deferred h r }"

section \<open>The PAC\<close>

datatype pac_err = NO_LOGON_INFO | Malformed

fun pac_buffers :: "bytes \<Rightarrow> nat \<Rightarrow> rdr \<Rightarrow> pac_err + logon_info" where
  "pac_buffers pac 0 r = Inl NO_LOGON_INFO"
| "pac_buffers pac (Suc n) r =
     (case do { (ty, r) \<leftarrow> nd_u32 r; (sz, r) \<leftarrow> nd_u32 r; (off, r) \<leftarrow> nd_u64 r; Some (ty, sz, off, r) } of
        None \<Rightarrow> Inl Malformed
      | Some (ty, sz, off, r) \<Rightarrow>
          (if ty = 1 then
             (case do { buf \<leftarrow> slice_get pac (unat off) (unat off + unat sz); parse_logon_info buf } of
                None \<Rightarrow> Inl Malformed
              | Some l \<Rightarrow> Inr l)
           else pac_buffers pac n r))"

definition parse_pac :: "bytes \<Rightarrow> pac_err + logon_info" where
  "parse_pac pac =
     (case do { (count, r) \<leftarrow> nd_u32 (rdr_new pac); (_, r) \<leftarrow> nd_u32 r; Some (count, r) } of
        None \<Rightarrow> Inl Malformed
      | Some (count, r) \<Rightarrow>
          (if count = 0 \<or> unat count > 64 then Inl Malformed else pac_buffers pac (unat count) r))"

section \<open>SID text form\<close>

definition sid_ok :: "sid \<Rightarrow> bool" where
  "sid_ok s \<longleftrightarrow> sid_revision s = 1 \<and> unat (sid_authority s) < 2 ^ 48 \<and>
     1 \<le> length (sid_sub s) \<and> length (sid_sub s) \<le> MAX_SUBAUTH"

lemma collect_option_map_Some: "collect_option (map (\<lambda>x. Some (f x)) xs) = Some (map f xs)"
  by (induction xs) auto

lemma collect_option_length: "collect_option xs = Some ys \<Longrightarrow> length ys = length xs"
  by (induction xs arbitrary: ys rule: collect_option.induct) (auto split: option.splits)

lemma split_dash_subs:
  "\<forall>c \<in> set a. c \<noteq> 45 \<Longrightarrow>
   split_on (\<lambda>c. c = 45) (a @ concat (map (\<lambda>x. 45 # show_uint (unat (x :: u32))) xs)) =
     a # map (\<lambda>x. show_uint (unat x)) xs"
proof (induction xs arbitrary: a)
  case Nil
  then show ?case by (simp add: split_on_none)
next
  case (Cons x xs)
  have "\<forall>c \<in> set (show_uint (unat x)). c \<noteq> 45" using show_uint_mem by fastforce
  then show ?case using Cons by (simp add: split_on_append)
qed

lemma split_dash_field:
  "split_on (\<lambda>c. c = 45) (show_uint n @ 45 # t) = show_uint n # split_on (\<lambda>c. c = 45) t"
  using show_uint_mem [of _ n] by (intro split_on_append) fastforce+

lemma split_sid_display:
  "split_on (\<lambda>c. c = 45) (sid_display s) =
     [83] # show_uint (unat (sid_revision s)) # show_uint (unat (sid_authority s)) #
       map (\<lambda>x. show_uint (unat x)) (sid_sub s)"
proof -
  have "split_on (\<lambda>c. c = 45) (show_uint n @ concat (map (\<lambda>x. 45 # show_uint (unat x)) xs)) =
      show_uint n # map (\<lambda>x. show_uint (unat x)) xs" for n and xs :: "u32 list"
    using show_uint_mem [of _ n] by (intro split_dash_subs) fastforce
  then show ?thesis
    by (simp add: sid_display_def str_def split_dash_field)
qed

lemma sid_parse_ok: "sid_parse s = Some x \<Longrightarrow> sid_ok x"
  by (auto simp: sid_parse_def sid_ok_def unat_of_nat Suc_le_eq split: list.splits if_splits)

section \<open>Groups\<close>

lemma foldl_add_group:
  "distinct gs \<Longrightarrow> distinct (foldl add_group gs ss) \<and> set (foldl add_group gs ss) = set gs \<union> set ss \<and>
    length (foldl add_group gs ss) \<le> length gs + length ss"
proof (induction ss arbitrary: gs)
  case (Cons s ss)
  from Cons.IH [of "add_group gs s"] Cons.prems show ?case
    by (auto simp: add_group_def split: if_splits)
qed simp

lemma li_collect_groups:
  shows "distinct (li_collect d p rids extra rd rrids)"
    and "set (li_collect d p rids extra rd rrids) =
      (case d of None \<Rightarrow> {} | Some d \<Rightarrow> with_rid d ` insert p (set rids)) \<union> set extra \<union>
      (case rd of None \<Rightarrow> {} | Some d \<Rightarrow> with_rid d ` set rrids)"
    and "length (li_collect d p rids extra rd rrids) \<le> Suc (length rids + length extra + length rrids)"
proof -
  let ?l = "(case d of None \<Rightarrow> [] | Some d \<Rightarrow> with_rid d p # map (with_rid d) rids) @ extra
    @ (case rd of None \<Rightarrow> [] | Some d \<Rightarrow> map (with_rid d) rrids)"
  have f: "distinct (foldl add_group [] ?l)" "set (foldl add_group [] ?l) = set ?l"
    "length (foldl add_group [] ?l) \<le> length ?l"
    using foldl_add_group [of "[]" ?l] by simp_all
  show "distinct (li_collect d p rids extra rd rrids)"
    using f(1) by (simp only: li_collect_def)
  show "set (li_collect d p rids extra rd rrids) =
      (case d of None \<Rightarrow> {} | Some d \<Rightarrow> with_rid d ` insert p (set rids)) \<union> set extra \<union>
      (case rd of None \<Rightarrow> {} | Some d \<Rightarrow> with_rid d ` set rrids)"
    unfolding li_collect_def f(2) by (auto split: option.splits)
  have "length ?l \<le> Suc (length rids + length extra + length rrids)"
    by (auto split: option.splits)
  then show "length (li_collect d p rids extra rd rrids) \<le> Suc (length rids + length extra + length rrids)"
    using f(3) unfolding li_collect_def by linarith
qed

section \<open>Bounds of the decoder\<close>

lemma nd_pairs_length: "nd_pairs n r = Some (xs, r') \<Longrightarrow> length xs = n"
  by (induction n arbitrary: r xs r') auto

lemma nd_u32s_length: "nd_u32s n r = Some (xs, r') \<Longrightarrow> length xs = n"
  by (induction n arbitrary: r xs r') auto

lemma nd_rids_bound: "nd_rids r = Some (xs, r') \<Longrightarrow> length xs \<le> MAX_GROUPS"
  by (auto simp: nd_rids_def nd_pairs_length split: if_splits)

definition sid_small :: "sid \<Rightarrow> bool" where
  "sid_small s \<longleftrightarrow> 1 \<le> length (sid_sub s) \<and> length (sid_sub s) \<le> MAX_SUBAUTH"

lemma nd_sid_small: "nd_sid r = Some (s, r') \<Longrightarrow> sid_small s"
  by (auto simp: nd_sid_def sid_small_def Suc_le_eq unat_gt_0 dest!: nd_u32s_length split: if_splits)
    (metis unat_eq_0 gr_zeroI)

lemma nd_sids_bound: "nd_sids ps r = Some (ss, r') \<Longrightarrow> length ss \<le> length ps \<and> list_all sid_small ss"
proof (induction ps arbitrary: r ss)
  case (Cons p ps)
  show ?case
  proof (cases "p = 0")
    case True
    with Cons.prems Cons.IH [of r ss] show ?thesis by simp
  next
    case False
    with Cons.prems obtain s r1 ss' where "nd_sid r = Some (s, r1)" "nd_sids ps r1 = Some (ss', r')" "ss = s # ss'"
      by auto
    with Cons.IH [of r1 ss'] show ?thesis by (simp add: nd_sid_small)
  qed
qed simp

lemma nd_extra_bound: "nd_extra r = Some (ss, r') \<Longrightarrow> length ss \<le> MAX_GROUPS \<and> list_all sid_small ss"
  by (auto simp: nd_extra_def dest!: nd_pairs_length nd_sids_bound split: if_splits)

lemma nd_opt_sid_small: "nd_opt_sid r = Some (s, r') \<Longrightarrow> pred_option sid_small s"
  by (auto simp: nd_opt_sid_def nd_sid_small)

lemma li_deferred_bound:
  assumes "li_deferred h r = Some l"
  shows "distinct (li_groups l) \<and> length (li_groups l) \<le> 1 + 3 * MAX_GROUPS \<and>
    (\<forall>g \<in> set (li_groups l). 1 \<le> length (sid_sub g) \<and> length (sid_sub g) \<le> MAX_SUBAUTH + 1) \<and>
    li_user_sid l = map_option (\<lambda>d. with_rid d (lf_user_id h)) (li_domain_sid l)"
proof -
  obtain r1 r2 r3 r4 r5 r6 r7 r8 rids d extra rd rrids where
    c: "nd_when (lf_group_ids h) [] nd_rids r1 = Some (rids, r2)"
      "nd_when (lf_domain_sid h) None nd_opt_sid r3 = Some (d, r4)"
      "nd_when (lf_extra_sids h) [] nd_extra r4 = Some (extra, r5)"
      "nd_when (lf_res_domain h) None nd_opt_sid r5 = Some (rd, r6)"
      "nd_when (lf_res_ids h) [] nd_rids r6 = Some (rrids, r7)"
    and g: "li_groups l = li_collect d (lf_primary_group h) rids extra rd rrids"
      "li_user_sid l = map_option (\<lambda>d. with_rid d (lf_user_id h)) (li_domain_sid l)"
    using assms by (auto simp: li_deferred_def)
  have b: "length rids \<le> MAX_GROUPS" "length rrids \<le> MAX_GROUPS" "length extra \<le> MAX_GROUPS"
    "list_all sid_small extra" "pred_option sid_small d" "pred_option sid_small rd"
    using c by (auto simp: nd_when_def nd_opt_sid_small dest!: nd_rids_bound nd_extra_bound split: if_splits)
  have "1 \<le> length (sid_sub x) \<and> length (sid_sub x) \<le> MAX_SUBAUTH + 1" if "x \<in> set (li_groups l)" for x
    using that b(4,5,6) unfolding g(1) li_collect_groups(2)
    by (auto simp: sid_small_def with_rid_def list_all_iff split: option.splits)
  moreover have "length (li_groups l) \<le> 1 + 3 * MAX_GROUPS"
    using li_collect_groups(3) [of d "lf_primary_group h" rids extra rd rrids] b(1,2,3) unfolding g(1) by linarith
  ultimately show ?thesis using g li_collect_groups(1) by simp
qed

lemma pac_buffers_logon:
  "pac_buffers pac n r = Inr l \<Longrightarrow> \<exists>i j buf. slice_get pac i j = Some buf \<and> parse_logon_info buf = Some l"
proof (induction n arbitrary: r)
  case (Suc n)
  then show ?case by (auto split: option.splits if_splits) blast+
qed simp

section \<open>Properties\<close>

text \<open>(C25) The text form of a SID round-trips: \<open>Sid::parse\<close> reads back what \<open>Display\<close> writes,
  for every SID that \<open>parse\<close> can produce.\<close>

theorem sid_display_parse:
  assumes "sid_ok s"
  shows "sid_parse (sid_display s) = Some s"
proof -
  have m: "map (\<lambda>p. parse_uint 32 p) (map (\<lambda>x. show_uint (unat x)) (sid_sub s)) =
      map (\<lambda>x. Some (unat x)) (sid_sub s)"
    using unat_u32_bound by (simp add: parse_show_uint)
  have "parse_uint 8 (show_uint (unat (sid_revision s))) = Some (unat (sid_revision s))"
    "parse_uint 64 (show_uint (unat (sid_authority s))) = Some (unat (sid_authority s))"
    using unat_u8_bound [of "sid_revision s"] unat_u64_bound [of "sid_authority s"]
    by (simp_all add: parse_show_uint)
  moreover have "map word_of_nat (map unat (sid_sub s)) = sid_sub s"
    by (simp add: comp_def)
  ultimately show ?thesis
    using assms unfolding sid_parse_def split_sid_display
    by (auto simp: sid_ok_def eq_ignore_ascii_case_def str_def ascii_lower_def m collect_option_map_Some
      simp del: map_map)
qed

theorem sid_display_parse_witness:
  "sid_parse (sid_display \<lparr>sid_revision = 1, sid_authority = 5, sid_sub = [21, 1105]\<rparr>) =
     Some \<lparr>sid_revision = 1, sid_authority = 5, sid_sub = [21, 1105]\<rparr>"
  by (rule sid_display_parse) (simp add: sid_ok_def)


definition sample_pac :: bytes where
  "sample_pac = le32 1 @ le32 0 @ le32 1 @ le32 252 @ le64 24 @
     [1, 0x10] @ le16 8 @ replicate 12 0 @ le32 1 @ replicate 100 0 @ le32 1105 @ le32 513 @
     replicate 44 0 @ le32 1 @ replicate 60 0 @ le32 1 @ [1, 1, 0, 0, 0, 0, 0, 5] @ le32 21"


end
