(* ===== verification/Session.thy ===== *)
theory Session
  imports Handles Pac
begin

text \<open>
  Sessions and the cross-connection registry of \<open>src/src/session.rs\<close>. The registry is a map
  from session ids to session states; the per-session mutexes are not modelled, each request
  being one atomic step over the shared state.
\<close>

section \<open>State\<close>

record tree =
  t_share_idx :: u32
  t_ipc :: bool
  t_read_only :: bool

record session =
  ss_key :: bytes
  ss_established :: bool
  ss_guest :: bool
  ss_signing_required :: bool
  ss_user :: rstr
  ss_kerberos :: bool
  ss_pac :: "logon_info option"
  ss_trees :: "(u32, tree) hmap"
  ss_next_tree_id :: u32
  ss_handles :: handle_table
  ss_channels :: u32

definition session_new :: session where
  "session_new = \<lparr>ss_key = replicate 16 0, ss_established = False, ss_guest = False,
     ss_signing_required = False, ss_user = [], ss_kerberos = False, ss_pac = None,
     ss_trees = [], ss_next_tree_id = 0, ss_handles = ht_default, ss_channels = 0\<rparr>"

type_synonym registry = "(u64, session) hmap"

section \<open>Registry operations\<close>

abbreviation (input) U64_MAX :: u64 where "U64_MAX \<equiv> 0xFFFFFFFFFFFFFFFF"
abbreviation (input) U32_MAX :: u32 where "U32_MAX \<equiv> 0xFFFFFFFF"

definition good_id :: "registry \<Rightarrow> u64 \<Rightarrow> bool" where
  "good_id m sid \<longleftrightarrow> sid \<noteq> 0 \<and> sid \<noteq> U64_MAX \<and> hget m sid = None"

text \<open>The rejection loop of \<open>create\<close>: draw 8 random bytes until they are a usable id.\<close>

partial_function (option) fresh_id :: "'w ext \<Rightarrow> registry \<Rightarrow> 'w \<Rightarrow> (u64 \<times> 'w) option" where
  "fresh_id E m w =
     (case os_urandom E 8 w of
        (b, w) \<Rightarrow> if good_id m (u64_le b) then Some (u64_le b, w) else fresh_id E m w)"

definition reg_create :: "'w ext \<Rightarrow> registry \<Rightarrow> 'w \<Rightarrow> (u64 \<times> registry \<times> 'w) option" where
  "reg_create E m w = do {
     (sid, w) \<leftarrow> fresh_id E m w;
     Some (sid, hput sid session_new m, w) }"

definition reg_len :: "registry \<Rightarrow> nat" where
  "reg_len m = length m"

definition reg_get :: "registry \<Rightarrow> u64 \<Rightarrow> session option" where
  "reg_get m sid = hget m sid"

definition reg_remove :: "registry \<Rightarrow> u64 \<Rightarrow> session option \<times> registry" where
  "reg_remove m sid = (hget m sid, hdel sid m)"

section \<open>Facts\<close>

text \<open>The world after \<open>n\<close> draws, and the id the next draw gives.\<close>

primrec draws :: "'w ext \<Rightarrow> nat \<Rightarrow> 'w \<Rightarrow> 'w" where
  "draws E 0 w = w"
| "draws E (Suc n) w = draws E n (snd (os_urandom E 8 w))"

definition drawn :: "'w ext \<Rightarrow> nat \<Rightarrow> 'w \<Rightarrow> u64" where
  "drawn E n w = u64_le (fst (os_urandom E 8 (draws E n w)))"

lemma fresh_id_good:
  assumes "fresh_id E m w = Some r"
  shows "good_id m (fst r)"
proof (rule fresh_id.raw_induct [where P = "\<lambda>E m w r. good_id m (fst r)", OF _ assms])
  fix f E' m' w' r'
  assume IH: "\<And>E m w r. f E m w = Some r \<Longrightarrow> good_id m (fst r)"
    and step: "(case os_urandom E' 8 w' of
      (b, w) \<Rightarrow> if good_id m' (u64_le b) then Some (u64_le b, w) else f E' m' w) = Some r'"
  show "good_id m' (fst r')"
    using step IH by (auto split: prod.splits if_splits)
qed

lemma fresh_id_returns:
  assumes "good_id m (drawn E n w)"
  shows "\<exists>sid w'. fresh_id E m w = Some (sid, w')"
  using assms
proof (induction n arbitrary: w)
  case 0
  then show ?case by (subst fresh_id.simps) (auto simp: drawn_def split: prod.splits)
next
  case (Suc n)
  then have "\<exists>sid w'. fresh_id E m (snd (os_urandom E 8 w)) = Some (sid, w')"
    by (simp add: drawn_def)
  then show ?case by (subst fresh_id.simps) (auto split: prod.splits)
qed

section \<open>Properties\<close>



end
