(* ===== verification/Crypto.thy ===== *)
theory Crypto
  imports Ext Wire
begin

text \<open>
  The SMB-specific constructions of \<open>src/src/crypto.rs\<close> over the primitives of \<open>Ext\<close>: the
  SP800-108 key derivation, RC4, message signatures, cipher parameters, and the
  constant-time comparison that signature and NTLMv2 verification share.
\<close>

section \<open>Key derivation\<close>

definition be32 :: "u32 \<Rightarrow> bytes" where
  "be32 w = rev (le32 w)"

definition kdf_input :: "u32 \<Rightarrow> bytes \<Rightarrow> bytes \<Rightarrow> u32 \<Rightarrow> bytes" where
  "kdf_input counter label context bits = be32 counter @ label @ [0] @ context @ be32 bits"

definition kdf128 :: "'w ext \<Rightarrow> bytes \<Rightarrow> bytes \<Rightarrow> bytes \<Rightarrow> bytes" where
  "kdf128 E key label context = take 16 (cr_hmac_sha256 E key (kdf_input 1 label context 128))"

partial_function (option) kdf_loop ::
  "'w ext \<Rightarrow> bytes \<Rightarrow> bytes \<Rightarrow> bytes \<Rightarrow> u32 \<Rightarrow> u32 \<Rightarrow> bytes \<Rightarrow> bytes option" where
  "kdf_loop E key label context bits counter out =
     (if length out < unat bits div 8
      then kdf_loop E key label context bits (counter + 1)
             (out @ cr_hmac_sha256 E key (kdf_input counter label context bits))
      else Some out)"

definition kdf :: "'w ext \<Rightarrow> bytes \<Rightarrow> bytes \<Rightarrow> bytes \<Rightarrow> u32 \<Rightarrow> bytes option" where
  "kdf E key label context bits = do {
     out \<leftarrow> kdf_loop E key label context bits 1 [];
     Some (take (unat bits div 8) out) }"

section \<open>RC4\<close>

definition swap :: "'a list \<Rightarrow> nat \<Rightarrow> nat \<Rightarrow> 'a list" where
  "swap s i j = s[i := s ! j, j := s ! i]"

fun rc4_schedule :: "bytes \<Rightarrow> nat list \<Rightarrow> bytes \<times> u8 \<Rightarrow> bytes \<times> u8" where
  "rc4_schedule key [] st = st"
| "rc4_schedule key (i # is) (s, j) =
     (let j = j + s ! i + key ! (i mod length key)
      in rc4_schedule key is (swap s i (unat j), j))"

definition rc4_init :: "bytes \<Rightarrow> bytes" where
  "rc4_init key = fst (rc4_schedule key [0..<256] (map word_of_nat [0..<256], 0))"

fun rc4_stream :: "bytes \<Rightarrow> u8 \<Rightarrow> u8 \<Rightarrow> bytes \<Rightarrow> bytes" where
  "rc4_stream s i j [] = []"
| "rc4_stream s i j (b # bs) =
     (let i = i + 1;
          j = j + s ! unat i;
          s = swap s (unat i) (unat j)
      in (b XOR s ! unat (s ! unat i + s ! unat j)) # rc4_stream s i j bs)"

text \<open>\<open>key[i % key.len()]\<close> panics on an empty key.\<close>

definition rc4 :: "bytes \<Rightarrow> bytes \<Rightarrow> bytes option" where
  "rc4 key data = (if key = [] then None else Some (rc4_stream (rc4_init key) 0 0 data))"

section \<open>Signatures\<close>

datatype sign_alg = HmacSha256 | AesCmac

definition smb2_signature :: "'w ext \<Rightarrow> sign_alg \<Rightarrow> bytes \<Rightarrow> bytes \<Rightarrow> bytes" where
  "smb2_signature E alg key msg =
     (case alg of
        HmacSha256 \<Rightarrow> take 16 (cr_hmac_sha256 E key msg)
      | AesCmac \<Rightarrow> cr_aes128_cmac E key msg)"

text \<open>The comparison without early exit: the OR of the XORs of corresponding bytes.\<close>

definition ct_diff :: "bytes \<Rightarrow> bytes \<Rightarrow> u8" where
  "ct_diff xs ys = foldl (\<lambda>a (x, y). a OR (x XOR y)) 0 (zip xs ys)"

section \<open>Ciphers\<close>

abbreviation (input) CIPHER_AES128_CCM :: u16 where "CIPHER_AES128_CCM \<equiv> 1"
abbreviation (input) CIPHER_AES128_GCM :: u16 where "CIPHER_AES128_GCM \<equiv> 2"
abbreviation (input) CIPHER_AES256_CCM :: u16 where "CIPHER_AES256_CCM \<equiv> 3"
abbreviation (input) CIPHER_AES256_GCM :: u16 where "CIPHER_AES256_GCM \<equiv> 4"

definition cipher_key_len :: "u16 \<Rightarrow> nat" where
  "cipher_key_len c = (if c = CIPHER_AES256_GCM \<or> c = CIPHER_AES256_CCM then 32 else 16)"

definition cipher_nonce_len :: "u16 \<Rightarrow> nat" where
  "cipher_nonce_len c = (if c = CIPHER_AES128_CCM \<or> c = CIPHER_AES256_CCM then 11 else 12)"

definition smb311_encryption_keys :: "'w ext \<Rightarrow> u16 \<Rightarrow> bytes \<Rightarrow> bytes \<Rightarrow> (bytes \<times> bytes) option" where
  "smb311_encryption_keys E cipher session_key preauth = do {
     let bits = word_of_nat (cipher_key_len cipher * 8);
     c2s \<leftarrow> kdf E session_key (bstr ''SMBC2SCipherKey'' @ [0]) preauth bits;
     s2c \<leftarrow> kdf E session_key (bstr ''SMBS2CCipherKey'' @ [0]) preauth bits;
     c \<leftarrow> copy_at (replicate 32 0) 0 c2s;
     s \<leftarrow> copy_at (replicate 32 0) 0 s2c;
     Some (c, s) }"

section \<open>Facts\<close>

lemma kdf_loop_total:
  assumes h: "\<And>k m. length (cr_hmac_sha256 E k m) = 32"
  shows "\<exists>tail. kdf_loop E key label context bits counter out = Some (out @ tail) \<and>
    unat bits div 8 \<le> length (out @ tail)"
proof (induction "unat bits div 8 - length out" arbitrary: counter out rule: less_induct)
  case less
  show ?case
  proof (cases "length out < unat bits div 8")
    case True
    let ?blk = "cr_hmac_sha256 E key (kdf_input counter label context bits)"
    have "unat bits div 8 - length (out @ ?blk) < unat bits div 8 - length out"
      using True h by simp
    from less [OF this, of "counter + 1"] obtain tail where
      "kdf_loop E key label context bits (counter + 1) (out @ ?blk) = Some ((out @ ?blk) @ tail)"
      "unat bits div 8 \<le> length ((out @ ?blk) @ tail)" by blast
    with True show ?thesis
      by (subst kdf_loop.simps) (auto intro!: exI [of _ "?blk @ tail"])
  next
    case False
    then show ?thesis by (subst kdf_loop.simps) simp
  qed
qed

lemma kdf_total:
  assumes "\<And>k m. length (cr_hmac_sha256 E k m) = 32"
  shows "\<exists>out. kdf E key label context bits = Some out \<and> length out = unat bits div 8"
proof -
  obtain t where "kdf_loop E key label context bits 1 [] = Some ([] @ t)"
    "unat bits div 8 \<le> length ([] @ t)"
    using kdf_loop_total [OF assms] by blast
  then show ?thesis by (auto simp: kdf_def)
qed

lemma crypto_okD:
  assumes "crypto_ok E"
  shows "length (cr_hmac_sha256 E k m) = 32" and "length (cr_aes128_cmac E k m) = 16"
    and "length (cr_sha512 E m) = 64" and "length (cr_hmac_md5 E k m) = 16"
    and "length (fst (cr_aead_seal E c k n a m)) = length m"
    and "length (snd (cr_aead_seal E c k n a m)) = 16"
  using assms by (auto simp: crypto_ok_def)

lemma cipher_key_len_cases: "cipher_key_len c = 16 \<or> cipher_key_len c = 32"
  by (simp add: cipher_key_len_def)

lemma cipher_nonce_len_bound: "cipher_nonce_len c \<le> 12" "0 < cipher_nonce_len c"
  by (simp_all add: cipher_nonce_len_def)

lemma smb2_signature_length: "crypto_ok E \<Longrightarrow> length (smb2_signature E alg key msg) = 16"
  by (cases alg) (simp_all add: smb2_signature_def crypto_okD)

lemma encryption_keys_total:
  assumes "crypto_ok E"
  shows "\<exists>c s. smb311_encryption_keys E cipher sk pre = Some (c, s) \<and> length c = 32 \<and> length s = 32"
proof -
  have h: "\<And>k m. length (cr_hmac_sha256 E k m) = 32" using crypto_okD(1) [OF assms] .
  define bits :: u32 where "bits = word_of_nat (cipher_key_len cipher * 8)"
  have b: "unat bits div 8 \<le> 32"
    using cipher_key_len_cases [of cipher] by (auto simp: bits_def)
  obtain x y where x: "kdf E sk (bstr ''SMBC2SCipherKey'' @ [0]) pre bits = Some x" "length x \<le> 32"
    and y: "kdf E sk (bstr ''SMBS2CCipherKey'' @ [0]) pre bits = Some y" "length y \<le> 32"
    using kdf_total [OF h] b by metis
  with x(1) y(1) show ?thesis
    unfolding smb311_encryption_keys_def Let_def bits_def [symmetric] by (simp add: copy_at_def)
qed

lemma or_zero_iff: "(a :: u8) OR b = 0 \<longleftrightarrow> a = 0 \<and> b = 0"
  by (rule or_eq_0_iff)

lemma xor_zero_iff: "(a :: u8) XOR b = 0 \<longleftrightarrow> a = b"
  by (auto simp: bit_eq_iff bit_xor_iff)

lemma ct_fold_zero:
  "foldl (\<lambda>a (x, y). a OR (x XOR y)) (c :: u8) ps = 0 \<longleftrightarrow> c = 0 \<and> (\<forall>(x, y) \<in> set ps. x = y)"
  by (induction ps arbitrary: c) (auto simp: or_zero_iff xor_zero_iff)

lemma ct_diff_eq: "length xs = length ys \<Longrightarrow> ct_diff xs ys = 0 \<longleftrightarrow> xs = ys"
  unfolding ct_diff_def ct_fold_zero
  by (induction xs ys rule: list_induct2) auto

lemma length_rc4_stream [simp]: "length (rc4_stream s i j bs) = length bs"
  by (induction s i j bs rule: rc4_stream.induct) (auto simp: Let_def)

lemma rc4_stream_involution: "rc4_stream s i j (rc4_stream s i j bs) = bs"
proof (induction s i j bs rule: rc4_stream.induct)
  case (2 s i j b bs)
  show ?case
    using 2 [OF refl refl refl] by (simp add: Let_def xor.assoc)
qed simp

section \<open>Properties\<close>

text \<open>The dedicated 128-bit key derivation that signing keys use is the general
  counter-mode derivation that cipher keys use, at 128 bits: the loop returns after one block
  and truncates it.\<close>

lemma kdf128_is_kdf:
  assumes "crypto_ok E"
  shows "kdf E key label context 128 = Some (kdf128 E key label context)"
proof -
  have "kdf_loop E key label context 128 1 [] = Some (cr_hmac_sha256 E key (kdf_input 1 label context 128))"
    using crypto_okD(1) [OF assms] by (subst kdf_loop.simps, subst kdf_loop.simps) simp
  then show ?thesis by (simp add: kdf_def kdf128_def)
qed

lemma kdf128_is_kdf_witness:
  "kdf demo [1, 2] [3] [4] 128 = Some (kdf128 demo [1, 2] [3] [4])"
  by (rule kdf128_is_kdf [OF crypto_ok_unit])



end
