(* ===== verification/Lease.thy ===== *)
theory Lease
  imports Prelude
begin

text \<open>
  Read-caching leases and the break mailboxes of \<open>src/src/lease.rs\<close>. The lease table is
  proved to refine a map from (file, lease key) to grants (locale \<open>lease_store\<close>), which is
  what CREATE, WRITE, CLOSE and connection teardown rely on.
\<close>

section \<open>Data\<close>

record break_msg =
  bm_wid :: nat
  bm_conn_idx :: nat
  bm_conn_gen :: u16
  bm_lease_key :: bytes
  bm_cur_state :: u32
  bm_new_state :: u32
  bm_epoch :: u16
  bm_session_id :: u64

record lease_grant =
  lg_key :: bytes
  lg_state :: u32
  lg_epoch :: u16
  lg_session_id :: u64
  lg_wid :: nat
  lg_conn_idx :: nat
  lg_conn_gen :: u16

type_synonym file_key = "u32 \<times> u64"
type_synonym lease_table = "(file_key, lease_grant list) hmap"

section \<open>Operations\<close>

text \<open>Replace the first grant with the same lease key, or push.\<close>

fun grant_list :: "lease_grant \<Rightarrow> lease_grant list \<Rightarrow> lease_grant list" where
  "grant_list g [] = [g]"
| "grant_list g (e # es) = (if lg_key e = lg_key g then g # es else e # grant_list g es)"

definition lt_grant :: "file_key \<Rightarrow> lease_grant \<Rightarrow> lease_table \<Rightarrow> lease_table" where
  "lt_grant key g m =
     hput key (grant_list g (case hget m key of None \<Rightarrow> [] | Some v \<Rightarrow> v)) m"

definition break_of :: "lease_grant \<Rightarrow> break_msg" where
  "break_of g = \<lparr>bm_wid = lg_wid g, bm_conn_idx = lg_conn_idx g, bm_conn_gen = lg_conn_gen g,
     bm_lease_key = lg_key g, bm_cur_state = lg_state g, bm_new_state = 0,
     bm_epoch = lg_epoch g + 1, bm_session_id = lg_session_id g\<rparr>"

definition store_or_drop :: "'k \<Rightarrow> 'v list \<Rightarrow> ('k, 'v list) hmap \<Rightarrow> ('k, 'v list) hmap" where
  "store_or_drop key v m = (if v = [] then hdel key m else hput key v m)"

definition break_conflicts ::
  "file_key \<Rightarrow> bytes option \<Rightarrow> lease_table \<Rightarrow> break_msg list \<times> lease_table" where
  "break_conflicts key writer_key m =
     (case hget m key of
        None \<Rightarrow> ([], m)
      | Some v \<Rightarrow>
          (map break_of (filter (\<lambda>g. writer_key \<noteq> Some (lg_key g)) v),
           store_or_drop key (filter (\<lambda>g. writer_key = Some (lg_key g)) v) m))"

definition lt_release :: "file_key \<Rightarrow> bytes \<Rightarrow> lease_table \<Rightarrow> lease_table" where
  "lt_release key lk m =
     (case hget m key of
        None \<Rightarrow> m
      | Some v \<Rightarrow> store_or_drop key (filter (\<lambda>g. lg_key g \<noteq> lk) v) m)"

definition held_by :: "nat \<Rightarrow> nat \<Rightarrow> u16 \<Rightarrow> lease_grant \<Rightarrow> bool" where
  "held_by wid i gen g \<longleftrightarrow> lg_wid g = wid \<and> lg_conn_idx g = i \<and> lg_conn_gen g = gen"

definition release_conn :: "nat \<Rightarrow> nat \<Rightarrow> u16 \<Rightarrow> lease_table \<Rightarrow> lease_table" where
  "release_conn wid i gen m =
     filter (\<lambda>(_, v). v \<noteq> []) (map (\<lambda>(k, v). (k, filter (\<lambda>g. \<not> held_by wid i gen g) v)) m)"

section \<open>Mailboxes\<close>

text \<open>The eventfd is its counter; \<open>mb_efd < 0\<close> when there is none.\<close>

record mailbox =
  mb_efd :: int
  mb_count :: nat
  mb_queue :: "break_msg list"

definition mb_post :: "break_msg \<Rightarrow> mailbox \<Rightarrow> mailbox" where
  "mb_post m b =
     (let b = b\<lparr>mb_queue := mb_queue b @ [m]\<rparr>
      in if mb_efd b \<ge> 0 then b\<lparr>mb_count := mb_count b + 1\<rparr> else b)"

definition mb_drain :: "mailbox \<Rightarrow> break_msg list \<times> mailbox" where
  "mb_drain b = (mb_queue b, b\<lparr>mb_queue := []\<rparr>)"

section \<open>The abstract table\<close>

definition lt_abs :: "lease_table \<Rightarrow> file_key \<times> bytes \<Rightarrow> lease_grant option" where
  "lt_abs m = (\<lambda>(key, lk).
     case hget m key of None \<Rightarrow> None | Some v \<Rightarrow> find (\<lambda>g. lg_key g = lk) v)"

definition grants_ok :: "lease_grant list \<Rightarrow> bool" where
  "grants_ok v \<longleftrightarrow> v \<noteq> [] \<and> distinct (map lg_key v)"

definition lt_ok :: "lease_table \<Rightarrow> bool" where
  "lt_ok m \<longleftrightarrow> hmap_ok m \<and> (\<forall>(k, v) \<in> set m. grants_ok v)"

lemma lt_ok_Nil [simp]: "lt_ok []"
  by (simp add: lt_ok_def)

lemma lt_ok_get: "lt_ok m \<Longrightarrow> hget m key = Some v \<Longrightarrow> grants_ok v"
  by (auto simp: lt_ok_def dest: hget_Some_mem)

lemma lt_ok_hput: "lt_ok m \<Longrightarrow> grants_ok v \<Longrightarrow> lt_ok (hput key v m)"
  using set_hput_subset [of key v m] by (auto simp: lt_ok_def)

lemma lt_ok_hdel: "lt_ok m \<Longrightarrow> lt_ok (hdel key m)"
  by (auto simp: lt_ok_def set_hdel)

lemma grants_ok_filter:
  "grants_ok v \<Longrightarrow> filter P v \<noteq> [] \<Longrightarrow> grants_ok (filter P v)"
  by (simp add: grants_ok_def distinct_map_filter)

lemma lt_ok_store: "lt_ok m \<Longrightarrow> grants_ok v \<Longrightarrow> lt_ok (store_or_drop key (filter P v) m)"
  by (simp add: store_or_drop_def lt_ok_hdel lt_ok_hput grants_ok_filter)

lemma lg_keys_grant_list: "set (map lg_key (grant_list g v)) = insert (lg_key g) (set (map lg_key v))"
  by (induction v) auto

lemma grants_ok_grant_list: "distinct (map lg_key v) \<Longrightarrow> grants_ok (grant_list g v)"
proof (induction v)
  case (Cons e es)
  then show ?case
    using lg_keys_grant_list [of g es] by (auto simp: grants_ok_def)
qed (simp add: grants_ok_def)

lemma find_grant_list:
  "find (\<lambda>e. lg_key e = lk) (grant_list g v) =
    (if lk = lg_key g then Some g else find (\<lambda>e. lg_key e = lk) v)"
  by (induction v) auto

lemma find_filter_keys:
  "distinct (map lg_key v) \<Longrightarrow>
   find (\<lambda>e. lg_key e = lk) (filter P v) =
    (case find (\<lambda>e. lg_key e = lk) v of None \<Rightarrow> None | Some g \<Rightarrow> if P g then Some g else None)"
proof (induction v)
  case (Cons e es)
  have "find (\<lambda>e'. lg_key e' = lg_key e) (filter P es) = None"
    using Cons.prems by (auto simp: find_None_iff image_iff)
  with Cons show ?case by auto
qed simp

lemma find_lg_key: "find (\<lambda>g. lg_key g = lk) v = Some g \<Longrightarrow> lg_key g = lk \<and> g \<in> set v"
  by (auto simp: find_Some_iff)

lemma find_distinct:
  "distinct (map lg_key v) \<Longrightarrow> g \<in> set v \<Longrightarrow> find (\<lambda>e. lg_key e = lg_key g) v = Some g"
  by (induction v) (auto simp: image_iff)

lemma lt_abs_store:
  "grants_ok v \<Longrightarrow> lt_abs (store_or_drop key (filter P v) m) (k, lk) =
    (if k = key then (case find (\<lambda>e. lg_key e = lk) v of None \<Rightarrow> None | Some g \<Rightarrow> if P g then Some g else None)
     else lt_abs m (k, lk))"
  using find_filter_keys [of v lk P]
  by (auto simp: lt_abs_def store_or_drop_def grants_ok_def)

lemma lt_abs_key: "lt_abs m (k, lk) = Some g \<Longrightarrow> lg_key g = lk"
  by (auto simp: lt_abs_def dest: find_lg_key split: option.splits)

lemma hget_release_conn:
  assumes "hmap_ok m"
  shows "hget (release_conn wid i gen m) k =
    (case hget m k of None \<Rightarrow> None
     | Some v \<Rightarrow> let v' = filter (\<lambda>g. \<not> held_by wid i gen g) v in if v' = [] then None else Some v')"
  using assms unfolding release_conn_def hmap_ok_def
proof (induction m)
  case (Cons p m)
  obtain a b where p: "p = (a, b)" by (cases p) simp
  show ?case
  proof (cases "k = a")
    case True
    then have "hget m k = None" using Cons.prems p by (auto simp: map_of_eq_None_iff image_iff)
    with Cons True p show ?thesis by (auto simp: Let_def)
  next
    case False
    with Cons p show ?thesis by auto
  qed
qed simp

section \<open>The contract of the lease table\<close>

locale lease_store =
  fixes abs :: "'t \<Rightarrow> file_key \<times> bytes \<Rightarrow> lease_grant option"
    and invar :: "'t \<Rightarrow> bool"
    and grant :: "file_key \<Rightarrow> lease_grant \<Rightarrow> 't \<Rightarrow> 't"
    and break :: "file_key \<Rightarrow> bytes option \<Rightarrow> 't \<Rightarrow> break_msg list \<times> 't"
    and release :: "file_key \<Rightarrow> bytes \<Rightarrow> 't \<Rightarrow> 't"
    and drop_conn :: "nat \<Rightarrow> nat \<Rightarrow> u16 \<Rightarrow> 't \<Rightarrow> 't"
  assumes abs_key: "invar t \<Longrightarrow> abs t (k, lk) = Some g \<Longrightarrow> lg_key g = lk"
    and grant_ok: "invar t \<Longrightarrow> invar (grant k g t) \<and> abs (grant k g t) = (abs t)((k, lg_key g) \<mapsto> g)"
    and break_ok: "invar t \<Longrightarrow> break k wk t = (bs, t') \<Longrightarrow>
      invar t' \<and> set bs = {break_of g | g lk. abs t (k, lk) = Some g \<and> wk \<noteq> Some lk} \<and>
      length bs = card {lk. abs t (k, lk) \<noteq> None \<and> wk \<noteq> Some lk} \<and>
      (\<forall>k' lk. abs t' (k', lk) = (if k' = k \<and> wk \<noteq> Some lk then None else abs t (k', lk)))"
    and release_ok: "invar t \<Longrightarrow>
      invar (release k lk t) \<and> abs (release k lk t) = (abs t)((k, lk) := None)"
    and drop_ok: "invar t \<Longrightarrow> invar (drop_conn w i n t) \<and>
      (\<forall>x. abs (drop_conn w i n t) x =
        (case abs t x of None \<Rightarrow> None | Some g \<Rightarrow> if held_by w i n g then None else Some g))"
begin

lemma break_abs:
  "invar t \<Longrightarrow> break k wk t = (bs, t') \<Longrightarrow>
    abs t' (k', lk) = (if k' = k \<and> wk \<noteq> Some lk then None else abs t (k', lk))"
  using break_ok by blast

text \<open>A second conflicting access by the same writer finds nothing left to break.\<close>

lemma break_idem:
  assumes "invar t" and "break k wk t = (bs, t')" and "break k wk t' = (bs', t'')"
  shows "bs' = []"
proof -
  have t': "invar t'" and n: "\<And>lk. wk \<noteq> Some lk \<Longrightarrow> abs t' (k, lk) = None"
    using break_ok [OF assms(1,2)] break_abs [OF assms(1,2)] by auto
  have "set bs' = {break_of g | g lk. abs t' (k, lk) = Some g \<and> wk \<noteq> Some lk}"
    using break_ok [OF t' assms(3)] by blast
  then have "set bs' = {}" using n by auto
  then show ?thesis by simp
qed

text \<open>A torn-down connection gets no break for a lease granted before.\<close>

lemma dropped_conn_quiet:
  assumes "invar t" and "break k wk (drop_conn w i n t) = (bs, t')" and "b \<in> set bs"
  shows "\<not> (bm_wid b = w \<and> bm_conn_idx b = i \<and> bm_conn_gen b = n)"
proof -
  obtain g lk where g: "abs (drop_conn w i n t) (k, lk) = Some g" "b = break_of g"
    using break_ok [OF _ assms(2)] drop_ok [OF assms(1)] assms(3) by blast
  then have "\<not> held_by w i n g"
    using drop_ok [OF assms(1), of w i n] by (auto split: option.splits if_splits)
  with g(2) show ?thesis by (simp add: held_by_def break_of_def)
qed

text \<open>The holder of a lease hears of the first write by anybody else.\<close>

lemma granted_then_broken:
  assumes "invar t" and "break k wk (grant k g t) = (bs, t')" and "wk \<noteq> Some (lg_key g)"
  shows "break_of g \<in> set bs \<and> abs t' (k, lg_key g) = None"
proof -
  have "invar (grant k g t)" and a: "abs (grant k g t) (k, lg_key g) = Some g"
    using grant_ok [OF assms(1), of k g] by simp_all
  from break_ok [OF this(1) assms(2)] break_abs [OF this(1) assms(2)] have
    "set bs = {break_of g' | g' lk. abs (grant k g t) (k, lk) = Some g' \<and> wk \<noteq> Some lk}"
    "abs t' (k, lg_key g) = None" using assms(3) by simp_all
  with a assms(3) show ?thesis by blast
qed

end

text \<open>The law of \<^const>\<open>break_conflicts\<close> for one file's grants.\<close>

lemma break_conflicts_spec:
  assumes ok: "lt_ok m" and b: "break_conflicts k wk m = (bs, m')"
  shows "lt_ok m' \<and> set bs = {break_of g | g lk. lt_abs m (k, lk) = Some g \<and> wk \<noteq> Some lk} \<and>
    length bs = card {lk. lt_abs m (k, lk) \<noteq> None \<and> wk \<noteq> Some lk} \<and>
    (\<forall>k' lk. lt_abs m' (k', lk) = (if k' = k \<and> wk \<noteq> Some lk then None else lt_abs m (k', lk)))"
proof (cases "hget m k")
  case None
  with b have e: "bs = []" "m' = m" by (auto simp: break_conflicts_def)
  from None have n: "lt_abs m (k, lk) = None" for lk by (simp add: lt_abs_def)
  show ?thesis using ok by (simp add: e n)
next
  case (Some v)
  have v: "grants_ok v" using lt_ok_get [OF ok Some] .
  then have d: "distinct (map lg_key v)" by (simp add: grants_ok_def)
  have f: "lt_abs m (k, lk) = Some g \<longleftrightarrow> g \<in> set v \<and> lg_key g = lk" for lk g
    using find_lg_key [of lk v g] find_distinct [OF d, of g] Some by (auto simp: lt_abs_def)
  define hit where "hit = filter (\<lambda>g. wk \<noteq> Some (lg_key g)) v"
  have e: "bs = map break_of hit" "m' = store_or_drop k (filter (\<lambda>g. wk = Some (lg_key g)) v) m"
    using b Some by (auto simp: break_conflicts_def hit_def)
  have "set bs = {break_of g | g lk. lt_abs m (k, lk) = Some g \<and> wk \<noteq> Some lk}"
    by (auto simp: e hit_def f)
  moreover have "length bs = card {lk. lt_abs m (k, lk) \<noteq> None \<and> wk \<noteq> Some lk}"
  proof -
    have "{lk. lt_abs m (k, lk) \<noteq> None \<and> wk \<noteq> Some lk} = set (map lg_key hit)"
      by (auto simp: hit_def f)
    moreover have "distinct (map lg_key hit)"
      using d by (simp add: hit_def distinct_map_filter)
    ultimately show ?thesis by (metis distinct_card e(1) length_map)
  qed
  moreover have "lt_abs m' (k', lk) = (if k' = k \<and> wk \<noteq> Some lk then None else lt_abs m (k', lk))" for k' lk
    unfolding e lt_abs_store [OF v] using Some
    by (auto simp: lt_abs_def dest: find_lg_key split: option.splits)
  ultimately show ?thesis
    using lt_ok_store [OF ok v] e by simp
qed

lemma lt_grant_spec:
  assumes "lt_ok m"
  shows "lt_ok (lt_grant k g m) \<and> lt_abs (lt_grant k g m) = (lt_abs m)((k, lg_key g) \<mapsto> g)"
proof -
  have "distinct (map lg_key (case hget m k of None \<Rightarrow> [] | Some v \<Rightarrow> v))"
    using lt_ok_get [OF assms] by (auto simp: grants_ok_def split: option.splits)
  then have "lt_ok (lt_grant k g m)"
    using assms by (simp add: lt_grant_def lt_ok_hput grants_ok_grant_list)
  moreover have "lt_abs (lt_grant k g m) x = ((lt_abs m)((k, lg_key g) \<mapsto> g)) x" for x
    by (cases x) (auto simp: lt_abs_def lt_grant_def find_grant_list split: option.splits)
  ultimately show ?thesis by auto
qed

lemma lt_release_spec:
  assumes "lt_ok m"
  shows "lt_ok (lt_release k lk m) \<and> lt_abs (lt_release k lk m) = (lt_abs m)((k, lk) := None)"
proof (cases "hget m k")
  case None
  with assms show ?thesis by (auto simp: lt_release_def lt_abs_def fun_eq_iff)
next
  case (Some v)
  have v: "grants_ok v" using lt_ok_get [OF assms Some] .
  have "lt_abs (lt_release k lk m) x = ((lt_abs m)((k, lk) := None)) x" for x
  proof (cases x)
    case (Pair k' lk')
    with Some lt_abs_store [OF v, of k "\<lambda>g. lg_key g \<noteq> lk" m k' lk'] show ?thesis
      by (auto simp: lt_release_def lt_abs_def dest: find_lg_key split: option.splits)
  qed
  with Some v assms show ?thesis
    by (auto simp: lt_release_def lt_ok_store)
qed

lemma release_conn_spec:
  assumes "lt_ok m"
  shows "lt_ok (release_conn w i n m) \<and> (\<forall>x. lt_abs (release_conn w i n m) x =
    (case lt_abs m x of None \<Rightarrow> None | Some g \<Rightarrow> if held_by w i n g then None else Some g))"
proof -
  have h: "hmap_ok m" and g: "\<And>k v. (k, v) \<in> set m \<Longrightarrow> grants_ok v"
    using assms by (auto simp: lt_ok_def)
  have "hmap_ok (release_conn w i n m)"
    using h by (simp add: hmap_ok_def release_conn_def distinct_map_filter split_def comp_def)
  then have "lt_ok (release_conn w i n m)"
    using g by (auto simp: lt_ok_def release_conn_def intro: grants_ok_filter)
  moreover have "lt_abs (release_conn w i n m) x =
      (case lt_abs m x of None \<Rightarrow> None | Some g \<Rightarrow> if held_by w i n g then None else Some g)" for x
  proof (cases x)
    case (Pair k lk)
    show ?thesis
    proof (cases "hget m k")
      case None
      with Pair show ?thesis by (simp add: lt_abs_def hget_release_conn [OF h])
    next
      case (Some v)
      then have "distinct (map lg_key v)" using lt_ok_get [OF assms] by (simp add: grants_ok_def)
      from find_filter_keys [OF this, of lk "\<lambda>g. \<not> held_by w i n g"] Some Pair show ?thesis
        by (auto simp: lt_abs_def hget_release_conn [OF h] Let_def split: option.splits if_splits)
    qed
  qed
  ultimately show ?thesis by simp
qed

interpretation lt: lease_store lt_abs lt_ok lt_grant break_conflicts lt_release release_conn
  by unfold_locales
    (erule lt_abs_key, erule lt_grant_spec, erule (1) break_conflicts_spec, erule lt_release_spec,
     erule release_conn_spec)

section \<open>Properties\<close>

definition sample_grant :: "u8 \<Rightarrow> nat \<Rightarrow> lease_grant" where
  "sample_grant k c = \<lparr>lg_key = replicate 16 k, lg_state = 1, lg_epoch = 0, lg_session_id = 9,
     lg_wid = 0, lg_conn_idx = c, lg_conn_gen = 1\<rparr>"

definition sample_leases :: lease_table where
  "sample_leases = [((0, 5), [sample_grant 1 10, sample_grant 2 20])]"

lemma lt_ok_sample [simp]: "lt_ok sample_leases"
  by (simp add: lt_ok_def sample_leases_def hmap_ok_def grants_ok_def sample_grant_def)

text \<open>(C16) A conflicting access breaks exactly the leases of other keys: the messages are the
  breaks of the grants on that file whose lease key is not the writer's, one per such key;
  afterwards exactly these grants are gone, and every other file and the writer's own lease
  are untouched.\<close>

theorem break_exact:
  assumes "lt_ok m" and "break_conflicts k wk m = (bs, m')"
  shows "lt_ok m' \<and> set bs = {break_of g | g lk. lt_abs m (k, lk) = Some g \<and> wk \<noteq> Some lk} \<and>
    length bs = card {lk. lt_abs m (k, lk) \<noteq> None \<and> wk \<noteq> Some lk} \<and>
    lt_abs m' (k', lk) = (if k' = k \<and> wk \<noteq> Some lk then None else lt_abs m (k', lk))"
  using lt.break_ok [OF assms] lt.break_abs [OF assms] by blast

theorem break_exact_witness:
  "lt_abs (snd (break_conflicts (0, 5) (Some (replicate 16 1)) sample_leases)) ((0, 5), replicate 16 2) = None \<and>
   lt_abs (snd (break_conflicts (0, 5) (Some (replicate 16 1)) sample_leases)) ((0, 5), replicate 16 1)
     = Some (sample_grant 1 10)"
proof -
  obtain bs m' where b: "break_conflicts (0, 5) (Some (replicate 16 1)) sample_leases = (bs, m')"
    by (rule prod.exhaust)
  have "lt_abs sample_leases ((0, 5), replicate 16 1) = Some (sample_grant 1 10)"
    by (simp add: lt_abs_def sample_leases_def sample_grant_def)
  then show ?thesis
    using break_exact [OF lt_ok_sample b, of "(0, 5)" "replicate 16 1"]
      break_exact [OF lt_ok_sample b, of "(0, 5)" "replicate 16 2"]
    by (simp add: b)
qed





end
