(* ===== verification/Config.thy ===== *)
theory Config
  imports Strings Ext Vfs
begin

text \<open>
  The configuration of \<open>src/src/config.rs\<close>: its types, the derived settings, and the share,
  user and Kerberos parts of \<open>validate\<close>. TOML decoding (\<open>serde\<close>/\<open>toml\<close>) is outside the model;
  the values are what it yields. \<open>str::parse::<SocketAddr>\<close> and Unicode lower-casing are
  parameters. An error message is a value of \<open>config_err\<close>.
\<close>

section \<open>Types\<close>

datatype auth_mode = Ntlm | Kerberos | Both

definition allows_ntlm :: "auth_mode \<Rightarrow> bool" where
  "allows_ntlm a \<longleftrightarrow> a = Ntlm \<or> a = Both"

definition allows_kerberos :: "auth_mode \<Rightarrow> bool" where
  "allows_kerberos a \<longleftrightarrow> a = Kerberos \<or> a = Both"

record kerberos_cfg =
  k_enabled :: bool
  k_keytab :: "path option"
  k_spn :: "rstr option"
  k_realm :: "rstr option"

datatype acceptor_name = HostBased rstr | Principal rstr

record user_cfg =
  u_name :: rstr
  u_password :: "rstr option"
  u_nt_hash :: "rstr option"

record share_cfg =
  sh_name :: rstr
  sh_path :: path
  sh_read_only :: bool
  sh_valid_users :: "rstr list"
  sh_invalid_users :: "rstr list"
  sh_read_only_users :: "rstr list"

record group_cfg =
  g_name :: rstr
  g_sid :: "rstr option"
  g_members :: "rstr list"

record config =
  c_listen :: rstr
  c_workers :: nat
  c_server_name :: rstr
  c_log_level :: u8
  c_allow_guest :: "bool option"
  c_require_signing :: "bool option"
  c_multichannel :: bool
  c_encrypt :: bool
  c_advertise_only :: "rstr list"
  c_core_pinning :: bool
  c_sqpoll :: bool
  c_health_listen :: "rstr option"
  c_prefer_aes256 :: bool
  c_oplocks :: bool
  c_auth :: auth_mode
  c_kerberos :: "kerberos_cfg option"
  c_shares :: "share_cfg list"
  c_users :: "user_cfg list"
  c_groups :: "group_cfg list"

text \<open>The defaults \<open>serde\<close> fills in for absent keys.\<close>

definition default_config :: config where
  "default_config = \<lparr>c_listen = str ''0.0.0.0:445'', c_workers = 0, c_server_name = str ''ROCKETSMBD'',
     c_log_level = 1, c_allow_guest = None, c_require_signing = None, c_multichannel = False,
     c_encrypt = False, c_advertise_only = [], c_core_pinning = True, c_sqpoll = False,
     c_health_listen = None, c_prefer_aes256 = False, c_oplocks = True, c_auth = Both,
     c_kerberos = None, c_shares = [], c_users = [], c_groups = []\<rparr>"

datatype config_err =
    Bad_listen | Bad_health_listen | No_share | Bad_share_name rstr | Dup_share rstr
  | Not_a_directory rstr | Reserved_share | Bad_user rstr | Bad_secret rstr
  | Bad_realm rstr | Bad_spn rstr | Spn_realm_mismatch rstr
  | Empty_user_name | Bad_dom_user rstr | Bad_principal rstr | Bad_sid rstr | Unknown_group rstr
  | Bad_group_name rstr | Empty_group rstr | Bad_group_sid rstr | Nested_group rstr

section \<open>Derived settings\<close>

definition kerberos_configured :: "config \<Rightarrow> bool" where
  "kerberos_configured c \<longleftrightarrow>
     (case c_kerberos c of None \<Rightarrow> False | Some k \<Rightarrow> k_enabled k) \<or> c_auth c = Kerberos"

definition guest_allowed :: "config \<Rightarrow> bool" where
  "guest_allowed c =
     (case c_allow_guest c of Some b \<Rightarrow> b | None \<Rightarrow> c_users c = [] \<and> \<not> kerberos_configured c)"

definition signing_required :: "config \<Rightarrow> bool" where
  "signing_required c = (case c_require_signing c of Some b \<Rightarrow> b | None \<Rightarrow> False)"

fun replace_first :: "nat \<Rightarrow> rstr \<Rightarrow> rstr \<Rightarrow> rstr" where
  "replace_first d t [] = []"
| "replace_first d t (c # cs) = (if c = d then t @ cs else c # replace_first d t cs)"

definition krb_acceptor_name :: "config \<Rightarrow> acceptor_name" where
  "krb_acceptor_name c =
     (let spn = (case Option.bind (c_kerberos c) k_spn of
                   Some s \<Rightarrow> s | None \<Rightarrow> str ''cifs/'' @ c_server_name c)
      in if 64 \<in> set spn then Principal spn
         else (case Option.bind (c_kerberos c) k_realm of
                 Some realm \<Rightarrow> Principal (spn @ str ''@'' @ realm)
               | None \<Rightarrow> HostBased (replace_first 47 (str ''@'') spn)))"

section \<open>Validation\<close>

definition bare_realm :: "rstr \<Rightarrow> bool" where
  "bare_realm r \<longleftrightarrow> r \<noteq> [] \<and> 64 \<notin> set r \<and> 47 \<notin> set r"

definition realm_validate :: "kerberos_cfg \<Rightarrow> config_err + unit" where
  "realm_validate k =
     (case k_realm k of None \<Rightarrow> Inr () | Some r \<Rightarrow> ensure (bare_realm r) (Bad_realm r))"

definition spn_validate :: "kerberos_cfg \<Rightarrow> config_err + unit" where
  "spn_validate k =
     (case k_spn k of
        None \<Rightarrow> Inr ()
      | Some spn \<Rightarrow>
          (let (svc, realm) = (case split_once 64 spn of Some (a, b) \<Rightarrow> (a, Some b) | None \<Rightarrow> (spn, None))
           in if \<not> (case split_once 47 svc of Some (s, h) \<Rightarrow> s \<noteq> [] \<and> h \<noteq> [] | None \<Rightarrow> False)
                 \<or> (case realm of Some r \<Rightarrow> \<not> bare_realm r | None \<Rightarrow> False)
              then Inl (Bad_spn spn)
              else (case (realm, k_realm k) of
                      (Some a, Some b) \<Rightarrow> if a \<noteq> b then Inl (Spn_realm_mismatch spn) else Inr ()
                    | _ \<Rightarrow> Inr ())))"

definition kerberos_validate :: "kerberos_cfg \<Rightarrow> config_err + unit" where
  "kerberos_validate k = sbind (realm_validate k) (\<lambda>_. spn_validate k)"

definition path_is_dir :: "'w ext \<Rightarrow> path \<Rightarrow> 'w \<Rightarrow> bool" where
  "path_is_dir E p w = (case stat_meta E p w of Inl _ \<Rightarrow> False | Inr m \<Rightarrow> m_is_dir m)"

fun shares_validate :: "'w ext \<Rightarrow> 'w \<Rightarrow> rstr list \<Rightarrow> share_cfg list \<Rightarrow> config_err + unit" where
  "shares_validate E w seen [] = Inr ()"
| "shares_validate E w seen (s # ss) =
     (let lower = uc_lower E (sh_name s)
      in if sh_name s = [] \<or> BACKSLASH \<in> set (sh_name s) \<or> SLASH \<in> set (sh_name s)
         then Inl (Bad_share_name (sh_name s))
         else if lower \<in> set seen then Inl (Dup_share (sh_name s))
         else if \<not> path_is_dir E (sh_path s) w then Inl (Not_a_directory (sh_name s))
         else if eq_ignore_ascii_case (sh_name s) (str ''IPC$'') then Inl Reserved_share
         else shares_validate E w (seen @ [lower]) ss)"

definition is_ascii_hexdigit :: "nat \<Rightarrow> bool" where
  "is_ascii_hexdigit c \<longleftrightarrow> is_digit c \<or> (65 \<le> c \<and> c \<le> 70) \<or> (97 \<le> c \<and> c \<le> 102)"

definition secret_ok :: "user_cfg \<Rightarrow> bool" where
  "secret_ok u =
     (case (u_password u, u_nt_hash u) of
        (Some _, None) \<Rightarrow> True
      | (None, Some h) \<Rightarrow> byte_len h = 32 \<and> list_all is_ascii_hexdigit h
      | _ \<Rightarrow> False)"

fun users_validate :: "'w ext \<Rightarrow> rstr list \<Rightarrow> user_cfg list \<Rightarrow> config_err + unit" where
  "users_validate E seen [] = Inr ()"
| "users_validate E seen (u # us) =
     (let lower = uc_lower E (u_name u)
      in if u_name u = [] \<or> lower \<in> set seen then Inl (Bad_user (u_name u))
         else if \<not> secret_ok u then Inl (Bad_secret (u_name u))
         else users_validate E (seen @ [lower]) us)"

section \<open>The user database\<close>

definition hex_digit :: "nat \<Rightarrow> nat" where
  "hex_digit c = (if is_digit c then c - 48 else if c \<le> 70 then c - 55 else c - 87)"

text \<open>The 16 bytes of a validated hash. \<open>secret_ok\<close> makes every character an ASCII hex digit,
  so byte offsets are character offsets and \<open>from_str_radix\<close> does not fail.\<close>

fun hex_bytes :: "rstr \<Rightarrow> bytes" where
  "hex_bytes (a # b # cs) = word_of_nat (hex_digit a * 16 + hex_digit b) # hex_bytes cs"
| "hex_bytes _ = []"

definition nt_hash :: "'w ext \<Rightarrow> rstr \<Rightarrow> bytes" where
  "nt_hash E password = cr_md4 E (utf16le password)"

definition user_hash :: "'w ext \<Rightarrow> user_cfg \<Rightarrow> bytes option" where
  "user_hash E u =
     (case (u_password u, u_nt_hash u) of
        (Some p, _) \<Rightarrow> Some (nt_hash E p)
      | (_, Some h) \<Rightarrow> Some (hex_bytes h)
      | _ \<Rightarrow> None)"

text \<open>\<open>collect\<close> into a \<open>HashMap\<close>: a later equal key replaces. \<open>None\<close> is the \<open>unreachable!\<close>.\<close>

fun user_db_loop :: "'w ext \<Rightarrow> user_cfg list \<Rightarrow> (rstr, bytes) hmap \<Rightarrow> (rstr, bytes) hmap option" where
  "user_db_loop E [] m = Some m"
| "user_db_loop E (u # us) m = do {
     h \<leftarrow> user_hash E u;
     user_db_loop E us (hput (uc_lower E (u_name u)) h m) }"

definition user_db :: "'w ext \<Rightarrow> config \<Rightarrow> (rstr, bytes) hmap option" where
  "user_db E c = user_db_loop E (c_users c) []"

section \<open>Facts\<close>

lemma shares_validate_names:
  assumes "shares_validate E w seen ss = Inr u"
  shows "distinct (map (\<lambda>s. uc_lower E (sh_name s)) ss) \<and>
    (\<forall>s \<in> set ss. sh_name s \<noteq> [] \<and> uc_lower E (sh_name s) \<notin> set seen \<and>
      \<not> eq_ignore_ascii_case (sh_name s) (str ''IPC$''))"
  using assms
proof (induction ss arbitrary: seen)
  case (Cons s ss)
  from Cons.IH [of "seen @ [uc_lower E (sh_name s)]"] Cons.prems show ?case
    by (auto simp: Let_def split: if_splits)
qed simp

lemma users_validate_ok:
  assumes "users_validate E seen us = Inr u"
  shows "distinct (map (\<lambda>u. uc_lower E (u_name u)) us) \<and> list_all secret_ok us \<and>
    (\<forall>u \<in> set us. uc_lower E (u_name u) \<notin> set seen)"
  using assms
proof (induction us arbitrary: seen)
  case (Cons x us)
  from Cons.IH [of "seen @ [uc_lower E (u_name x)]"] Cons.prems show ?case
    by (auto simp: Let_def split: if_splits)
qed simp

lemma secret_ok_hash: "secret_ok u \<Longrightarrow> \<exists>h. user_hash E u = Some h"
  by (auto simp: secret_ok_def user_hash_def split: option.splits)

lemma user_db_loop_total:
  assumes "list_all secret_ok us" and "distinct (map (\<lambda>u. uc_lower E (u_name u)) us)"
    and "\<forall>u \<in> set us. hget m (uc_lower E (u_name u)) = None"
  shows "\<exists>m'. user_db_loop E us m = Some m' \<and>
    (\<forall>k. hget m' k = (case find (\<lambda>u. uc_lower E (u_name u) = k) us of
       None \<Rightarrow> hget m k | Some u \<Rightarrow> user_hash E u))"
  using assms
proof (induction us arbitrary: m)
  case (Cons u us)
  let ?k = "uc_lower E (u_name u)"
  obtain h where h: "user_hash E u = Some h" using Cons.prems secret_ok_hash by fastforce
  have "\<forall>u' \<in> set us. hget (hput ?k h m) (uc_lower E (u_name u')) = None"
    using Cons.prems(2,3) by (auto simp: image_iff)
  then obtain m' where
    m': "user_db_loop E us (hput ?k h m) = Some m'"
      "\<forall>k. hget m' k = (case find (\<lambda>u. uc_lower E (u_name u) = k) us of
         None \<Rightarrow> hget (hput ?k h m) k | Some u \<Rightarrow> user_hash E u)"
    using Cons.IH [of "hput ?k h m"] Cons.prems(1,2) by auto
  have "find (\<lambda>u'. uc_lower E (u_name u') = ?k) us = None"
    using Cons.prems(2) by (auto simp: find_None_iff image_iff)
  with m' h show ?case by (auto split: option.splits)
qed simp

end
