(* ===== verification/Authz.thy ===== *)
theory Authz
  imports Config Pac
begin

text \<open>
  Per-share authorization, \<open>src/src/authz.rs\<close>, and the whole of \<open>Config::validate\<close> (which calls
  it). \<open>Entry::parse\<close> slices a string at byte 2, which panics inside a multi-byte character;
  the functions that reach it have an outer \<open>option\<close>.
\<close>

section \<open>Entries\<close>

definition WELL_KNOWN :: "(rstr \<times> u32) list" where
  "WELL_KNOWN =
     [(str ''domain admins'', 512), (str ''domain users'', 513), (str ''domain guests'', 514),
      (str ''domain computers'', 515), (str ''domain controllers'', 516), (str ''cert publishers'', 517),
      (str ''schema admins'', 518), (str ''enterprise admins'', 519),
      (str ''group policy creator owners'', 520), (str ''read-only domain controllers'', 521),
      (str ''cloneable domain controllers'', 522), (str ''protected users'', 525),
      (str ''key admins'', 526), (str ''enterprise key admins'', 527)]"

datatype user_pat = Bare rstr | PrincipalPat rstr | DomUser rstr rstr

datatype entry = User user_pat | GroupSid sid | WellKnown "rstr option" u32 | Table nat

abbreviation (input) AT :: nat where "AT \<equiv> 64"

definition user_pat_parse :: "rstr \<Rightarrow> config_err + user_pat" where
  "user_pat_parse s0 =
     (let s = trim s0
      in if s = [] then Inl Empty_user_name
         else (case split_once BACKSLASH s of
                 Some (d, n) \<Rightarrow>
                   if d = [] \<or> n = [] \<or> BACKSLASH \<in> set n \<or> AT \<in> set n then Inl (Bad_dom_user s)
                   else Inr (DomUser d n)
               | None \<Rightarrow>
                   (case rsplit_once AT s of
                      Some (u, r) \<Rightarrow> if u \<noteq> [] \<and> r \<noteq> [] then Inr (PrincipalPat s) else Inl (Bad_principal s)
                    | None \<Rightarrow> Inr (Bare s))))"

fun position :: "('a \<Rightarrow> bool) \<Rightarrow> 'a list \<Rightarrow> nat option" where
  "position P [] = None"
| "position P (x # xs) = (if P x then Some 0 else map_option Suc (position P xs))"

text \<open>The first two bytes compared with \<open>S-\<close>; evaluated only when the string is longer.\<close>

definition sid_prefix :: "rstr \<Rightarrow> bool option" where
  "sid_prefix g =
     (if byte_len g > 2 then map_option (\<lambda>p. eq_ignore_ascii_case p (str ''S-'')) (byte_prefix 2 g)
      else Some False)"

definition group_entry :: "rstr \<Rightarrow> config \<Rightarrow> config_err + entry" where
  "group_entry g cfg =
     (case position (\<lambda>t. eq_ignore_ascii_case (g_name t) g) (c_groups cfg) of
        Some i \<Rightarrow> Inr (Table i)
      | None \<Rightarrow>
          (let (domain, name) = (case split_once BACKSLASH g of
                                   Some (d, n) \<Rightarrow> if d \<noteq> [] then (Some d, n) else (None, g)
                                 | None \<Rightarrow> (None, g))
           in (case find (\<lambda>(n, _). eq_ignore_ascii_case n name) WELL_KNOWN of
                 Some (_, rid) \<Rightarrow> Inr (WellKnown domain rid)
               | None \<Rightarrow> Inl (Unknown_group g))))"

definition entry_parse :: "rstr \<Rightarrow> config \<Rightarrow> (config_err + entry) option" where
  "entry_parse s cfg =
     (case strip_prefix AT (trim s) of
        None \<Rightarrow> Some (sbind (user_pat_parse s) (\<lambda>p. Inr (User p)))
      | Some g \<Rightarrow>
          (let g = trim g
           in do {
             is_sid \<leftarrow> sid_prefix g;
             Some (if is_sid
                   then (case sid_parse g of Some x \<Rightarrow> Inr (GroupSid x) | None \<Rightarrow> Inl (Bad_sid g))
                   else group_entry g cfg) }))"

section \<open>Matching\<close>

record who =
  w_guest :: bool
  w_user :: rstr
  w_kerberos :: bool
  w_pac :: "logon_info option"

datatype access = Denied | ReadOnly | ReadWrite

definition user_matches :: "user_pat \<Rightarrow> who \<Rightarrow> config \<Rightarrow> bool" where
  "user_matches p who cfg =
     (if w_guest who \<or> w_user who = [] then False
      else (case p of
              Bare n \<Rightarrow>
                (if \<not> w_kerberos who then eq_ignore_ascii_case (w_user who) n
                 else (case (Option.bind (c_kerberos cfg) k_realm, rsplit_once AT (w_user who)) of
                         (Some realm, Some (u, r)) \<Rightarrow> eq_ignore_ascii_case u n \<and> eq_ignore_ascii_case r realm
                       | _ \<Rightarrow> False))
            | PrincipalPat pr \<Rightarrow> w_kerberos who \<and> eq_ignore_ascii_case (w_user who) pr
            | DomUser domain name \<Rightarrow>
                (case w_pac who of None \<Rightarrow> False
                 | Some l \<Rightarrow> eq_ignore_ascii_case (li_domain l) domain \<and> eq_ignore_ascii_case (li_user l) name)))"

definition pac_has :: "who \<Rightarrow> sid \<Rightarrow> bool" where
  "pac_has who s = (case w_pac who of None \<Rightarrow> False | Some l \<Rightarrow> has_sid l s)"

definition table_matches :: "group_cfg \<Rightarrow> who \<Rightarrow> config \<Rightarrow> bool" where
  "table_matches g who cfg \<longleftrightarrow>
     (case Option.bind (g_sid g) sid_parse of None \<Rightarrow> False | Some s \<Rightarrow> pac_has who s) \<or>
     (\<exists>m \<in> set (g_members g). case user_pat_parse m of Inr p \<Rightarrow> user_matches p who cfg | Inl _ \<Rightarrow> False)"

definition entry_matches :: "entry \<Rightarrow> who \<Rightarrow> config \<Rightarrow> bool option" where
  "entry_matches e who cfg =
     (if w_guest who then Some False
      else (case e of
              User p \<Rightarrow> Some (user_matches p who cfg)
            | GroupSid s \<Rightarrow> Some (pac_has who s)
            | WellKnown domain rid \<Rightarrow>
                Some (case w_pac who of None \<Rightarrow> False
                      | Some l \<Rightarrow>
                          (case domain of None \<Rightarrow> True | Some d \<Rightarrow> eq_ignore_ascii_case (li_domain l) d) \<and>
                          (case li_domain_sid l of None \<Rightarrow> False | Some ds \<Rightarrow> has_sid l (with_rid ds rid)))
            | Table i \<Rightarrow> map_option (\<lambda>g. table_matches g who cfg) (idx (c_groups cfg) i)))"

fun any_matches :: "rstr list \<Rightarrow> who \<Rightarrow> config \<Rightarrow> bool option" where
  "any_matches [] who cfg = Some False"
| "any_matches (s # ss) who cfg = do {
     e \<leftarrow> entry_parse s cfg;
     b \<leftarrow> (case e of Inl _ \<Rightarrow> Some False | Inr e \<Rightarrow> entry_matches e who cfg);
     if b then Some True else any_matches ss who cfg }"

definition check :: "config \<Rightarrow> share_cfg \<Rightarrow> who \<Rightarrow> access option" where
  "check cfg share who = do {
     inv \<leftarrow> any_matches (sh_invalid_users share) who cfg;
     if inv then Some Denied
     else do {
       deny \<leftarrow> (if sh_valid_users share \<noteq> []
                then map_option Not (any_matches (sh_valid_users share) who cfg) else Some False);
       if deny then Some Denied
       else do {
         ro \<leftarrow> (if sh_read_only share then Some True else any_matches (sh_read_only_users share) who cfg);
         Some (if ro then ReadOnly else ReadWrite) } } }"

section \<open>Validation\<close>

definition member_validate :: "rstr \<Rightarrow> rstr \<Rightarrow> config_err + unit" where
  "member_validate g m =
     (if starts_with AT (trim_start m) then Inl (Nested_group g)
      else sbind (user_pat_parse m) (\<lambda>_. Inr ()))"

fun groups_validate :: "'w ext \<Rightarrow> rstr list \<Rightarrow> group_cfg list \<Rightarrow> config_err + unit" where
  "groups_validate E seen [] = Inr ()"
| "groups_validate E seen (g # gs) =
     (let lower = uc_lower E (g_name g)
      in if trim (g_name g) = [] \<or> starts_with AT (g_name g) \<or> lower \<in> set seen
         then Inl (Bad_group_name (g_name g))
         else if g_sid g = None \<and> g_members g = [] then Inl (Empty_group (g_name g))
         else sbind (case g_sid g of None \<Rightarrow> Inr ()
                     | Some s \<Rightarrow> ensure (sid_parse s \<noteq> None) (Bad_group_sid (g_name g)))
           (\<lambda>_. sbind (each (member_validate (g_name g)) (g_members g))
             (\<lambda>_. groups_validate E (seen @ [lower]) gs)))"

fun entries_validate :: "rstr list \<Rightarrow> config \<Rightarrow> (config_err + unit) option" where
  "entries_validate [] cfg = Some (Inr ())"
| "entries_validate (s # ss) cfg = do {
     e \<leftarrow> entry_parse s cfg;
     (case e of Inl err \<Rightarrow> Some (Inl err) | Inr _ \<Rightarrow> entries_validate ss cfg) }"

definition validate_share :: "config \<Rightarrow> share_cfg \<Rightarrow> (config_err + unit) option" where
  "validate_share cfg s =
     entries_validate (sh_valid_users s @ sh_invalid_users s @ sh_read_only_users s) cfg"

fun validate_shares :: "config \<Rightarrow> share_cfg list \<Rightarrow> (config_err + unit) option" where
  "validate_shares cfg [] = Some (Inr ())"
| "validate_shares cfg (s # ss) = do {
     r \<leftarrow> validate_share cfg s;
     (case r of Inl e \<Rightarrow> Some (Inl e) | Inr _ \<Rightarrow> validate_shares cfg ss) }"

definition authz_validate :: "'w ext \<Rightarrow> config \<Rightarrow> (config_err + unit) option" where
  "authz_validate E cfg =
     (case groups_validate E [] (c_groups cfg) of
        Inl e \<Rightarrow> Some (Inl e)
      | Inr _ \<Rightarrow> validate_shares cfg (c_shares cfg))"

text \<open>\<open>Config::validate\<close>; \<open>sock\<close> says which strings parse as a socket address.\<close>

definition config_validate ::
  "'w ext \<Rightarrow> (rstr \<Rightarrow> bool) \<Rightarrow> 'w \<Rightarrow> config \<Rightarrow> (config_err + unit) option" where
  "config_validate E sock w cfg =
     (case sbind (ensure (sock (c_listen cfg)) Bad_listen) (\<lambda>_.
           sbind (case c_health_listen cfg of None \<Rightarrow> Inr () | Some h \<Rightarrow> ensure (sock h) Bad_health_listen) (\<lambda>_.
           sbind (ensure (c_shares cfg \<noteq> []) No_share) (\<lambda>_.
           sbind (shares_validate E w [] (c_shares cfg)) (\<lambda>_.
           sbind (users_validate E [] (c_users cfg)) (\<lambda>_.
           (case c_kerberos cfg of None \<Rightarrow> Inr () | Some k \<Rightarrow> kerberos_validate k)))))) of
        Inl e \<Rightarrow> Some (Inl e)
      | Inr _ \<Rightarrow> authz_validate E cfg)"

section \<open>Totality of matching\<close>

lemma position_bound: "position P xs = Some i \<Longrightarrow> i < length xs"
  by (induction xs arbitrary: i) (auto split: if_splits)

lemma entry_parse_table: "entry_parse s cfg = Some (Inr (Table i)) \<Longrightarrow> i < length (c_groups cfg)"
  by (auto simp: entry_parse_def group_entry_def Let_def sbind_def dest: position_bound
    split: option.splits sum.splits if_splits prod.splits)

lemma entry_matches_total:
  assumes "entry_parse s cfg = Some (Inr e)"
  shows "\<exists>b. entry_matches e who cfg = Some b"
proof (cases e)
  case (Table i)
  then have "i < length (c_groups cfg)" using assms entry_parse_table by simp
  with Table show ?thesis by (auto simp: entry_matches_def idx_def)
qed (auto simp: entry_matches_def)

definition matches :: "config \<Rightarrow> who \<Rightarrow> rstr \<Rightarrow> bool" where
  "matches cfg who s \<longleftrightarrow>
     (\<exists>e. entry_parse s cfg = Some (Inr e) \<and> entry_matches e who cfg = Some True)"

lemma any_matches_eq:
  assumes "\<forall>s \<in> set ss. entry_parse s cfg \<noteq> None"
  shows "any_matches ss who cfg = Some (\<exists>s \<in> set ss. matches cfg who s)"
  using assms
proof (induction ss)
  case (Cons s ss)
  then obtain r where r: "entry_parse s cfg = Some r" by auto
  show ?case
  proof (cases r)
    case (Inl err)
    with r Cons show ?thesis by (simp add: matches_def)
  next
    case (Inr e)
    then obtain b where "entry_matches e who cfg = Some b" using r entry_matches_total by blast
    with r Inr Cons show ?thesis by (cases b) (auto simp: matches_def)
  qed
qed simp

lemma entries_validate_parse:
  "entries_validate ss cfg = Some (Inr u) \<Longrightarrow> \<forall>s \<in> set ss. \<exists>e. entry_parse s cfg = Some (Inr e)"
proof (induction ss)
  case (Cons s ss)
  then obtain r where r: "entry_parse s cfg = Some r" by auto
  with Cons show ?case by (cases r) auto
qed simp

lemma validate_shares_mem:
  "validate_shares cfg ss = Some (Inr u) \<Longrightarrow> s \<in> set ss \<Longrightarrow> validate_share cfg s = Some (Inr ())"
proof (induction ss)
  case (Cons x ss)
  then obtain r where r: "validate_share cfg x = Some r" by auto
  with Cons show ?case by (cases r) auto
qed simp

lemma config_validate_share:
  assumes "config_validate E sock w cfg = Some (Inr u)" and "s \<in> set (c_shares cfg)"
  shows "validate_share cfg s = Some (Inr ())"
  using assms validate_shares_mem
  by (auto simp: config_validate_def authz_validate_def split: sum.splits)

lemma config_validate_users:
  assumes "config_validate E sock w cfg = Some (Inr u)"
  shows "users_validate E [] (c_users cfg) = Inr ()"
  using assms by (auto simp: config_validate_def sbind_Inr_iff split: sum.splits)

definition list_ok :: "config \<Rightarrow> share_cfg \<Rightarrow> bool" where
  "list_ok cfg s \<longleftrightarrow>
     (\<forall>e \<in> set (sh_valid_users s) \<union> set (sh_invalid_users s) \<union> set (sh_read_only_users s).
        entry_parse e cfg \<noteq> None)"

lemma validate_share_list_ok: "validate_share cfg s = Some (Inr u) \<Longrightarrow> list_ok cfg s"
  by (auto simp: validate_share_def list_ok_def dest!: entries_validate_parse)

lemma guest_no_match: "w_guest who \<Longrightarrow> \<not> matches cfg who s"
  by (simp add: matches_def entry_matches_def)

lemma find_distinct_map: "distinct (map f xs) \<Longrightarrow> x \<in> set xs \<Longrightarrow> find (\<lambda>y. f y = f x) xs = Some x"
  by (induction xs) (auto simp: image_iff)

section \<open>Properties\<close>

definition sample_config :: config where
  "sample_config = default_config\<lparr>
     c_shares := [\<lparr>sh_name = str ''data'', sh_path = str ''/srv'', sh_read_only = False,
       sh_valid_users = [str ''alice'', str ''@staff''], sh_invalid_users = [str ''@S-1-5-21-7''],
       sh_read_only_users = [str ''bob'']\<rparr>],
     c_groups := [\<lparr>g_name = str ''staff'', g_sid = None, g_members = [str ''bob'']\<rparr>]\<rparr>"

definition sample_share :: share_cfg where
  "sample_share = hd (c_shares sample_config)"

definition sample_who :: "rstr \<Rightarrow> who" where
  "sample_who u = \<lparr>w_guest = False, w_user = u, w_kerberos = False, w_pac = None\<rparr>"

lemmas eval_entries = str_def trim_def trim_start_def is_space_def strip_prefix_def user_pat_parse_def
  rsplit_once_def sid_prefix_def byte_len_def utf8_len_def eq_ignore_ascii_case_def ascii_lower_def
  sid_parse_def parse_uint_def is_digit_def dec_value_def group_entry_def entry_parse_def

lemma sample_entries:
  "entry_parse (str ''alice'') sample_config = Some (Inr (User (Bare (str ''alice''))))"
  "entry_parse (str ''bob'') sample_config = Some (Inr (User (Bare (str ''bob''))))"
  "entry_parse (str ''@staff'') sample_config = Some (Inr (Table 0))"
  "entry_parse (str ''@S-1-5-21-7'') sample_config =
     Some (Inr (GroupSid \<lparr>sid_revision = 1, sid_authority = 5, sid_sub = [21, 7]\<rparr>))"
  by (simp_all add: eval_entries sample_config_def default_config_def byte_prefix_Cons)

lemma sample_share_valid: "validate_share sample_config sample_share = Some (Inr ())"
  by (simp add: validate_share_def sample_share_def sample_config_def sample_entries [unfolded sample_config_def])

text \<open>(C19) The access decision at TREE\_CONNECT, for a share whose lists passed validation: it
  never panics; a match in \<open>invalid_users\<close> denies whatever else holds; a non-empty
  \<open>valid_users\<close> without a match denies; the rest is read-only exactly when the share is or the
  user matches \<open>read_only_users\<close>.\<close>

theorem check_decision:
  assumes "validate_share cfg s = Some (Inr ())"
  shows "check cfg s who = Some (
    if \<exists>e \<in> set (sh_invalid_users s). matches cfg who e then Denied
    else if sh_valid_users s \<noteq> [] \<and> \<not> (\<exists>e \<in> set (sh_valid_users s). matches cfg who e) then Denied
    else if sh_read_only s \<or> (\<exists>e \<in> set (sh_read_only_users s). matches cfg who e) then ReadOnly
    else ReadWrite)"
proof -
  have "list_ok cfg s" using assms by (rule validate_share_list_ok)
  then have "any_matches (sh_invalid_users s) who cfg = Some (\<exists>e \<in> set (sh_invalid_users s). matches cfg who e)"
    "any_matches (sh_valid_users s) who cfg = Some (\<exists>e \<in> set (sh_valid_users s). matches cfg who e)"
    "any_matches (sh_read_only_users s) who cfg = Some (\<exists>e \<in> set (sh_read_only_users s). matches cfg who e)"
    by (auto intro!: any_matches_eq simp: list_ok_def)
  then show ?thesis by (simp add: check_def del: bind_Some_iff)
qed

lemma sample_matches:
  "matches sample_config (sample_who (str ''BOB'')) (str ''bob'')"
  "matches sample_config (sample_who (str ''BOB'')) (str ''@staff'')"
  "\<not> matches sample_config (sample_who u) (str ''@S-1-5-21-7'')"
  unfolding matches_def sample_entries entry_matches_def user_matches_def sample_who_def
    pac_has_def table_matches_def
  by (simp_all add: idx_def sample_config_def eval_entries)

theorem check_decision_witness:
  "check sample_config sample_share (sample_who (str ''BOB'')) = Some ReadOnly"
  unfolding check_decision [OF sample_share_valid]
  using sample_matches by (simp add: sample_share_def sample_config_def)

text \<open>A guest session matches no list entry: on a validated share it is denied exactly
  when the share has a \<open>valid_users\<close> list, and otherwise gets the share's own mode.\<close>

lemma guest_access:
  assumes "validate_share cfg s = Some (Inr ())" and "w_guest who"
  shows "check cfg s who =
    Some (if sh_valid_users s \<noteq> [] then Denied else if sh_read_only s then ReadOnly else ReadWrite)"
proof -
  have "list_ok cfg s" using assms(1) by (rule validate_share_list_ok)
  then have "any_matches (sh_invalid_users s) who cfg = Some False"
    "any_matches (sh_valid_users s) who cfg = Some False"
    "any_matches (sh_read_only_users s) who cfg = Some False"
    using guest_no_match [OF assms(2)] by (auto simp: any_matches_eq list_ok_def)
  then show ?thesis by (simp add: check_def del: bind_Some_iff)
qed

lemma guest_access_witness:
  "check sample_config sample_share ((sample_who (str ''bob''))\<lparr>w_guest := True\<rparr>) = Some Denied"
  using guest_access [OF sample_share_valid, of "(sample_who (str ''bob''))\<lparr>w_guest := True\<rparr>"]
  by (simp add: sample_share_def sample_config_def)


definition sample_users :: config where
  "sample_users = sample_config\<lparr>c_users := [\<lparr>u_name = str ''Bob'', u_password = Some (str ''x''), u_nt_hash = None\<rparr>]\<rparr>"

lemma sample_users_valid: "config_validate demo (\<lambda>_. True) () sample_users = Some (Inr ())"
proof -
  have ge: "group_entry g sample_users = group_entry g sample_config" for g
    by (simp add: group_entry_def sample_users_def)
  have e: "entry_parse s sample_users = entry_parse s sample_config" for s
    unfolding entry_parse_def ge by (rule refl)
  have ev: "entries_validate ss sample_users = entries_validate ss sample_config" for ss
    by (induction ss) (simp_all add: e)
  have sh: "c_shares sample_users = [sample_share]"
    by (simp add: sample_users_def sample_share_def sample_config_def)
  have "validate_share sample_users sample_share = Some (Inr ())"
    using sample_share_valid by (simp add: validate_share_def ev)
  moreover have "groups_validate demo [] (c_groups sample_users) = Inr ()"
    by (simp add: sample_users_def sample_config_def member_validate_def starts_with_def eval_entries)
  ultimately have a: "authz_validate demo sample_users = Some (Inr ())"
    by (simp add: authz_validate_def sh)
  have s: "shares_validate demo () [] [sample_share] = Inr ()"
    by (simp add: sample_share_def sample_config_def path_is_dir_def stat_meta_def demo_ext_def
      meta_from_std_def demo_stat_def st_is_dir_def Let_def eval_entries)
  have "users_validate demo [] (c_users sample_users) = Inr ()" "c_health_listen sample_users = None"
    "c_kerberos sample_users = None"
    by (simp_all add: sample_users_def sample_config_def default_config_def secret_ok_def str_def)
  then show ?thesis
    by (simp add: config_validate_def ensure_def a sh s del: shares_validate.simps)
qed


text \<open>A group entry whose second byte is inside a character panics instead of being reported
  as a configuration error: \<open>g[..2]\<close> in \<open>Entry::parse\<close> slices at a byte offset.\<close>

lemma entry_parse_panics: "entry_parse (str ''@'' @ [0x20AC, 0x41]) cfg = None"
  by (simp add: eval_entries byte_prefix_Cons)

end
