(* ===== verification/Smb2.thy ===== *)
theory Smb2
  imports Session Crypto Lease Authz
begin

text \<open>
  The SMB2 core of \<open>src/src/smb2/mod.rs\<close>: the request header, the connection's protocol state,
  response headers, signing, and the SMB3 transform. Appending to \<open>tx\<close> is list append; a
  function that writes into the middle of \<open>tx\<close> has an \<open>option\<close> result, \<open>None\<close> being the slice
  panic.
\<close>

section \<open>Constants\<close>

abbreviation (input) CMD_NEGOTIATE :: u16 where "CMD_NEGOTIATE \<equiv> 0"
abbreviation (input) CMD_SESSION_SETUP :: u16 where "CMD_SESSION_SETUP \<equiv> 1"
abbreviation (input) CMD_LOGOFF :: u16 where "CMD_LOGOFF \<equiv> 2"
abbreviation (input) CMD_TREE_CONNECT :: u16 where "CMD_TREE_CONNECT \<equiv> 3"
abbreviation (input) CMD_TREE_DISCONNECT :: u16 where "CMD_TREE_DISCONNECT \<equiv> 4"
abbreviation (input) CMD_CREATE :: u16 where "CMD_CREATE \<equiv> 5"
abbreviation (input) CMD_CLOSE :: u16 where "CMD_CLOSE \<equiv> 6"
abbreviation (input) CMD_FLUSH :: u16 where "CMD_FLUSH \<equiv> 7"
abbreviation (input) CMD_READ :: u16 where "CMD_READ \<equiv> 8"
abbreviation (input) CMD_WRITE :: u16 where "CMD_WRITE \<equiv> 9"
abbreviation (input) CMD_LOCK :: u16 where "CMD_LOCK \<equiv> 10"
abbreviation (input) CMD_IOCTL :: u16 where "CMD_IOCTL \<equiv> 11"
abbreviation (input) CMD_CANCEL :: u16 where "CMD_CANCEL \<equiv> 12"
abbreviation (input) CMD_ECHO :: u16 where "CMD_ECHO \<equiv> 13"
abbreviation (input) CMD_QUERY_DIRECTORY :: u16 where "CMD_QUERY_DIRECTORY \<equiv> 14"
abbreviation (input) CMD_CHANGE_NOTIFY :: u16 where "CMD_CHANGE_NOTIFY \<equiv> 15"
abbreviation (input) CMD_QUERY_INFO :: u16 where "CMD_QUERY_INFO \<equiv> 16"
abbreviation (input) CMD_SET_INFO :: u16 where "CMD_SET_INFO \<equiv> 17"
abbreviation (input) CMD_OPLOCK_BREAK :: u16 where "CMD_OPLOCK_BREAK \<equiv> 18"

abbreviation (input) OPLOCK_NONE :: u8 where "OPLOCK_NONE \<equiv> 0"
abbreviation (input) OPLOCK_LEASE :: u8 where "OPLOCK_LEASE \<equiv> 0xFF"
abbreviation (input) LEASE_READ_CACHING :: u32 where "LEASE_READ_CACHING \<equiv> 1"
abbreviation (input) LEASE_HANDLE_CACHING :: u32 where "LEASE_HANDLE_CACHING \<equiv> 2"
abbreviation (input) LEASE_WRITE_CACHING :: u32 where "LEASE_WRITE_CACHING \<equiv> 4"

abbreviation (input) FLAG_RESPONSE :: u32 where "FLAG_RESPONSE \<equiv> 1"
abbreviation (input) FLAG_ASYNC :: u32 where "FLAG_ASYNC \<equiv> 2"
abbreviation (input) FLAG_RELATED :: u32 where "FLAG_RELATED \<equiv> 4"
abbreviation (input) FLAG_SIGNED :: u32 where "FLAG_SIGNED \<equiv> 8"

abbreviation (input) MAX_TRANSACT :: u32 where "MAX_TRANSACT \<equiv> 4194304"
abbreviation (input) MAX_WRITE :: u32 where "MAX_WRITE \<equiv> 4194304"
abbreviation (input) ZC_MIN_READ :: u32 where "ZC_MIN_READ \<equiv> 8192"
abbreviation (input) HDR_LEN :: nat where "HDR_LEN \<equiv> 64"
abbreviation (input) MAX_COMPOUND :: nat where "MAX_COMPOUND \<equiv> 128"
abbreviation (input) COMPOUND_RESP_CAP :: nat where "COMPOUND_RESP_CAP \<equiv> 8388608"

definition CTX_NAME_RQLS :: bytes where
  "CTX_NAME_RQLS = bstr ''RqLs''"

section \<open>Request headers\<close>

record req_hdr =
  h_credit_charge :: u16
  h_command :: u16
  h_credits :: u16
  h_flags :: u32
  h_next :: u32
  h_msg_id :: u64
  h_tree_id :: u32
  h_session_id :: u64
  h_async_id :: "u64 option"

definition smb2_proto :: bytes where
  "smb2_proto = [0xFE, 0x53, 0x4D, 0x42]"

definition parse_ids :: "u32 \<Rightarrow> rdr \<Rightarrow> (u32 \<times> u64 \<times> u64 option \<times> rdr) option" where
  "parse_ids flags r =
     (if flags AND FLAG_ASYNC \<noteq> 0 then do {
        (aid, r) \<leftarrow> rdr_u64 r;
        (sid, r) \<leftarrow> rdr_u64 r;
        Some (0, sid, Some aid, r) }
      else do {
        (_, r) \<leftarrow> rdr_u32 r;
        (tid, r) \<leftarrow> rdr_u32 r;
        (sid, r) \<leftarrow> rdr_u64 r;
        Some (tid, sid, None, r) })"

definition parse_hdr :: "bytes \<Rightarrow> req_hdr option" where
  "parse_hdr b = do {
     (p, r) \<leftarrow> rdr_take 4 (rdr_new b);
     if p \<noteq> smb2_proto then None
     else do {
       (sz, r) \<leftarrow> rdr_u16 r;
       if sz \<noteq> 64 then None
       else do {
         (credit_charge, r) \<leftarrow> rdr_u16 r;
         (_, r) \<leftarrow> rdr_u32 r;
         (command, r) \<leftarrow> rdr_u16 r;
         (credits, r) \<leftarrow> rdr_u16 r;
         (flags, r) \<leftarrow> rdr_u32 r;
         (nxt, r) \<leftarrow> rdr_u32 r;
         (msg_id, r) \<leftarrow> rdr_u64 r;
         (tree_id, session_id, async_id, r) \<leftarrow> parse_ids flags r;
         _ \<leftarrow> rdr_skip 16 r;
         Some \<lparr>h_credit_charge = credit_charge, h_command = command, h_credits = credits,
               h_flags = flags, h_next = nxt, h_msg_id = msg_id, h_tree_id = tree_id,
               h_session_id = session_id, h_async_id = async_id\<rparr> } } }"

section \<open>Connection state\<close>

record sign_ctx =
  sc_alg :: sign_alg
  sc_key :: bytes

record enc_ctx =
  ec_cipher :: u16
  ec_c2s :: bytes
  ec_s2c :: bytes
  ec_nonce_ctr :: u64

record pending_auth =
  pa_challenge :: bytes
  pa_spnego :: bool
  pa_binding :: bool

record channel =
  ch_established :: bool
  ch_signing_required :: bool
  ch_sign :: "sign_ctx option"
  ch_pending :: "pending_auth option"
  ch_preauth :: bytes
  ch_enc :: "enc_ctx option"
  ch_encrypt :: bool

definition channel_default :: channel where
  "channel_default = \<lparr>ch_established = False, ch_signing_required = False, ch_sign = None,
     ch_pending = None, ch_preauth = replicate 64 0, ch_enc = None, ch_encrypt = False\<rparr>"

record async_meta =
  am_msg_id :: u64
  am_credit_charge :: u16
  am_session_id :: u64
  am_async_id :: u64
  am_want_sign :: bool

record notify_pend =
  np_async_id :: u64
  np_fid :: u64
  np_path :: path
  np_recursive :: bool
  np_filter :: u32
  np_out_len :: u32
  np_meta :: async_meta

record notify_done =
  nd_async_id :: u64
  nd_status :: u32

record client_neg =
  cn_secmode :: u16
  cn_caps :: u32
  cn_guid :: bytes

text \<open>The message-id window is kept as naturals: \<open>msg_seen\<close> is the ascending list of the
  \<open>BTreeSet\<close>'s elements.\<close>

record proto_conn =
  pc_dialect :: u16
  pc_cipher :: u16
  pc_channels :: "(u64, channel) hmap"
  pc_max_read :: u32
  pc_preauth_neg :: bytes
  pc_credits_out :: int
  pc_next_async_id :: u64
  pc_notify_new :: "notify_pend list"
  pc_notify_done :: "notify_done list"
  pc_notify_active :: "(u64 \<times> u64) list"
  pc_wid :: nat
  pc_conn_idx :: nat
  pc_conn_gen :: u16
  pc_close :: bool
  pc_negotiated :: bool
  pc_client_neg :: "client_neg option"
  pc_server_caps :: u32
  pc_msg_low :: nat
  pc_msg_seen :: "nat list"

definition proto_conn_new :: "u32 \<Rightarrow> nat \<Rightarrow> nat \<Rightarrow> u16 \<Rightarrow> proto_conn" where
  "proto_conn_new max_read wid conn_idx conn_gen =
     \<lparr>pc_dialect = 0, pc_cipher = 0, pc_channels = [], pc_max_read = max_read,
      pc_preauth_neg = replicate 64 0, pc_credits_out = 0, pc_next_async_id = 1,
      pc_notify_new = [], pc_notify_done = [], pc_notify_active = [], pc_wid = wid,
      pc_conn_idx = conn_idx, pc_conn_gen = conn_gen, pc_close = False, pc_negotiated = False,
      pc_client_neg = None, pc_server_caps = 0, pc_msg_low = 0, pc_msg_seen = []\<rparr>"

record zc_plan =
  zc_fd :: fd
  zc_offset :: u64
  zc_length :: u32
  zc_min_count :: u32
  zc_msg_id :: u64
  zc_credit_charge :: u16
  zc_credits :: u16
  zc_tree_id :: u32
  zc_session_id :: u64
  zc_linked :: bool

datatype frame_action = Respond | ZcRead zc_plan | RespondClose | Close

record chain =
  cx_related :: bool
  cx_session_id :: u64
  cx_tree_id :: u32
  cx_last_fid :: "u64 option"
  cx_single :: bool
  cx_transform_sid :: "u64 option"

end
