(* ===== verification/Smb2_Msg.thy ===== *)
theory Smb2_Msg
  imports Smb2
begin

text \<open>
  Messages of \<open>src/src/smb2/mod.rs\<close>: response headers, signing and verification, error bodies,
  the frames the reactor builds itself (zero-copy READ prefix, CHANGE\_NOTIFY completion, lease
  break), and the SMB3 transform.
\<close>

section \<open>Response headers\<close>

definition resp_hdr :: "req_hdr \<Rightarrow> u32 \<Rightarrow> bool \<Rightarrow> u32 \<Rightarrow> u64 \<Rightarrow> bytes" where
  "resp_hdr h st related tree_id session_id =
     smb2_proto @ le16 64 @ le16 (h_credit_charge h) @ le32 st @ le16 (h_command h) @
     le16 (h_credits h) @ le32 (FLAG_RESPONSE OR (if related then FLAG_RELATED else 0)) @ le32 0 @
     le64 (h_msg_id h) @ le32 0 @ le32 tree_id @ le64 session_id @ zbytes 16"

definition begin_resp :: "bytes \<Rightarrow> req_hdr \<Rightarrow> u32 \<Rightarrow> bool \<Rightarrow> u32 \<Rightarrow> u64 \<Rightarrow> bytes" where
  "begin_resp tx h st related tree_id session_id = tx @ resp_hdr h st related tree_id session_id"

definition begin_resp_async :: "bytes \<Rightarrow> async_meta \<Rightarrow> u32 \<Rightarrow> u16 \<Rightarrow> u16 \<Rightarrow> bytes" where
  "begin_resp_async tx m st credits cmd =
     tx @ smb2_proto @ le16 64 @ le16 (am_credit_charge m) @ le32 st @ le16 cmd @ le16 credits @
     le32 (FLAG_RESPONSE OR FLAG_ASYNC) @ le32 0 @ le64 (am_msg_id m) @ le64 (am_async_id m) @
     le64 (am_session_id m) @ zbytes 16"

definition err_body :: "bytes \<Rightarrow> bytes" where
  "err_body tx = tx @ le16 9 @ [0, 0] @ le32 0 @ [0]"

definition err_resp :: "bytes \<Rightarrow> req_hdr \<Rightarrow> u32 \<Rightarrow> chain \<Rightarrow> bytes" where
  "err_resp tx h st c =
     err_body (begin_resp tx h st (cx_related c) (cx_tree_id c) (cx_session_id c))"

section \<open>Signing\<close>

definition sign_in_place :: "'w ext \<Rightarrow> bytes \<Rightarrow> nat \<Rightarrow> nat \<Rightarrow> sign_ctx \<Rightarrow> bytes option" where
  "sign_in_place E tx start fin sc = do {
     cur \<leftarrow> slice_get tx (start + 16) (start + 16 + 4);
     tx \<leftarrow> copy_at tx (start + 16) (le32 (u32_le cur OR FLAG_SIGNED));
     msg \<leftarrow> slice_get tx start fin;
     copy_at tx (start + 48) (smb2_signature E (sc_alg sc) (sc_key sc) msg) }"

definition verify_signature :: "'w ext \<Rightarrow> bytes \<Rightarrow> sign_ctx \<Rightarrow> bool" where
  "verify_signature E msg sc =
     (if length msg < 64 then False
      else (let sig = smb2_signature E (sc_alg sc) (sc_key sc) (take 48 msg @ zbytes 16 @ drop 64 msg)
            in ct_diff sig (take 16 (drop 48 msg)) = 0))"

definition derive_sign_ctx :: "'w ext \<Rightarrow> u16 \<Rightarrow> bytes \<Rightarrow> bytes \<Rightarrow> sign_ctx" where
  "derive_sign_ctx E dialect session_key preauth =
     (if dialect = 0x0202 \<or> dialect = 0x0210
      then \<lparr>sc_alg = HmacSha256, sc_key = session_key\<rparr>
      else if dialect = 0x0311
      then \<lparr>sc_alg = AesCmac, sc_key = kdf128 E session_key (bstr ''SMBSigningKey'' @ [0]) preauth\<rparr>
      else \<lparr>sc_alg = AesCmac,
            sc_key = kdf128 E session_key (bstr ''SMB2AESCMAC'' @ [0]) (bstr ''SmbSign'' @ [0])\<rparr>)"

section \<open>Frames\<close>

definition nbt_bytes :: "u32 \<Rightarrow> bytes" where
  "nbt_bytes len = [0, ucast (drop_bit 16 len AND 0xFF), ucast (drop_bit 8 len AND 0xFF), ucast (len AND 0xFF)]"

text \<open>\<open>finish_nbt_with(&mut tx[base..], len)\<close>.\<close>

definition finish_nbt_with :: "bytes \<Rightarrow> nat \<Rightarrow> u32 \<Rightarrow> bytes option" where
  "finish_nbt_with tx base len = copy_at tx base (nbt_bytes len)"

definition read_plan_hdr :: "zc_plan \<Rightarrow> req_hdr" where
  "read_plan_hdr p =
     \<lparr>h_credit_charge = zc_credit_charge p, h_command = CMD_READ, h_credits = zc_credits p,
      h_flags = 0, h_next = 0, h_msg_id = zc_msg_id p, h_tree_id = zc_tree_id p,
      h_session_id = zc_session_id p, h_async_id = None\<rparr>"

definition build_read_resp_prefix :: "zc_plan \<Rightarrow> u32 \<Rightarrow> bytes option" where
  "build_read_resp_prefix p n =
     (let tx = begin_resp (zbytes 4) (read_plan_hdr p) SUCCESS False (zc_tree_id p) (zc_session_id p)
               @ le16 17 @ [80, 0] @ le32 n @ le32 0 @ le32 0
      in finish_nbt_with tx 0 (word_of_nat (length tx - 4) + n))"

definition build_read_err :: "zc_plan \<Rightarrow> u32 \<Rightarrow> bytes option" where
  "build_read_err p st =
     (let tx = err_body (begin_resp (zbytes 4) (read_plan_hdr p) st False (zc_tree_id p) (zc_session_id p))
      in finish_nbt_with tx 0 (word_of_nat (length tx - 4)))"

definition finalize_async :: "'w ext \<Rightarrow> proto_conn \<Rightarrow> async_meta \<Rightarrow> bytes \<Rightarrow> nat \<Rightarrow> bytes option" where
  "finalize_async E pc m tx start = do {
     tx \<leftarrow> (if am_want_sign m
            then (case Option.bind (hget (pc_channels pc) (am_session_id m)) ch_sign of
                    None \<Rightarrow> Some tx
                  | Some sc \<Rightarrow> sign_in_place E tx start (length tx) sc)
            else Some tx);
     finish_nbt_with tx 0 (word_of_nat (length tx - 4)) }"

definition pad4 :: "bytes \<Rightarrow> bytes" where
  "pad4 d = d @ zbytes ((4 - length d mod 4) mod 4)"

fun notify_entries :: "(u32 \<times> rstr) list \<Rightarrow> bytes \<Rightarrow> nat list \<Rightarrow> bytes \<times> nat list" where
  "notify_entries [] d starts = (d, starts)"
| "notify_entries ((action, name) # es) d starts =
     (let d = pad4 d; n16 = utf16le name
      in notify_entries es (d @ le32 0 @ le32 action @ le32 (word_of_nat (length n16)) @ n16)
           (starts @ [length d]))"

fun patch_entries :: "nat list \<Rightarrow> bytes \<Rightarrow> bytes option" where
  "patch_entries (a # b # ss) d = do {
     d \<leftarrow> copy_at d a (le32 (word_of_nat (b - a)));
     patch_entries (b # ss) d }"
| "patch_entries _ d = Some d"

definition notify_data :: "u32 \<Rightarrow> (u32 \<times> rstr) list \<Rightarrow> bytes option" where
  "notify_data st events =
     (if st = SUCCESS \<and> events \<noteq> []
      then (case notify_entries events [] [] of (d, starts) \<Rightarrow> patch_entries starts d)
      else Some [])"

section \<open>Lease break\<close>

definition build_lease_break ::
  "'w ext \<Rightarrow> bytes \<Rightarrow> u32 \<Rightarrow> u32 \<Rightarrow> u16 \<Rightarrow> u64 \<Rightarrow> sign_ctx option \<Rightarrow> bytes option" where
  "build_lease_break E lease_key cur_state new_state epoch session_id sign = do {
     let tx = zbytes 4 @ smb2_proto @ le16 64 @ le16 0 @ le32 0 @ le16 CMD_OPLOCK_BREAK @ le16 0 @
              le32 FLAG_RESPONSE @ le32 0 @ le64 U64_MAX @ le32 0 @ le32 0 @ le64 session_id @ zbytes 16 @
              le16 44 @ le16 epoch @ le32 0 @ lease_key @ le32 cur_state @ le32 new_state @
              le32 0 @ le32 0 @ le32 0;
     tx \<leftarrow> (case sign of None \<Rightarrow> Some tx | Some sc \<Rightarrow> sign_in_place E tx 4 (length tx) sc);
     finish_nbt_with tx 0 (word_of_nat (length tx - 4)) }"

section \<open>The SMB3 transform\<close>

definition TRANSFORM_PROTO :: bytes where
  "TRANSFORM_PROTO = [0xFD, 0x53, 0x4D, 0x42]"

abbreviation (input) TRANSFORM_HDR_LEN :: nat where "TRANSFORM_HDR_LEN \<equiv> 52"

definition is_transform :: "bytes \<Rightarrow> bool" where
  "is_transform frame \<longleftrightarrow> length frame \<ge> 4 \<and> take 4 frame = TRANSFORM_PROTO"

definition decrypt_transform :: "'w ext \<Rightarrow> bytes \<Rightarrow> enc_ctx \<Rightarrow> bytes option" where
  "decrypt_transform E frame enc =
     (if length frame < TRANSFORM_HDR_LEN \<or> take 4 frame \<noteq> TRANSFORM_PROTO then None
      else do {
        tag \<leftarrow> slice_get frame 4 20;
        sz \<leftarrow> slice_get frame 36 40;
        let orig_size = unat (u32_le sz);
        aad \<leftarrow> slice_get frame 20 TRANSFORM_HDR_LEN;
        nonce \<leftarrow> slice_get frame 20 (20 + cipher_nonce_len (ec_cipher enc));
        ct \<leftarrow> slice_from frame TRANSFORM_HDR_LEN;
        if length ct \<noteq> orig_size then None
        else cr_aead_open E (ec_cipher enc) (take (cipher_key_len (ec_cipher enc)) (ec_c2s enc)) nonce aad ct tag })"

definition transform_aad :: "u64 \<Rightarrow> nat \<Rightarrow> u64 \<Rightarrow> bytes" where
  "transform_aad ctr len session_id =
     le64 ctr @ zbytes 8 @ le32 (word_of_nat len) @ le16 0 @ le16 1 @ le64 session_id"

definition wrap_transform :: "'w ext \<Rightarrow> bytes \<Rightarrow> enc_ctx \<Rightarrow> u64 \<Rightarrow> bytes \<Rightarrow> (enc_ctx \<times> bytes) option" where
  "wrap_transform E plain enc session_id tx = do {
     let base = length tx;
     let ctr = ec_nonce_ctr enc + 1;
     let aad = transform_aad ctr (length plain) session_id;
     let nonce = take (cipher_nonce_len (ec_cipher enc)) (le64 ctr @ zbytes 8);
     let (ct, tag) = cr_aead_seal E (ec_cipher enc) (take (cipher_key_len (ec_cipher enc)) (ec_s2c enc))
                       nonce aad plain;
     let tx = tx @ zbytes 4 @ TRANSFORM_PROTO @ zbytes 16 @ aad @ ct;
     tx \<leftarrow> copy_at tx (base + 8) tag;
     tx \<leftarrow> finish_nbt_with tx base (word_of_nat (length tx - base - 4));
     Some (enc\<lparr>ec_nonce_ctr := ctr\<rparr>, tx) }"

definition build_notify_final ::
  "'w ext \<Rightarrow> proto_conn \<Rightarrow> async_meta \<Rightarrow> u32 \<Rightarrow> (u32 \<times> rstr) list \<Rightarrow> u32 \<Rightarrow> (proto_conn \<times> bytes) option" where
  "build_notify_final E pc m st events out_len = do {
     data \<leftarrow> notify_data st events;
     tx \<leftarrow> (if st = SUCCESS \<and> events \<noteq> [] \<and> length data \<le> unat out_len
            then finalize_async E pc m
                   (begin_resp_async (zbytes 4) m st 0 CMD_CHANGE_NOTIFY
                    @ le16 9 @ le16 72 @ le32 (word_of_nat (length data)) @ data) 4
            else finalize_async E pc m
                   (err_body (begin_resp_async (zbytes 4) m
                      (if st = SUCCESS then NOTIFY_ENUM_DIR else st) 0 CMD_CHANGE_NOTIFY)) 4);
     (case hget (pc_channels pc) (am_session_id m) of
        None \<Rightarrow> Some (pc, tx)
      | Some ch \<Rightarrow>
          (case (ch_encrypt ch, ch_enc ch) of
             (True, Some enc) \<Rightarrow> do {
               (enc, sealed) \<leftarrow> wrap_transform E (drop 4 tx) enc (am_session_id m) [];
               Some (pc\<lparr>pc_channels := hput (am_session_id m) (ch\<lparr>ch_enc := Some enc\<rparr>) (pc_channels pc)\<rparr>, sealed) }
           | _ \<Rightarrow> Some (pc, tx))) }"

section \<open>Facts\<close>

lemma length_proto [simp]: "length smb2_proto = 4" "length TRANSFORM_PROTO = 4"
  by (simp_all add: smb2_proto_def TRANSFORM_PROTO_def)

lemma length_resp_hdr [simp]: "length (resp_hdr h st rel t s) = 64"
  by (simp add: resp_hdr_def)

lemma length_nbt_bytes [simp]: "length (nbt_bytes n) = 4"
  by (simp add: nbt_bytes_def)

text \<open>Reading one field off the front of a reader whose remaining bytes are known.\<close>

lemma rdr_fronts:
  "rdr_ok r \<Longrightarrow> rest r = le16 v @ ys \<Longrightarrow> rdr_u16 r = Some (v, adv 2 r)"
  "rdr_ok r \<Longrightarrow> rest r = le32 w @ ys \<Longrightarrow> rdr_u32 r = Some (w, adv 4 r)"
  "rdr_ok r \<Longrightarrow> rest r = le64 x @ ys \<Longrightarrow> rdr_u64 r = Some (x, adv 8 r)"
  by (rule field_encs; assumption)+

lemma parse_hdr_sync:
  assumes "fl AND FLAG_ASYNC = 0" "length sg = 16"
  shows "parse_hdr (smb2_proto @ le16 64 @ le16 cc @ le32 st @ le16 cmd @ le16 cr @ le32 fl @
      le32 nx @ le64 mid @ le32 pid @ le32 tid @ le64 sid @ sg @ body) =
    Some \<lparr>h_credit_charge = cc, h_command = cmd, h_credits = cr, h_flags = fl, h_next = nx,
      h_msg_id = mid, h_tree_id = tid, h_session_id = sid, h_async_id = None\<rparr>"
  unfolding parse_hdr_def parse_ids_def
  by (simp add: rdr_take_eq rdr_skip_eq rdr_ok_adv rdr_fronts assms del: bind_Some_iff)

lemma parse_hdr_async:
  assumes "fl AND FLAG_ASYNC \<noteq> 0" "length sg = 16"
  shows "parse_hdr (smb2_proto @ le16 64 @ le16 cc @ le32 st @ le16 cmd @ le16 cr @ le32 fl @
      le32 nx @ le64 mid @ le64 aid @ le64 sid @ sg @ body) =
    Some \<lparr>h_credit_charge = cc, h_command = cmd, h_credits = cr, h_flags = fl, h_next = nx,
      h_msg_id = mid, h_tree_id = 0, h_session_id = sid, h_async_id = Some aid\<rparr>"
  unfolding parse_hdr_def parse_ids_def
  by (simp add: rdr_take_eq rdr_skip_eq rdr_ok_adv rdr_fronts assms del: bind_Some_iff)

text \<open>Writing over one of three adjacent pieces.\<close>

lemma copy_at_mid:
  "length ys = length zs \<Longrightarrow> n = length xs \<Longrightarrow> copy_at (xs @ ys @ ws) n zs = Some (xs @ zs @ ws)"
  by simp

lemma sign_in_place_eq:
  assumes "crypto_ok E" "length hh = 16" "length mid = 28" "length sg = 16"
  shows "sign_in_place E (pre @ (hh @ le32 fl @ mid @ sg @ body) @ suf) (length pre)
           (length pre + 64 + length body) sc =
    Some (pre @ (hh @ le32 (fl OR FLAG_SIGNED) @ mid @
      smb2_signature E (sc_alg sc) (sc_key sc) (hh @ le32 (fl OR FLAG_SIGNED) @ mid @ sg @ body) @ body) @ suf)"
    (is "_ = Some (pre @ (hh @ ?fl @ mid @ ?sig @ body) @ suf)")
proof -
  have g: "slice_get (pre @ (hh @ le32 fl @ mid @ sg @ body) @ suf) (length pre + 16) (length pre + 16 + 4)
      = Some (le32 fl)"
    using assms by (simp add: slice_get_def)
  have c: "copy_at (pre @ (hh @ le32 fl @ mid @ sg @ body) @ suf) (length pre + 16) ?fl
      = Some (pre @ (hh @ ?fl @ mid @ sg @ body) @ suf)"
    using assms copy_at_mid [of "le32 fl" ?fl "length pre + 16" "pre @ hh"] by simp
  have m: "slice_get (pre @ (hh @ ?fl @ mid @ sg @ body) @ suf) (length pre) (length pre + 64 + length body)
      = Some (hh @ ?fl @ mid @ sg @ body)"
    using assms slice_get_append [of pre "hh @ ?fl @ mid @ sg @ body" suf] by (simp add: add.commute add.left_commute)
  have w: "copy_at (pre @ (hh @ ?fl @ mid @ sg @ body) @ suf) (length pre + 48) ?sig
      = Some (pre @ (hh @ ?fl @ mid @ ?sig @ body) @ suf)"
    using assms copy_at_mid [of sg ?sig "length pre + 48" "pre @ hh @ ?fl @ mid"]
    by (simp add: smb2_signature_length)
  show ?thesis
    unfolding sign_in_place_def g c m w bind.bind_lunit u32_le_le32 by (simp only: c m w bind.bind_lunit)
qed

lemma frame_split:
  assumes "start + 64 \<le> fin" "fin \<le> length (tx :: bytes)"
  obtains pre hh fl mid sg body suf where "tx = pre @ (hh @ le32 fl @ mid @ sg @ body) @ suf"
    "length pre = start" "length hh = 16" "length mid = 28" "length sg = 16"
    "fin = start + 64 + length body" "sg = take 16 (drop (start + 48) tx)"
proof -
  define m where "m = take (fin - start) (drop start tx)"
  have lm: "length m = fin - start" using assms by (simp add: m_def)
  have fl: "le32 (u32_le (take 4 (drop 16 m))) = take 4 (drop 16 m)"
    using assms lm by (intro le32_u32_le) simp
  have c: "take a (drop b m) @ drop (b + a) m = drop b m" for a b
    by (metis append_take_drop_id drop_drop add.commute)
  have m: "m = take 16 m @ take 4 (drop 16 m) @ take 28 (drop 20 m) @ take 16 (drop 48 m) @ drop 64 m"
    using c [of 4 16] c [of 28 20] c [of 16 48] by simp
  have t: "tx = take start tx @ m @ drop fin tx"
    unfolding m_def using assms by (intro take_drop_split [symmetric]) simp_all
  have sg: "take 16 (drop 48 m) = take 16 (drop (start + 48) tx)"
    using assms by (simp add: m_def drop_take add.commute)
  show thesis
    by (rule that [of "take start tx" "take 16 m" "u32_le (take 4 (drop 16 m))" "take 28 (drop 20 m)"
          "take 16 (drop 48 m)" "drop 64 m" "drop fin tx"])
      (use assms lm m t sg fl in simp_all)
qed

lemma verify_signature_eq:
  assumes "crypto_ok E" "length hh = 16" "length mid = 28"
  shows "verify_signature E (hh @ le32 fl @ mid @ smb2_signature E (sc_alg sc) (sc_key sc)
    (hh @ le32 fl @ mid @ zbytes 16 @ body) @ body) sc"
  using assms by (simp add: verify_signature_def Let_def ct_diff_eq smb2_signature_length)

section \<open>Properties\<close>

definition sample_hdr :: req_hdr where
  "sample_hdr = \<lparr>h_credit_charge = 1, h_command = CMD_ECHO, h_credits = 3, h_flags = 0, h_next = 0,
     h_msg_id = 5, h_tree_id = 6, h_session_id = 7, h_async_id = None\<rparr>"


text \<open>(C34) Signing is sound for the verifier: a message of at least a header with a zero
  signature field, signed in place, passes \<open>verify_signature\<close> under the same key and carries
  the signed flag; the bytes of the buffer before and after the message are untouched, so
  signing one response of a compound does not disturb its neighbours.\<close>

theorem sign_then_verify:
  assumes "crypto_ok E" and "start + 64 \<le> fin" and "fin \<le> length tx"
    and "take 16 (drop (start + 48) tx) = zbytes 16"
  shows "\<exists>tx'. sign_in_place E tx start fin sc = Some tx' \<and> length tx' = length tx \<and>
    take start tx' = take start tx \<and> drop fin tx' = drop fin tx \<and>
    verify_signature E (take (fin - start) (drop start tx')) sc \<and>
    u32_le (take 4 (drop (start + 16) tx')) = u32_le (take 4 (drop (start + 16) tx)) OR FLAG_SIGNED"
proof -
  obtain pre hh fl mid sg body suf where tx: "tx = pre @ (hh @ le32 fl @ mid @ sg @ body) @ suf"
    and l: "length pre = start" "length hh = 16" "length mid = 28" "length sg = 16"
    and fin: "fin = start + 64 + length body" and sg: "sg = take 16 (drop (start + 48) tx)"
    using frame_split [OF assms(2,3)] by blast
  from sg assms(4) have z: "sg = zbytes 16" by simp
  show ?thesis
    unfolding tx fin l(1) [symmetric] sign_in_place_eq [OF assms(1) l(2-4)]
    using verify_signature_eq [OF assms(1) l(2,3), of "fl OR FLAG_SIGNED" sc body] l
    by (simp add: z smb2_signature_length [OF assms(1)])
qed

theorem sign_then_verify_witness:
  "\<exists>tx'. sign_in_place demo (begin_resp [] sample_hdr 0 False 6 7) 0 64
           \<lparr>sc_alg = AesCmac, sc_key = zbytes 16\<rparr> = Some tx' \<and>
    verify_signature demo (take 64 tx') \<lparr>sc_alg = AesCmac, sc_key = zbytes 16\<rparr>"
  using sign_then_verify [OF crypto_ok_unit, of 0 64 "begin_resp [] sample_hdr 0 False 6 7"
      "\<lparr>sc_alg = AesCmac, sc_key = zbytes 16\<rparr>"]
  by (auto simp: begin_resp_def resp_hdr_def)

lemma wrap_opens:
  assumes "crypto_ok E" and "aead_ok E" and "length plain < 2 ^ 32"
  shows "\<exists>frame. wrap_transform E plain enc sid tx =
      Some (enc\<lparr>ec_nonce_ctr := ec_nonce_ctr enc + 1\<rparr>, tx @ nbt_bytes (word_of_nat (length frame)) @ frame) \<and>
    is_transform frame \<and> length frame = 52 + length plain \<and> u64_le (take 8 (drop 44 frame)) = sid \<and>
    decrypt_transform E frame (enc\<lparr>ec_c2s := ec_s2c enc\<rparr>) = Some plain"
proof -
  define aad where "aad = transform_aad (ec_nonce_ctr enc + 1) (length plain) sid"
  define n where "n = take (cipher_nonce_len (ec_cipher enc)) (le64 (ec_nonce_ctr enc + 1) @ zbytes 8)"
  obtain ct tag where sealed: "cr_aead_seal E (ec_cipher enc) (take (cipher_key_len (ec_cipher enc)) (ec_s2c enc))
      n aad plain = (ct, tag)" by fastforce
  have lt: "length ct = length plain" "length tag = 16"
    using assms(1) sealed unfolding crypto_ok_def by (metis fst_conv, metis snd_conv)
  have opens: "cr_aead_open E (ec_cipher enc) (take (cipher_key_len (ec_cipher enc)) (ec_s2c enc)) n aad ct tag
      = Some plain" using assms(2) sealed unfolding aead_ok_def by (metis fst_conv snd_conv)
  have la: "length aad = 32" by (simp add: aad_def transform_aad_def)
  define frame where "frame = TRANSFORM_PROTO @ tag @ aad @ ct"
  have nonce: "take (cipher_nonce_len (ec_cipher enc)) aad = n"
    using cipher_nonce_len_bound(1) [of "ec_cipher enc"] by (simp add: aad_def transform_aad_def n_def)
  have sz: "u32_le (take 4 (drop 16 aad)) = word_of_nat (length plain)"
    and sid: "u64_le (take 8 (drop 24 aad)) = sid" by (simp_all add: aad_def transform_aad_def)
  have c: "copy_at (tx @ zbytes 4 @ TRANSFORM_PROTO @ zbytes 16 @ aad @ ct) (length tx + 8) tag
      = Some (tx @ zbytes 4 @ frame)"
    using lt copy_at_mid [of "zbytes 16" tag "length tx + 8" "tx @ zbytes 4 @ TRANSFORM_PROTO"]
    by (simp add: frame_def)
  have f: "finish_nbt_with (tx @ zbytes 4 @ frame) (length tx) l = Some (tx @ nbt_bytes l @ frame)" for l
    unfolding finish_nbt_with_def by (rule copy_at_mid) simp_all
  have w: "wrap_transform E plain enc sid tx =
      Some (enc\<lparr>ec_nonce_ctr := ec_nonce_ctr enc + 1\<rparr>, tx @ nbt_bytes (word_of_nat (length frame)) @ frame)"
    unfolding wrap_transform_def Let_def aad_def [symmetric] n_def [symmetric] sealed prod.case c bind.bind_lunit f
    by simp
  have d: "decrypt_transform E frame (enc\<lparr>ec_c2s := ec_s2c enc\<rparr>) = Some plain"
    using lt la sz nonce opens assms(3) cipher_nonce_len_bound(1) [of "ec_cipher enc"]
    by (simp add: decrypt_transform_def frame_def slice_get_def slice_from_def unat_of_nat del: bind_Some_iff)
  show ?thesis
    using w d lt la sid by (intro exI [of _ frame]) (simp add: frame_def is_transform_def)
qed

text \<open>(C35) Sealing is sound for the peer: what \<open>wrap_transform\<close> appends to the buffer is a
  four-byte frame prefix and a transform frame that names the session and opens, under the
  server-to-client key, to exactly the plaintext. The nonce counter advances by one, the
  counter and the keys are otherwise unchanged, and no byte already in the buffer moves.\<close>

theorem wrap_then_decrypt:
  assumes "crypto_ok E" and "aead_ok E" and "length plain < 2 ^ 32"
  shows "\<exists>frame. wrap_transform E plain enc sid tx =
      Some (enc\<lparr>ec_nonce_ctr := ec_nonce_ctr enc + 1\<rparr>, tx @ nbt_bytes (word_of_nat (length frame)) @ frame) \<and>
    is_transform frame \<and> length frame = 52 + length plain \<and> u64_le (take 8 (drop 44 frame)) = sid \<and>
    decrypt_transform E frame (enc\<lparr>ec_c2s := ec_s2c enc\<rparr>) = Some plain"
  by (rule wrap_opens [OF assms])

theorem wrap_then_decrypt_witness:
  "\<exists>frame. decrypt_transform demo frame
      \<lparr>ec_cipher = 2, ec_c2s = zbytes 32, ec_s2c = zbytes 32, ec_nonce_ctr = 0\<rparr> = Some [1, 2, 3] \<and>
    length frame = 55"
  using wrap_then_decrypt [OF crypto_ok_unit aead_ok_unit, of "[1, 2, 3]"
      "\<lparr>ec_cipher = 2, ec_c2s = zbytes 32, ec_s2c = zbytes 32, ec_nonce_ctr = 0\<rparr>" 7 "[]"]
  by auto

end
