(* ===== verification/Net.thy ===== *)
theory Net
  imports Smb2_Msg
begin

text \<open>
  Interface enumeration of \<open>src/src/net.rs\<close>. What \<open>getifaddrs\<close>, \<open>if_nametoindex\<close> and
  \<open>/sys/class/net\<close> report is an argument: the list of interface addresses (\<open>None\<close> when the call
  fails), an index per name, and the contents of the speed file of a name. Addresses are their
  octets in network order.
\<close>

section \<open>Interfaces\<close>

abbreviation (input) IF_CAP_RSS :: u32 where "IF_CAP_RSS \<equiv> 1"

datatype ip_addr = V4 bytes | V6 bytes

record iface =
  if_index :: u32
  if_addr :: ip_addr
  if_speed :: u64
  if_capability :: u32
  if_loopback :: bool

record ifaddr =
  ifa_name :: rstr
  ifa_up :: bool
  ifa_loopback :: bool
  ifa_addr :: "ip_addr option option"

text \<open>\<open>parse::<i64>()\<close>: an optional sign and digits, in range.\<close>

definition parse_i64 :: "rstr \<Rightarrow> int option" where
  "parse_i64 s =
     (case s of
        c # d \<Rightarrow> if c = 45 then (if d \<noteq> [] \<and> list_all is_digit d \<and> dec_value d \<le> 2 ^ 63
                                 then Some (- int (dec_value d)) else None)
                 else map_option int (parse_uint 63 s)
      | [] \<Rightarrow> None)"

definition link_speed_bps :: "(rstr \<Rightarrow> rstr option) \<Rightarrow> rstr \<Rightarrow> bool \<Rightarrow> u64" where
  "link_speed_bps speed_file name loopback =
     (let fallback = (if loopback then 100000000000 else 10000000000)
      in case speed_file name of
           None \<Rightarrow> fallback
         | Some s \<Rightarrow>
             (case parse_i64 (trim s) of
                None \<Rightarrow> fallback
              | Some mbps \<Rightarrow> if mbps > 0 then word_of_int mbps * 1000000 else fallback))"

text \<open>One round of the loop: interfaces without an address, down, or of another address family
  (\<open>Some None\<close>) are skipped.\<close>

definition iface_of :: "(rstr \<Rightarrow> rstr option) \<Rightarrow> (rstr \<Rightarrow> u32) \<Rightarrow> ifaddr \<Rightarrow> iface option" where
  "iface_of speed_file nametoindex ifa =
     (case ifa_addr ifa of
        None \<Rightarrow> None
      | Some family \<Rightarrow>
          if \<not> ifa_up ifa then None
          else (case family of
                  None \<Rightarrow> None
                | Some addr \<Rightarrow>
                    Some \<lparr>if_index = nametoindex (ifa_name ifa), if_addr = addr,
                          if_speed = link_speed_bps speed_file (ifa_name ifa) (ifa_loopback ifa),
                          if_capability = IF_CAP_RSS, if_loopback = ifa_loopback ifa\<rparr>))"

definition interfaces ::
  "(rstr \<Rightarrow> rstr option) \<Rightarrow> (rstr \<Rightarrow> u32) \<Rightarrow> ifaddr list option \<Rightarrow> iface list" where
  "interfaces speed_file nametoindex ifap =
     (case ifap of None \<Rightarrow> [] | Some l \<Rightarrow> List.map_filter (iface_of speed_file nametoindex) l)"

section \<open>Encoding\<close>

definition sockaddr_bytes :: "ip_addr \<Rightarrow> bytes" where
  "sockaddr_bytes a =
     (case a of
        V4 o4 \<Rightarrow> le16 2 @ le16 0 @ o4 @ zbytes 8
      | V6 o6 \<Rightarrow> le16 23 @ le16 0 @ le32 0 @ o6 @ le32 0)"

definition iface_entry :: "u32 \<Rightarrow> iface \<Rightarrow> bytes" where
  "iface_entry nxt ifc =
     (let sa = sockaddr_bytes (if_addr ifc)
      in le32 nxt @ le32 (if_index ifc) @ le32 (if_capability ifc) @ le32 0 @ le64 (if_speed ifc) @
         sa @ zbytes (128 - length sa))"

fun iface_entries :: "iface list \<Rightarrow> bytes \<Rightarrow> nat list \<Rightarrow> bytes \<times> nat list" where
  "iface_entries [] out offs = (out, offs)"
| "iface_entries (ifc # ifs) out offs =
     iface_entries ifs (out @ iface_entry 0 ifc) (offs @ [length out])"

definition encode_interface_info :: "iface list \<Rightarrow> bytes option" where
  "encode_interface_info ifs =
     (case iface_entries ifs [] [] of (out, offs) \<Rightarrow> patch_entries offs out)"

section \<open>Facts\<close>

fun ip_ok :: "ip_addr \<Rightarrow> bool" where
  "ip_ok (V4 os) \<longleftrightarrow> length os = 4"
| "ip_ok (V6 os) \<longleftrightarrow> length os = 16"

lemma length_iface_entry: "ip_ok (if_addr i) \<Longrightarrow> length (iface_entry n i) = 152"
  by (cases "if_addr i") (simp_all add: iface_entry_def sockaddr_bytes_def Let_def)

lemma iface_entries_eq:
  "list_all (\<lambda>i. ip_ok (if_addr i)) ifs \<Longrightarrow>
     iface_entries ifs out offs = (out @ concat (map (iface_entry 0) ifs),
       offs @ map (\<lambda>k. length out + 152 * k) [0..<length ifs])"
proof (induction ifs arbitrary: out offs)
  case Nil
  then show ?case by simp
next
  case (Cons i ifs)
  have u: "[0..<Suc (length ifs)] = 0 # map Suc [0..<length ifs]"
    by (simp add: map_Suc_upt upt_conv_Cons del: upt_Suc)
  from Cons show ?case
    by (simp add: length_iface_entry u comp_def algebra_simps del: upt_Suc)
qed

text \<open>The entries with their \<open>Next\<close> fields: 152 for all but the last.\<close>

fun linked_entries :: "iface list \<Rightarrow> bytes" where
  "linked_entries [] = []"
| "linked_entries [i] = iface_entry 0 i"
| "linked_entries (i # j # ifs) = iface_entry 152 i @ linked_entries (j # ifs)"

lemma iface_entry_patch:
  assumes "ip_ok (if_addr i)"
  shows "copy_at (pre @ iface_entry 0 i @ suf) (length pre) (le32 n) = Some (pre @ iface_entry n i @ suf)"
  using copy_at_mid [of "le32 0" "le32 n" "length pre" pre] by (simp add: iface_entry_def Let_def)

lemma patch_iface_entries:
  "list_all (\<lambda>i. ip_ok (if_addr i)) ifs \<Longrightarrow>
     patch_entries (map (\<lambda>k. length pre + 152 * k) [0..<length ifs]) (pre @ concat (map (iface_entry 0) ifs))
       = Some (pre @ linked_entries ifs)"
proof (induction ifs arbitrary: pre rule: linked_entries.induct)
  case (3 i j ifs)
  have u: "map (\<lambda>k. length pre + 152 * k) [0..<length (i # j # ifs)] =
      length pre # map (\<lambda>k. length (pre @ iface_entry 152 i) + 152 * k) [0..<length (j # ifs)]"
    using 3(2) by (simp add: map_upt_Suc length_iface_entry algebra_simps del: upt_Suc)
  have v: "map (\<lambda>k. length (pre @ iface_entry 152 i) + 152 * k) [0..<length (j # ifs)] =
      (length pre + 152) # map (\<lambda>k. length (pre @ iface_entry 152 i) + 152 * Suc k) [0..<length ifs]"
    using 3(2) by (simp add: map_upt_Suc length_iface_entry del: upt_Suc)
  have ih: "patch_entries (map (\<lambda>k. length (pre @ iface_entry 152 i) + 152 * k) [0..<length (j # ifs)])
      ((pre @ iface_entry 152 i) @ concat (map (iface_entry 0) (j # ifs)))
      = Some ((pre @ iface_entry 152 i) @ linked_entries (j # ifs))"
    using 3 by (intro "3.IH") simp
  have c: "copy_at (pre @ concat (map (iface_entry 0) (i # j # ifs))) (length pre) (le32 152)
      = Some ((pre @ iface_entry 152 i) @ concat (map (iface_entry 0) (j # ifs)))"
    using iface_entry_patch [of i pre "concat (map (iface_entry 0) (j # ifs))" 152] 3(2) by simp
  show ?case
    using ih unfolding u v by (simp add: c [simplified] del: bind_Some_iff upt_Suc)
qed simp_all

lemma length_linked_entries:
  "list_all (\<lambda>i. ip_ok (if_addr i)) ifs \<Longrightarrow> length (linked_entries ifs) = 152 * length ifs"
  by (induction ifs rule: linked_entries.induct) (simp_all add: length_iface_entry)

text \<open>(C39) The network-interface reply is a well-formed chain: encoding never fails, each interface
  takes one 152-byte structure, and following the \<open>Next\<close> offsets from the first structure
  visits every interface in order and stops at the last one.\<close>

theorem interface_info_layout:
  assumes "list_all (\<lambda>i. ip_ok (if_addr i)) ifs"
  shows "encode_interface_info ifs = Some (linked_entries ifs) \<and>
    length (linked_entries ifs) = 152 * length ifs"
  using patch_iface_entries [OF assms, of "[]"] assms
  by (simp add: encode_interface_info_def iface_entries_eq length_linked_entries)

theorem interface_info_layout_witness:
  "\<exists>bs. encode_interface_info
     [\<lparr>if_index = 2, if_addr = V4 [10, 0, 0, 1], if_speed = 1000, if_capability = 1, if_loopback = False\<rparr>,
      \<lparr>if_index = 3, if_addr = V6 (zbytes 16), if_speed = 1000, if_capability = 1, if_loopback = False\<rparr>]
       = Some bs \<and> length bs = 304"
  using interface_info_layout
    [of "[\<lparr>if_index = 2, if_addr = V4 [10, 0, 0, 1], if_speed = 1000, if_capability = 1, if_loopback = False\<rparr>,
      \<lparr>if_index = 3, if_addr = V6 (zbytes 16), if_speed = 1000, if_capability = 1, if_loopback = False\<rparr>]"]
  by simp

end
