(* ===== verification/Server.thy ===== *)
theory Server
  imports Net
begin

text \<open>
  Server and connection state, and the operations of \<open>src/src/smb2/handlers.rs\<close> that act on it
  outside any one command: message-id replay protection, credits, handle close side effects,
  lease breaks, session end and connection teardown. The parts of \<open>Srv\<close> that never change are
  the record \<open>srv\<close>; its shared tables, the world, and what one request threads through the
  handlers (\<open>pc\<close>, \<open>chain\<close>, \<open>tx\<close>) are the record \<open>st\<close>. A request is one atomic step: the mutexes
  are not modelled.
\<close>

section \<open>State\<close>

record srv =
  sv_cfg :: config
  sv_guid :: bytes
  sv_max_read :: u32
  sv_start_ft :: u64
  sv_users :: "(rstr, bytes) hmap"
  sv_allow_guest :: bool
  sv_interfaces :: "iface list"

record 'w st =
  g_sessions :: registry
  g_mail :: "mailbox list"
  g_leases :: lease_table
  g_w :: 'w
  g_pc :: proto_conn
  g_cx :: chain
  g_tx :: bytes

text \<open>Writing a response into the state's buffer.\<close>

definition put :: "bytes \<Rightarrow> 'w st \<Rightarrow> 'w st" where
  "put b s = s\<lparr>g_tx := g_tx s @ b\<rparr>"

definition begin_r :: "req_hdr \<Rightarrow> u32 \<Rightarrow> 'w st \<Rightarrow> 'w st" where
  "begin_r h st s = s\<lparr>g_tx := begin_resp (g_tx s) h st (cx_related (g_cx s)) (cx_tree_id (g_cx s))
     (cx_session_id (g_cx s))\<rparr>"

definition err_r :: "req_hdr \<Rightarrow> u32 \<Rightarrow> 'w st \<Rightarrow> 'w st" where
  "err_r h st s = s\<lparr>g_tx := err_resp (g_tx s) h st (g_cx s)\<rparr>"

definition simple_resp :: "req_hdr \<Rightarrow> 'w st \<Rightarrow> 'w st" where
  "simple_resp h s = put (le16 4 @ le16 0) (begin_r h SUCCESS s)"

text \<open>Storing back the session a handler holds locked: the handler writes to the object, whether or not
  it is still registered.\<close>

definition set_sess :: "session \<Rightarrow> 'w st \<Rightarrow> 'w st" where
  "set_sess ss s = s\<lparr>g_sessions := hset (cx_session_id (g_cx s)) ss (g_sessions s)\<rparr>"

definition set_close :: "'w st \<Rightarrow> 'w st" where
  "set_close s = s\<lparr>g_pc := (g_pc s)\<lparr>pc_close := True\<rparr>\<rparr>"

definition parse_fid :: "rdr \<Rightarrow> chain \<Rightarrow> (u64 \<times> rdr) option" where
  "parse_fid r c = do {
     (persistent, r) \<leftarrow> rdr_u64 r;
     (volatile, r) \<leftarrow> rdr_u64 r;
     if persistent = U64_MAX \<and> volatile = U64_MAX
     then map_option (\<lambda>f. (f, r)) (cx_last_fid c)
     else Some (volatile, r) }"

definition fid_bytes :: "u64 \<Rightarrow> bytes" where
  "fid_bytes fid = le64 fid @ le64 fid"

section \<open>Message ids\<close>

abbreviation (input) MSG_WINDOW :: nat where "MSG_WINDOW \<equiv> 65536"
abbreviation (input) MSG_SEEN_MAX :: nat where "MSG_SEEN_MAX \<equiv> 4096"

text \<open>The inner loop: while the lowest unused id is remembered, forget it and go on.\<close>

function advance :: "nat \<Rightarrow> nat list \<Rightarrow> nat \<times> nat list" where
  "advance low seen = (if low \<in> set seen then advance (low + 1) (remove1 low seen) else (low, seen))"
  by pat_completeness auto
termination
  by (relation "measure (\<lambda>(low, seen). length seen)")
    (auto simp: length_remove1 dest: length_pos_if_in_set)

declare advance.simps [simp del]

lemma length_advance: "length (snd (advance low seen)) \<le> length seen"
  by (induction low seen rule: advance.induct)
    (subst advance.simps, auto simp: length_remove1)

lemma advance_lt:
  assumes "low \<in> set seen"
  shows "length (snd (advance low seen)) < length seen"
proof -
  have "length (remove1 low seen) < length seen"
    using assms length_pos_if_in_set [OF assms] by (simp add: length_remove1 del: length_greater_0_conv)
  with length_advance [of "low + 1" "remove1 low seen"] assms show ?thesis
    by (subst advance.simps) simp
qed

lemma advance_notin: "fst (advance low seen) \<notin> set (snd (advance low seen))"
  by (induction low seen rule: advance.induct) (subst (1 2) advance.simps, auto)

text \<open>The outer loop: with too many ids above a gap, give up on the gap.\<close>

function settle :: "nat \<Rightarrow> nat list \<Rightarrow> nat \<times> nat list" where
  "settle low seen =
     (case advance low seen of
        (low, seen) \<Rightarrow> if length seen \<le> MSG_SEEN_MAX then (low, seen) else settle (hd seen) seen)"
  by pat_completeness auto
termination
proof (relation "measure (\<lambda>(low, seen). 2 * length seen + (if low \<in> set seen then 0 else 1))", goal_cases)
  case (2 low seen low' seen')
  then have a: "advance low seen = (low', seen')" and l: "length seen' > MSG_SEEN_MAX" by simp_all
  then have h: "hd seen' \<in> set seen'" by (intro hd_in_set) auto
  have "length seen' \<le> length seen" using length_advance [of low seen] a by simp
  moreover have "length seen' < length seen" if "low \<in> set seen" using advance_lt [OF that] a by simp
  ultimately show ?case using h by auto
qed simp

declare settle.simps [simp del]

definition consume_msg_ids :: "proto_conn \<Rightarrow> u64 \<Rightarrow> u16 \<Rightarrow> bool \<times> proto_conn" where
  "consume_msg_ids pc mid charge =
     (let i = unat mid;
          n = unat (max charge 1);
          e = i + n
      in if e \<ge> 2 ^ 64 then (False, pc)
         else if i < pc_msg_low pc \<or> e > min (pc_msg_low pc + MSG_WINDOW) (2 ^ 64 - 1) then (False, pc)
         else if \<exists>j \<in> set (pc_msg_seen pc). i \<le> j \<and> j < e then (False, pc)
         else (case settle (pc_msg_low pc) (fold insort_insert [i..<e] (pc_msg_seen pc)) of
                 (low, seen) \<Rightarrow> (True, pc\<lparr>pc_msg_low := low, pc_msg_seen := seen\<rparr>)))"

section \<open>Credits\<close>

abbreviation (input) CREDIT_WINDOW :: int where "CREDIT_WINDOW \<equiv> 512"

definition take_credits :: "proto_conn \<Rightarrow> req_hdr \<Rightarrow> u16 \<times> proto_conn" where
  "take_credits pc h =
     (let out = max 0 (pc_credits_out pc - uint (max (h_credit_charge h) 1));
          avail = max 1 (CREDIT_WINDOW - out);
          grant = word_of_int (min avail (max 1 (uint (h_credits h)))) :: u16
      in (grant, pc\<lparr>pc_credits_out := out + uint grant\<rparr>))"

section \<open>Pended notifications\<close>

fun notify_sweep :: "u64 \<Rightarrow> (u64 \<times> u64) list \<Rightarrow> (u64 \<times> u64) list \<times> notify_done list" where
  "notify_sweep fid [] = ([], [])"
| "notify_sweep fid ((f, a) # xs) =
     (case notify_sweep fid xs of
        (active, done) \<Rightarrow>
          if f = fid then (active, \<lparr>nd_async_id = a, nd_status = NOTIFY_CLEANUP\<rparr> # done)
          else ((f, a) # active, done))"

definition notify_cleanup :: "u64 \<Rightarrow> 'w st \<Rightarrow> 'w st" where
  "notify_cleanup fid s =
     (case notify_sweep fid (pc_notify_active (g_pc s)) of
        (active, done) \<Rightarrow> s\<lparr>g_pc := (g_pc s)\<lparr>pc_notify_active := active,
                                 pc_notify_done := pc_notify_done (g_pc s) @ done\<rparr>\<rparr>)"

definition cancel :: "req_hdr \<Rightarrow> 'w st \<Rightarrow> 'w st" where
  "cancel h s =
     (case h_async_id h of
        None \<Rightarrow> s
      | Some aid \<Rightarrow>
          (let act = pc_notify_active (g_pc s)
           in case position (\<lambda>(_, a). a = aid) act of
                None \<Rightarrow> s
              | Some pos \<Rightarrow>
                  s\<lparr>g_pc := (g_pc s)\<lparr>
                      pc_notify_active := take pos act @ drop (Suc pos) act,
                      pc_notify_done := pc_notify_done (g_pc s)
                        @ [\<lparr>nd_async_id = snd (act ! pos), nd_status = CANCELLED\<rparr>]\<rparr>\<rparr>))"

section \<open>Lease breaks and closing\<close>

definition post_break :: "break_msg \<Rightarrow> mailbox list \<Rightarrow> mailbox list" where
  "post_break b mbs =
     (if bm_wid b < length mbs then mbs[bm_wid b := mb_post b (mbs ! bm_wid b)] else mbs)"

definition break_leases :: "file_key \<Rightarrow> bytes option \<Rightarrow> 'w st \<Rightarrow> 'w st" where
  "break_leases key except s =
     (case break_conflicts key except (g_leases s) of
        (bs, leases) \<Rightarrow> s\<lparr>g_leases := leases, g_mail := fold post_break bs (g_mail s)\<rparr>)"

definition release_lease :: "open_file \<Rightarrow> lease_table \<Rightarrow> lease_table" where
  "release_lease f m =
     (case (of_oplock_ino f, of_lease_key f) of
        (Some ino, Some lk) \<Rightarrow>
          if of_lease_granted f AND LEASE_HANDLE_CACHING = 0
          then lt_release (of_share_idx f, ino) lk m else m
      | _ \<Rightarrow> m)"

definition remove_path :: "'w ext \<Rightarrow> open_file \<Rightarrow> 'w \<Rightarrow> (errno + unit) \<times> 'w" where
  "remove_path E f w =
     (if 0 \<in> set (of_path f) then (Inl EIO, w)
      else if of_is_dir f then os_rmdir E (of_path f) w else os_unlink E (of_path f) w)"

definition finish_close :: "'w ext \<Rightarrow> open_file \<Rightarrow> 'w st \<Rightarrow> u32 \<times> 'w st" where
  "finish_close E f s =
     (let s = s\<lparr>g_leases := release_lease f (g_leases s)\<rparr>
      in if \<not> of_delete_on_close f then (SUCCESS, s)
         else (let s = (if of_is_dir f then s
                        else (case fstat_meta E (of_fd f) (g_w s) of
                                Inl _ \<Rightarrow> s
                              | Inr m \<Rightarrow> break_leases (of_share_idx f, m_ino m) (of_lease_key f) s))
               in case remove_path E f (g_w s) of
                    (Inr (), w) \<Rightarrow> (SUCCESS, s\<lparr>g_w := w\<rparr>)
                  | (Inl e, w) \<Rightarrow> (from_errno e, s\<lparr>g_w := w\<rparr>)))"

text \<open>Dropping an \<open>OpenFile\<close> closes its descriptor.\<close>

definition drop_file :: "'w ext \<Rightarrow> open_file \<Rightarrow> 'w st \<Rightarrow> 'w st" where
  "drop_file E f s = (if of_fd f \<ge> 0 then s\<lparr>g_w := os_close E (of_fd f) (g_w s)\<rparr> else s)"

definition close_file :: "'w ext \<Rightarrow> open_file \<Rightarrow> 'w st \<Rightarrow> 'w st" where
  "close_file E f s = drop_file E f (snd (finish_close E f s))"

section \<open>Ending sessions and connections\<close>

definition end_session :: "'w ext \<Rightarrow> u64 \<Rightarrow> 'w st \<Rightarrow> 'w st" where
  "end_session E sid s =
     (case reg_remove (g_sessions s) sid of
        (None, m) \<Rightarrow> s\<lparr>g_sessions := m\<rparr>
      | (Some ss, m) \<Rightarrow>
          fold (close_file E) (fst (take_all (ss_handles ss))) (s\<lparr>g_sessions := m\<rparr>))"

text \<open>\<open>s.channels.saturating_sub(1)\<close>, and whether it is now zero.\<close>

definition drop_channel :: "u64 \<Rightarrow> session \<Rightarrow> 'w st \<Rightarrow> bool \<times> 'w st" where
  "drop_channel sid ss s =
     (let n = (if ss_channels ss = 0 then 0 else ss_channels ss - 1)
      in (n = 0, s\<lparr>g_sessions := hset sid (ss\<lparr>ss_channels := n\<rparr>) (g_sessions s)\<rparr>))"

definition logoff :: "'w ext \<Rightarrow> req_hdr \<Rightarrow> 'w st \<Rightarrow> 'w st" where
  "logoff E h s =
     (let sid = cx_session_id (g_cx s)
      in if \<not> (case hget (pc_channels (g_pc s)) sid of None \<Rightarrow> False | Some c \<Rightarrow> ch_established c)
         then err_r h USER_SESSION_DELETED s
         else
           (let s = s\<lparr>g_pc := (g_pc s)\<lparr>pc_channels := hdel sid (pc_channels (g_pc s))\<rparr>\<rparr>;
                s = (case reg_get (g_sessions s) sid of
                       None \<Rightarrow> s
                     | Some ss \<Rightarrow>
                         (case drop_channel sid ss s of
                            (gone, s) \<Rightarrow> if gone then end_session E sid s else s))
            in simple_resp h s))"

definition teardown_channel :: "'w ext \<Rightarrow> u64 \<times> channel \<Rightarrow> 'w st \<Rightarrow> 'w st" where
  "teardown_channel E sc s =
     (case sc of (sid, ch) \<Rightarrow>
        (case reg_get (g_sessions s) sid of
           None \<Rightarrow> s
         | Some ss \<Rightarrow>
             (case (if ch_established ch then drop_channel sid ss s else (\<not> ss_established ss, s)) of
                (gone, s) \<Rightarrow> if gone then end_session E sid s else s)))"

text \<open>\<open>channels.drain()\<close> empties the map; the model visits the channels in the map's list order.\<close>

definition teardown_conn :: "'w ext \<Rightarrow> 'w st \<Rightarrow> 'w st" where
  "teardown_conn E s =
     fold (teardown_channel E) (pc_channels (g_pc s)) (s\<lparr>g_pc := (g_pc s)\<lparr>pc_channels := []\<rparr>\<rparr>)"

end
