(* ===== verification/Server_Facts.thy ===== *)
theory Server_Facts
  imports Server
begin

text \<open>
  What the connection-level operations of \<open>Server\<close> guarantee: no message id is used twice, the
  credit window holds, and sessions end exactly when their last channel goes away.
\<close>

section \<open>Message ids\<close>

text \<open>The ids a connection counts as used, and the shape of its window.\<close>

definition used :: "nat \<Rightarrow> nat list \<Rightarrow> nat set" where
  "used low seen = {i. i < low} \<union> set seen"

definition window_shape :: "nat \<Rightarrow> nat list \<Rightarrow> bool" where
  "window_shape low seen \<longleftrightarrow> sorted seen \<and> distinct seen \<and>
     (\<forall>x \<in> set seen. low \<le> x \<and> x < low + MSG_WINDOW \<and> x < 2 ^ 64 - 1)"

definition msg_ok :: "proto_conn \<Rightarrow> bool" where
  "msg_ok pc \<longleftrightarrow> window_shape (pc_msg_low pc) (pc_msg_seen pc) \<and>
     pc_msg_low pc \<notin> set (pc_msg_seen pc) \<and> length (pc_msg_seen pc) \<le> MSG_SEEN_MAX \<and>
     pc_msg_low pc < 2 ^ 64"

definition msg_ids :: "u64 \<Rightarrow> u16 \<Rightarrow> nat list" where
  "msg_ids mid charge = [unat mid..<unat mid + unat (max charge 1)]"

lemma window_shape_weaken:
  "window_shape low seen \<Longrightarrow> low \<le> l \<Longrightarrow> \<forall>x \<in> set seen. l \<le> x \<Longrightarrow> window_shape l seen"
  unfolding window_shape_def by (meson add_le_mono1 less_le_trans)

lemma advance_spec:
  "window_shape low seen \<Longrightarrow> low < 2 ^ 64 \<Longrightarrow> advance low seen = (l, s) \<Longrightarrow>
     window_shape l s \<and> l < 2 ^ 64 \<and> used l s = used low seen"
proof (induction low seen rule: advance.induct)
  case (1 low seen)
  show ?case
  proof (cases "low \<in> set seen")
    case True
    from True 1(2) have b: "low < 2 ^ 64 - 1" by (auto simp: window_shape_def)
    have sub: "set (remove1 low seen) = set seen - {low}"
      using 1(2) by (simp add: window_shape_def set_remove1_eq)
    have w: "window_shape (low + 1) (remove1 low seen)"
      unfolding window_shape_def sub
    proof (intro conjI ballI)
      fix x assume x: "x \<in> set seen - {low}"
      from 1(2) x have lx: "low \<le> x" "x \<noteq> low" and ux: "x < low + MSG_WINDOW" and bx: "x < 2 ^ 64 - 1"
        unfolding window_shape_def by blast+
      from lx show "low + 1 \<le> x" by simp
      from ux show "x < low + 1 + MSG_WINDOW" by simp
      from bx show "x < 2 ^ 64 - 1" .
    qed (use 1(2) in \<open>simp_all add: window_shape_def sorted_remove1\<close>)
    have u: "used (low + 1) (remove1 low seen) = used low seen"
      unfolding used_def sub using True by (auto simp: less_Suc_eq)
    from 1(4) True have "advance (low + 1) (remove1 low seen) = (l, s)" by (simp add: advance.simps [of low])
    from 1(1) [OF True w _ this] b u show ?thesis by simp
  next
    case False
    with 1 show ?thesis by (simp add: advance.simps [of low])
  qed
qed

lemma settle_spec:
  "window_shape low seen \<Longrightarrow> low < 2 ^ 64 \<Longrightarrow> settle low seen = (l, s) \<Longrightarrow>
     window_shape l s \<and> l < 2 ^ 64 \<and> l \<notin> set s \<and> length s \<le> MSG_SEEN_MAX \<and> used low seen \<subseteq> used l s"
proof (induction low seen rule: settle.induct)
  case (1 low seen)
  obtain l1 s1 where a: "advance low seen = (l1, s1)" by fastforce
  note sp = advance_spec [OF 1(2,3) a]
  show ?case
  proof (cases "length s1 \<le> MSG_SEEN_MAX")
    case True
    with 1(4) a have "l = l1" "s = s1" by (simp_all add: settle.simps [of low])
    with sp True advance_notin [of low seen] a show ?thesis by simp
  next
    case False
    from 1(4) a False have st: "settle (hd s1) s1 = (l, s)" by (simp add: settle.simps [of low])
    from False have h: "hd s1 \<in> set s1" by (intro hd_in_set) auto
    from sp have srt: "sorted s1" and ge: "\<forall>x \<in> set s1. l1 \<le> x" and lt: "\<forall>x \<in> set s1. x < 2 ^ 64 - 1"
      unfolding window_shape_def by blast+
    have hmin: "\<forall>x \<in> set s1. hd s1 \<le> x" using srt by (cases s1) simp_all
    from ge h have le: "l1 \<le> hd s1" by blast
    have w: "window_shape (hd s1) s1"
      by (rule window_shape_weaken [OF conjunct1 [OF sp] le hmin])
    have hb: "hd s1 < 2 ^ 64" using lt h by (meson less_le_trans diff_le_self)
    have u: "used l1 s1 \<subseteq> used (hd s1) s1" unfolding used_def using le by auto
    show ?thesis
      using 1(1) [OF a [symmetric] False w hb st] sp u by blast
  qed
qed

lemma fold_insort_insert:
  "sorted xs \<Longrightarrow> distinct xs \<Longrightarrow>
     sorted (fold insort_insert ys xs) \<and> distinct (fold insort_insert ys xs) \<and>
     set (fold insort_insert ys xs) = set ys \<union> set xs" for xs ys :: "nat list"
  by (induction ys arbitrary: xs) (auto simp: sorted_insort_insert distinct_insort_insert set_insort_insert)

lemma consume_spec:
  assumes "msg_ok pc" and "consume_msg_ids pc mid charge = (ok, pc')"
  shows "msg_ok pc'" and "used (pc_msg_low pc) (pc_msg_seen pc) \<subseteq> used (pc_msg_low pc') (pc_msg_seen pc')"
    and "\<not> ok \<Longrightarrow> pc' = pc"
    and "ok \<Longrightarrow> set (msg_ids mid charge) \<inter> used (pc_msg_low pc) (pc_msg_seen pc) = {}"
    and "ok \<Longrightarrow> set (msg_ids mid charge) \<subseteq> used (pc_msg_low pc') (pc_msg_seen pc')"
proof -
  let ?i = "unat mid" and ?e = "unat mid + unat (max charge 1)"
  let ?low = "pc_msg_low pc" and ?seen = "pc_msg_seen pc"
  let ?fresh = "?e < 2 ^ 64 \<and> \<not> (?i < ?low \<or> ?e > min (?low + MSG_WINDOW) (2 ^ 64 - 1)) \<and>
    \<not> (\<exists>j \<in> set ?seen. ?i \<le> j \<and> j < ?e)"
  have all: "msg_ok pc' \<and> used ?low ?seen \<subseteq> used (pc_msg_low pc') (pc_msg_seen pc') \<and> (\<not> ok \<longrightarrow> pc' = pc) \<and>
      (ok \<longrightarrow> set (msg_ids mid charge) \<inter> used ?low ?seen = {}) \<and>
      (ok \<longrightarrow> set (msg_ids mid charge) \<subseteq> used (pc_msg_low pc') (pc_msg_seen pc'))"
  proof (cases ?fresh)
    case False
    with assms(2) have "ok = False" "pc' = pc"
      by (auto simp: consume_msg_ids_def Let_def split: if_splits)
    with assms(1) show ?thesis by simp
  next
    case True
    let ?s = "fold insort_insert [?i..<?e] ?seen"
    obtain l s where st: "settle ?low ?s = (l, s)" by fastforce
    have r: "ok = True" "pc' = pc\<lparr>pc_msg_low := l, pc_msg_seen := s\<rparr>"
      using assms(2) True st by (auto simp: consume_msg_ids_def Let_def split: if_splits)
    from assms(1) have shape: "window_shape ?low ?seen" and lb: "?low < 2 ^ 64" by (simp_all add: msg_ok_def)
    have f: "sorted ?s \<and> distinct ?s \<and> set ?s = set [?i..<?e] \<union> set ?seen"
      using shape by (intro fold_insort_insert) (simp_all add: window_shape_def)
    have "window_shape ?low ?s"
      using shape f True by (auto simp: window_shape_def)
    note sp = settle_spec [OF this lb st]
    have "set (msg_ids mid charge) \<inter> used ?low ?seen = {}"
      using True by (fastforce simp: msg_ids_def used_def)
    with sp f r show ?thesis by (auto simp: msg_ok_def used_def msg_ids_def)
  qed
  then show "msg_ok pc'" and "used ?low ?seen \<subseteq> used (pc_msg_low pc') (pc_msg_seen pc')"
    and "\<not> ok \<Longrightarrow> pc' = pc"
    and "ok \<Longrightarrow> set (msg_ids mid charge) \<inter> used ?low ?seen = {}"
    and "ok \<Longrightarrow> set (msg_ids mid charge) \<subseteq> used (pc_msg_low pc') (pc_msg_seen pc')"
    by blast+
qed

text \<open>The ids accepted over a sequence of requests.\<close>

fun accepted_ids :: "proto_conn \<Rightarrow> (u64 \<times> u16) list \<Rightarrow> nat list" where
  "accepted_ids pc [] = []"
| "accepted_ids pc ((mid, charge) # rs) =
     (case consume_msg_ids pc mid charge of
        (ok, pc) \<Rightarrow> (if ok then msg_ids mid charge else []) @ accepted_ids pc rs)"

lemma accepted_ids_fresh:
  "msg_ok pc \<Longrightarrow> distinct (accepted_ids pc rs) \<and>
     set (accepted_ids pc rs) \<inter> used (pc_msg_low pc) (pc_msg_seen pc) = {}"
proof (induction rs arbitrary: pc)
  case Nil
  then show ?case by simp
next
  case (Cons r rs)
  obtain mid charge where r: "r = (mid, charge)" by fastforce
  obtain ok pc' where c: "consume_msg_ids pc mid charge = (ok, pc')" by fastforce
  note sp = consume_spec [OF Cons.prems c]
  have d: "distinct (msg_ids mid charge)" by (simp add: msg_ids_def)
  from Cons.IH [OF sp(1)] sp(2-5) d show ?case by (cases ok) (auto simp: r c)
qed

lemma msg_ok_new [simp]: "msg_ok (proto_conn_new a b c d)"
  by (simp add: msg_ok_def window_shape_def proto_conn_new_def)

text \<open>(C28) No message id is used twice on a connection: over any sequence of requests, whatever
  ids and credit charges the client sends, the ids the server accepts are pairwise
  distinct.\<close>

theorem no_message_id_replay: "distinct (accepted_ids (proto_conn_new max_read wid conn_idx gen) rs)"
  by (simp add: accepted_ids_fresh)

text \<open>A client that numbers its requests in order.\<close>

fun in_order :: "nat \<Rightarrow> u16 list \<Rightarrow> (u64 \<times> u16) list" where
  "in_order i [] = []"
| "in_order i (c # cs) = (word_of_nat i, c) # in_order (i + unat (max c 1)) cs"

definition total_charge :: "u16 list \<Rightarrow> nat" where
  "total_charge cs = sum_list (map (\<lambda>c. unat (max c 1)) cs)"

lemma advance_run: "l \<le> e \<Longrightarrow> advance l [l..<e] = (e, [])"
proof (induction "e - l" arbitrary: l)
  case 0
  then show ?case by (simp add: advance.simps)
next
  case (Suc n)
  then have "l < e" and r: "remove1 l [l..<e] = [l + 1..<e]" by (simp_all add: upt_conv_Cons)
  with Suc show ?case by (subst advance.simps) simp
qed

lemma fold_insort_upt: "fold insort_insert [i..<e] [] = [i..<e]" for i e :: nat
proof (rule sorted_distinct_set_unique)
  show "sorted (fold insort_insert [i..<e] [])" "distinct (fold insort_insert [i..<e] [])"
    "set (fold insort_insert [i..<e] []) = set [i..<e]"
    using fold_insort_insert [of "[]" "[i..<e]"] by simp_all
qed simp_all

lemma consume_in_order:
  assumes "pc_msg_seen pc = []" and "pc_msg_low pc + unat (max c 1) < 2 ^ 64"
  shows "consume_msg_ids pc (word_of_nat (pc_msg_low pc)) c =
    (True, pc\<lparr>pc_msg_low := pc_msg_low pc + unat (max c 1), pc_msg_seen := []\<rparr>)"
proof -
  have u: "unat (word_of_nat (pc_msg_low pc) :: u64) = pc_msg_low pc"
    using assms(2) by (simp add: unat_of_nat)
  have n: "unat (max c 1) < 65536" using unat_u16_bound [of "max c 1"] by simp
  have "settle (pc_msg_low pc) [pc_msg_low pc..<pc_msg_low pc + unat (max c 1)]
      = (pc_msg_low pc + unat (max c 1), [])"
    by (subst settle.simps) (simp add: advance_run)
  with assms n show ?thesis
    by (simp add: consume_msg_ids_def u fold_insort_upt Let_def)
qed

lemma in_order_accepted:
  "pc_msg_seen pc = [] \<Longrightarrow> pc_msg_low pc + total_charge cs < 2 ^ 64 \<Longrightarrow>
     accepted_ids pc (in_order (pc_msg_low pc) cs) = [pc_msg_low pc..<pc_msg_low pc + total_charge cs]"
proof (induction cs arbitrary: pc)
  case Nil
  then show ?case by (simp add: total_charge_def)
next
  case (Cons c cs)
  let ?n = "unat (max c 1)"
  let ?pc = "pc\<lparr>pc_msg_low := pc_msg_low pc + ?n, pc_msg_seen := []\<rparr>"
  have t: "total_charge (c # cs) = ?n + total_charge cs" by (simp add: total_charge_def)
  have c: "consume_msg_ids pc (word_of_nat (pc_msg_low pc)) c = (True, ?pc)"
    using Cons.prems t by (intro consume_in_order) simp_all
  have u: "msg_ids (word_of_nat (pc_msg_low pc)) c = [pc_msg_low pc..<pc_msg_low pc + ?n]"
    using Cons.prems by (simp add: msg_ids_def unat_of_nat)
  have ih: "accepted_ids ?pc (in_order (pc_msg_low ?pc) cs) = [pc_msg_low ?pc..<pc_msg_low ?pc + total_charge cs]"
    using Cons.prems t by (intro Cons.IH) simp_all
  have "[pc_msg_low pc..<pc_msg_low pc + ?n] @ [pc_msg_low pc + ?n..<pc_msg_low pc + ?n + total_charge cs]
      = [pc_msg_low pc..<pc_msg_low pc + (?n + total_charge cs)]"
    using upt_add_eq_append [of "pc_msg_low pc" "pc_msg_low pc + ?n" "total_charge cs"] by (simp add: add.assoc)
  with ih c u show ?case unfolding t by simp
qed

text \<open>(C29) Replay protection never refuses a well-behaved client: requests numbered in order
  from 0, each consuming as many ids as its credit charge, are all accepted, for as long as
  the 64-bit id space lasts.\<close>

theorem in_order_client_accepted:
  assumes "total_charge cs < 2 ^ 64"
  shows "accepted_ids (proto_conn_new max_read wid conn_idx gen) (in_order 0 cs) = [0..<total_charge cs]"
  using in_order_accepted [of "proto_conn_new max_read wid conn_idx gen" cs] assms
  by (simp add: proto_conn_new_def)

theorem in_order_client_accepted_witness:
  "accepted_ids (proto_conn_new 0 0 0 0) (in_order 0 [1, 0, 3]) = [0..<5]"
proof -
  have t: "total_charge [1, 0, 3] = 5" by (simp add: total_charge_def max_def word_le_nat_alt)
  then show ?thesis using in_order_client_accepted [of "[1, 0, 3]" 0 0 0 0] by simp
qed

section \<open>Credits\<close>

definition credits_ok :: "proto_conn \<Rightarrow> bool" where
  "credits_ok pc \<longleftrightarrow> 0 \<le> pc_credits_out pc \<and> pc_credits_out pc \<le> CREDIT_WINDOW"

lemma take_credits_grant:
  assumes "credits_ok pc"
  obtains out g where "out = max 0 (pc_credits_out pc - uint (max (h_credit_charge h) 1))"
    and "take_credits pc h = (word_of_int g, pc\<lparr>pc_credits_out := out + g\<rparr>)" and "uint (word_of_int g :: u16) = g"
    and "0 \<le> out" and "1 \<le> g" and "g \<le> 512 - out" and "g \<le> uint (h_credits h) \<or> g = 1"
proof -
  define out where "out = max 0 (pc_credits_out pc - uint (max (h_credit_charge h) 1))"
  define g where "g = min (max 1 (512 - out)) (max 1 (uint (h_credits h)))"
  have c: "1 \<le> uint (max (h_credit_charge h) 1)"
    by (cases "h_credit_charge h \<le> 1") (simp_all add: max_def word_less_def word_le_def)
  with assms have out: "0 \<le> out" "out \<le> 511" by (auto simp: out_def credits_ok_def)
  have g: "1 \<le> g" "g \<le> 512 - out" "g \<le> uint (h_credits h) \<or> g = 1" using out by (auto simp: g_def)
  then have ug: "uint (word_of_int g :: u16) = g" using out by (simp add: uint_word_of_int)
  have "take_credits pc h = (word_of_int g, pc\<lparr>pc_credits_out := out + uint (word_of_int g :: u16)\<rparr>)"
    unfolding take_credits_def Let_def out_def [symmetric] g_def [symmetric] ..
  then show thesis using that [OF out_def _ ug out(1) g] unfolding ug by blast
qed

text \<open>(C30) The credit window: every request is granted at least one credit, so a client can
  always send another; and the credits a connection has outstanding stay between 0 and 512,
  whatever it charges and asks for.\<close>

theorem credit_window:
  assumes "credits_ok pc" and "take_credits pc h = (grant, pc')"
  shows "credits_ok pc' \<and> 1 \<le> grant \<and> grant \<le> 512 \<and> (grant \<le> h_credits h \<or> grant = 1) \<and>
    pc_credits_out pc' = max 0 (pc_credits_out pc - uint (max (h_credit_charge h) 1)) + uint grant"
proof -
  obtain out g where out: "out = max 0 (pc_credits_out pc - uint (max (h_credit_charge h) 1))" "0 \<le> out"
    and t: "take_credits pc h = (word_of_int g, pc\<lparr>pc_credits_out := out + g\<rparr>)"
    and ug: "uint (word_of_int g :: u16) = g" and g: "1 \<le> g" "g \<le> 512 - out" "g \<le> uint (h_credits h) \<or> g = 1"
    by (rule take_credits_grant [OF assms(1)])
  have r: "grant = word_of_int g" "pc' = pc\<lparr>pc_credits_out := out + g\<rparr>" using t assms(2) by simp_all
  have "(1::u16) \<le> word_of_int g" "(word_of_int g :: u16) \<le> 512"
    unfolding word_le_def ug using g out by simp_all
  moreover have "word_of_int g \<le> h_credits h \<or> (word_of_int g :: u16) = 1"
    unfolding word_le_def ug using g(3) by (rule disj_forward) simp_all
  ultimately show ?thesis unfolding r credits_ok_def out(1) [symmetric] using out(2) g ug by simp
qed

theorem credit_window_witness:
  "\<exists>grant pc'. take_credits (proto_conn_new 0 0 0 0) sample_hdr = (grant, pc') \<and> 1 \<le> grant"
  using credit_window [of "proto_conn_new 0 0 0 0" sample_hdr]
  by (cases "take_credits (proto_conn_new 0 0 0 0) sample_hdr")
    (auto simp: credits_ok_def proto_conn_new_def)

section \<open>Sessions and connections\<close>

text \<open>Closing handles leaves the sessions and the connection's own state alone.\<close>

lemma break_leases_frame [simp]:
  "g_sessions (break_leases k e s) = g_sessions s" "g_pc (break_leases k e s) = g_pc s"
  "g_cx (break_leases k e s) = g_cx s" "g_tx (break_leases k e s) = g_tx s"
  "g_w (break_leases k e s) = g_w s"
  by (simp_all add: break_leases_def split: prod.split)

lemma finish_close_frame [simp]:
  "g_sessions (snd (finish_close E f s)) = g_sessions s" "g_pc (snd (finish_close E f s)) = g_pc s"
  "g_cx (snd (finish_close E f s)) = g_cx s" "g_tx (snd (finish_close E f s)) = g_tx s"
  by (simp_all add: finish_close_def Let_def split: sum.split prod.split unit.split)

lemma close_file_frame [simp]:
  "g_sessions (close_file E f s) = g_sessions s" "g_pc (close_file E f s) = g_pc s"
  "g_cx (close_file E f s) = g_cx s" "g_tx (close_file E f s) = g_tx s"
  by (simp_all add: close_file_def drop_file_def)

lemma close_files_frame [simp]:
  "g_sessions (fold (close_file E) fs s) = g_sessions s" "g_pc (fold (close_file E) fs s) = g_pc s"
  "g_cx (fold (close_file E) fs s) = g_cx s" "g_tx (fold (close_file E) fs s) = g_tx s"
  by (induction fs arbitrary: s) simp_all

lemma end_session_frame [simp]:
  "g_sessions (end_session E sid s) = hdel sid (g_sessions s)" "g_pc (end_session E sid s) = g_pc s"
  "g_cx (end_session E sid s) = g_cx s" "g_tx (end_session E sid s) = g_tx s"
  by (simp_all add: end_session_def reg_remove_def split: option.split)

text \<open>What losing a connection's channel does to one session.\<close>

definition after_channel :: "channel \<Rightarrow> session option \<Rightarrow> session option" where
  "after_channel ch so =
     (case so of
        None \<Rightarrow> None
      | Some ss \<Rightarrow>
          if ch_established ch
          then (if ss_channels ss \<le> 1 then None else Some (ss\<lparr>ss_channels := ss_channels ss - 1\<rparr>))
          else if ss_established ss then Some ss else None)"

lemma u32_le_1: "(n::u32) \<le> 1 \<longleftrightarrow> n = 0 \<or> n = 1"
  by (auto simp: word_le_nat_alt word_unat_eq_iff)

lemma teardown_channel_sessions:
  "hget (g_sessions (teardown_channel E (sid, ch) s)) k =
     (if k = sid then after_channel ch (hget (g_sessions s) sid) else hget (g_sessions s) k)"
  by (auto simp: teardown_channel_def after_channel_def reg_get_def drop_channel_def Let_def u32_le_1
      split: option.split)

lemma teardown_channel_pc [simp]: "g_pc (teardown_channel E sc s) = g_pc s"
  by (simp add: teardown_channel_def drop_channel_def Let_def split: option.split prod.split)

lemma teardown_fold:
  "hmap_ok cs \<Longrightarrow> hget (g_sessions (fold (teardown_channel E) cs s)) k =
     (case hget cs k of None \<Rightarrow> hget (g_sessions s) k | Some ch \<Rightarrow> after_channel ch (hget (g_sessions s) k))"
proof (induction cs arbitrary: s)
  case Nil
  then show ?case by simp
next
  case (Cons c cs)
  obtain sid ch where c: "c = (sid, ch)" by fastforce
  have ok: "hmap_ok cs" "hget cs sid = None"
    using Cons.prems by (auto simp: hmap_ok_def c map_of_eq_None_iff)
  show ?case
    using Cons.IH [OF ok(1), of "teardown_channel E c s"] ok(2)
    by (auto simp: c teardown_channel_sessions split: option.split)
qed

lemma teardown_fold_pc [simp]: "g_pc (fold (teardown_channel E) cs s) = g_pc s"
  by (induction cs arbitrary: s) simp_all

text \<open>(C31) A lost connection releases exactly what it held. Sessions it was not a channel of are
  untouched; one whose last established channel it carried is removed from the registry, one
  with other channels loses one from its count; a session it began to set up and never
  finished is removed, while one it was only trying to bind to stays. Afterwards it has no
  channels left.\<close>

theorem teardown_releases:
  assumes "hmap_ok (pc_channels (g_pc s))"
  shows "hget (g_sessions (teardown_conn E s)) sid =
      (case hget (pc_channels (g_pc s)) sid of
         None \<Rightarrow> hget (g_sessions s) sid
       | Some ch \<Rightarrow> after_channel ch (hget (g_sessions s) sid)) \<and>
    pc_channels (g_pc (teardown_conn E s)) = []"
  using assms by (simp add: teardown_conn_def teardown_fold split: option.split)

definition sample_state :: "u32 \<Rightarrow> unit st" where
  "sample_state n = \<lparr>g_sessions = [(7, session_new\<lparr>ss_established := True, ss_channels := n,
        ss_handles := sample_table, ss_trees := [(1, \<lparr>t_share_idx = 0, t_ipc = False, t_read_only = False\<rparr>)]\<rparr>)],
     g_mail = [], g_leases = [], g_w = (),
     g_pc = (proto_conn_new 65536 0 0 1)\<lparr>pc_channels := [(7, channel_default\<lparr>ch_established := True\<rparr>)]\<rparr>,
     g_cx = \<lparr>cx_related = False, cx_session_id = 7, cx_tree_id = 1, cx_last_fid = None, cx_single = True,
        cx_transform_sid = None\<rparr>, g_tx = []\<rparr>"

lemma sample_state_facts:
  "hmap_ok (pc_channels (g_pc (sample_state n)))"
  "hget (pc_channels (g_pc (sample_state n))) 7 = Some (channel_default\<lparr>ch_established := True\<rparr>)"
  "\<exists>ss. hget (g_sessions (sample_state n)) 7 = Some ss \<and> ss_channels ss = n \<and> ss_established ss"
  by (simp_all add: sample_state_def hmap_ok_def)

theorem teardown_releases_witness:
  "hget (g_sessions (teardown_conn demo (sample_state 1))) 7 = None \<and>
   hget (g_sessions (teardown_conn demo (sample_state 2))) 7 \<noteq> None"
  using teardown_releases [OF sample_state_facts(1), of demo 1 7]
    teardown_releases [OF sample_state_facts(1), of demo 2 7]
    sample_state_facts(3) [of 1] sample_state_facts(3) [of 2]
  by (auto simp: sample_state_facts(2) after_channel_def u32_le_1)

lemma to_le_2: "to_le 2 v = [word_of_nat (v mod 256), word_of_nat (v div 256 mod 256)]"
  by (simp add: numeral_2_eq_2)

lemma to_le_zero: "to_le n 0 = replicate n 0"
  by (induction n) simp_all

lemma replicate_4: "replicate 4 x = [x, x, x, x]"
  by (simp add: numeral_eq_Suc)

lemma err_body_eq: "err_body tx = tx @ [9, 0, 0, 0, 0, 0, 0, 0, 0]"
  by (simp add: err_body_def le16_def le32_def to_le_2 to_le_zero replicate_4)

text \<open>(C32) Only an authenticated channel can log off. On a connection whose channel for the named
  session is missing or still mid-handshake, LOGOFF leaves the registry, the leases, the file
  system and the connection as they were and answers USER\_SESSION\_DELETED; otherwise the
  channel is gone from the connection and the session loses exactly that channel.\<close>

theorem logoff_needs_channel:
  "(case hget (pc_channels (g_pc s)) (cx_session_id (g_cx s)) of
      Some ch \<Rightarrow>
        (if ch_established ch
         then pc_channels (g_pc (logoff E h s)) = hdel (cx_session_id (g_cx s)) (pc_channels (g_pc s)) \<and>
              (\<forall>sid. hget (g_sessions (logoff E h s)) sid =
                 (if sid = cx_session_id (g_cx s) then after_channel ch (hget (g_sessions s) sid)
                  else hget (g_sessions s) sid))
         else logoff E h s = s\<lparr>g_tx := g_tx s @ resp_hdr h USER_SESSION_DELETED (cx_related (g_cx s))
                (cx_tree_id (g_cx s)) (cx_session_id (g_cx s)) @ [9, 0, 0, 0, 0, 0, 0, 0, 0]\<rparr>)
    | None \<Rightarrow> logoff E h s = s\<lparr>g_tx := g_tx s @ resp_hdr h USER_SESSION_DELETED (cx_related (g_cx s))
                (cx_tree_id (g_cx s)) (cx_session_id (g_cx s)) @ [9, 0, 0, 0, 0, 0, 0, 0, 0]\<rparr>)"
proof -
  have e: "err_r h USER_SESSION_DELETED s = s\<lparr>g_tx := g_tx s @ resp_hdr h USER_SESSION_DELETED (cx_related (g_cx s))
      (cx_tree_id (g_cx s)) (cx_session_id (g_cx s)) @ [9, 0, 0, 0, 0, 0, 0, 0, 0]\<rparr>"
    by (simp add: err_r_def err_resp_def err_body_eq begin_resp_def)
  show ?thesis
    unfolding e [symmetric]
    by (auto simp: logoff_def Let_def simple_resp_def put_def begin_r_def reg_get_def drop_channel_def
        after_channel_def u32_le_1 split: option.split)
qed

end
