(* ===== verification/Handlers_File.thy ===== *)
theory Handlers_File
  imports Server_Facts
begin

text \<open>
  CREATE, CLOSE, FLUSH, READ and WRITE of \<open>src/src/smb2/handlers.rs\<close>. A handler takes the session
  it holds locked and the state of the request, and returns the new state; where it can panic
  or wait forever its result is an \<open>option\<close>. The read-ahead hint \<open>posix_fadvise\<close> has no effect on
  the state.
\<close>

section \<open>Constants\<close>

abbreviation (input) MAXIMUM_ALLOWED :: u32 where "MAXIMUM_ALLOWED \<equiv> 0x02000000"

definition WRITE_BITS :: u32 where
  "WRITE_BITS = 0x2 OR 0x4 OR 0x40000000 OR 0x10000000"

definition READ_ONLY_DENIED :: u32 where
  "READ_ONLY_DENIED = WRITE_BITS OR 0x00010000 OR 0x10 OR 0x100 OR 0x00040000 OR 0x00080000"

abbreviation (input) FILE_SUPERSEDE :: u32 where "FILE_SUPERSEDE \<equiv> 0"
abbreviation (input) FILE_OPEN :: u32 where "FILE_OPEN \<equiv> 1"
abbreviation (input) FILE_CREATE :: u32 where "FILE_CREATE \<equiv> 2"
abbreviation (input) FILE_OPEN_IF :: u32 where "FILE_OPEN_IF \<equiv> 3"
abbreviation (input) FILE_OVERWRITE :: u32 where "FILE_OVERWRITE \<equiv> 4"
abbreviation (input) FILE_OVERWRITE_IF :: u32 where "FILE_OVERWRITE_IF \<equiv> 5"

abbreviation (input) FILE_DIRECTORY_FILE :: u32 where "FILE_DIRECTORY_FILE \<equiv> 0x1"
abbreviation (input) FILE_NON_DIRECTORY_FILE :: u32 where "FILE_NON_DIRECTORY_FILE \<equiv> 0x40"
abbreviation (input) FILE_DELETE_ON_CLOSE :: u32 where "FILE_DELETE_ON_CLOSE \<equiv> 0x1000"

abbreviation (input) CREATE_ACTION_OPENED :: u32 where "CREATE_ACTION_OPENED \<equiv> 1"
abbreviation (input) CREATE_ACTION_CREATED :: u32 where "CREATE_ACTION_CREATED \<equiv> 2"
abbreviation (input) CREATE_ACTION_OVERWRITTEN :: u32 where "CREATE_ACTION_OVERWRITTEN \<equiv> 3"

abbreviation (input) MAX_OPENS_PER_SESSION :: nat where "MAX_OPENS_PER_SESSION \<equiv> 16384"

section \<open>CREATE: parsing\<close>

record lease_req =
  lr_key :: bytes
  lr_state :: u32
  lr_v2 :: bool
  lr_parent :: bytes
  lr_epoch :: u16

record create_req =
  cr_desired :: u32
  cr_disposition :: u32
  cr_options :: u32
  cr_name :: rstr
  cr_oplock :: u8
  cr_lease :: "lease_req option"

definition lease_data :: "bytes \<Rightarrow> lease_req" where
  "lease_data d =
     (let v2 = length d \<ge> 52
      in \<lparr>lr_key = take 16 d, lr_state = u32_le (take 4 (drop 16 d)), lr_v2 = v2,
          lr_parent = (if v2 then take 16 (drop 32 d) else zbytes 16),
          lr_epoch = (if v2 then u16_le (take 2 (drop 48 d)) else 0)\<rparr>)"

text \<open>One round of the context walk: the lease request of the context at the front, if it is one.\<close>

definition lease_here :: "bytes \<Rightarrow> lease_req option" where
  "lease_here buf =
     (let name_off = unat (u16_le (take 2 (drop 4 buf)));
          name_len = unat (u16_le (take 2 (drop 6 buf)));
          data_off = unat (u16_le (take 2 (drop 10 buf)));
          data_len = unat (u32_le (take 4 (drop 12 buf)))
      in if name_len = 4 then
           (case (slice_get buf name_off (name_off + 4), slice_get buf data_off (data_off + data_len)) of
              (Some nm, Some d) \<Rightarrow> if nm = CTX_NAME_RQLS \<and> length d \<ge> 32 then Some (lease_data d) else None
            | _ \<Rightarrow> None)
         else None)"

function parse_lease_ctx :: "bytes \<Rightarrow> lease_req option" where
  "parse_lease_ctx buf =
     (if length buf < 16 then None
      else (case lease_here buf of
              Some l \<Rightarrow> Some l
            | None \<Rightarrow>
                (let nxt = unat (u32_le (take 4 buf))
                 in if nxt = 0 \<or> nxt \<ge> length buf then None else parse_lease_ctx (drop nxt buf))))"
  by pat_completeness auto
termination
  by (relation "measure length") auto

declare parse_lease_ctx.simps [simp del]

definition parse_create :: "bytes \<Rightarrow> create_req option" where
  "parse_create msg = do {
     body \<leftarrow> slice_from msg 64;
     (sz, r) \<leftarrow> rdr_u16 (rdr_new body);
     if sz \<noteq> 57 then None
     else do {
       r \<leftarrow> rdr_skip 1 r;
       (oplock, r) \<leftarrow> rdr_u8 r;
       r \<leftarrow> rdr_skip (4 + 8 + 8) r;
       (desired, r) \<leftarrow> rdr_u32 r;
       (_, r) \<leftarrow> rdr_u32 r;
       (_, r) \<leftarrow> rdr_u32 r;
       (disposition, r) \<leftarrow> rdr_u32 r;
       (options, r) \<leftarrow> rdr_u32 r;
       (name_off, r) \<leftarrow> rdr_u16 r;
       (name_len, r) \<leftarrow> rdr_u16 r;
       (cc_off, r) \<leftarrow> rdr_u32 r;
       (cc_len, r) \<leftarrow> rdr_u32 r;
       name \<leftarrow> (if name_len = 0 then Some []
                else map_option from_utf16le
                       (slice_get msg (unat name_off) (unat name_off + unat name_len)));
       let lease = (if cc_len > 0
                    then Option.bind (slice_get msg (unat cc_off) (unat cc_off + unat cc_len)) parse_lease_ctx
                    else None);
       Some \<lparr>cr_desired = desired, cr_disposition = disposition, cr_options = options, cr_name = name,
             cr_oplock = oplock, cr_lease = lease\<rparr> } }"

section \<open>CREATE: access checks\<close>

definition creates :: "create_req \<Rightarrow> bool" where
  "creates req \<longleftrightarrow> cr_disposition req \<in> {FILE_SUPERSEDE, FILE_CREATE, FILE_OVERWRITE, FILE_OVERWRITE_IF}"

definition wants_write :: "create_req \<Rightarrow> bool" where
  "wants_write req \<longleftrightarrow> cr_desired req AND WRITE_BITS \<noteq> 0"

definition wants_delete :: "create_req \<Rightarrow> bool" where
  "wants_delete req \<longleftrightarrow> cr_options req AND FILE_DELETE_ON_CLOSE \<noteq> 0"

text \<open>The refusals before anything is opened, in order; \<open>Inr\<close> says whether the object exists and is
  a directory.\<close>

definition create_checks ::
  "'w ext \<Rightarrow> create_req \<Rightarrow> nat \<Rightarrow> bool \<Rightarrow> path \<Rightarrow> rstr \<Rightarrow> 'w \<Rightarrow> u32 + bool \<times> bool" where
  "create_checks E req opens read_only p rel w =
     (if opens \<ge> MAX_OPENS_PER_SESSION then Inl INSUFFICIENT_RESOURCES
      else if read_only \<and> (cr_desired req AND READ_ONLY_DENIED \<noteq> 0 \<or> creates req \<or> wants_delete req)
      then Inl ACCESS_DENIED
      else
        (let existing = stat_meta E p w;
             exists = (case existing of Inl _ \<Rightarrow> False | Inr _ \<Rightarrow> True);
             existing_dir = (case existing of Inl _ \<Rightarrow> False | Inr m \<Rightarrow> m_is_dir m);
             dir_requested = cr_options req AND FILE_DIRECTORY_FILE \<noteq> 0
         in if read_only \<and> \<not> exists \<and> cr_disposition req = FILE_OPEN_IF then Inl ACCESS_DENIED
            else if wants_delete req \<and> rel = [] then Inl ACCESS_DENIED
            else if exists \<and> cr_disposition req = FILE_CREATE then Inl OBJECT_NAME_COLLISION
            else if \<not> exists \<and> (cr_disposition req = FILE_OPEN \<or> cr_disposition req = FILE_OVERWRITE)
            then Inl OBJECT_NAME_NOT_FOUND
            else if existing_dir \<and> cr_options req AND FILE_NON_DIRECTORY_FILE \<noteq> 0
            then Inl FILE_IS_A_DIRECTORY
            else if exists \<and> \<not> existing_dir \<and> dir_requested then Inl NOT_A_DIRECTORY
            else Inr (exists, existing_dir)))"

section \<open>CREATE: opening\<close>

text \<open>The opened descriptor, whether it is a directory, whether it is writable, and the action.\<close>

type_synonym opened = "fd \<times> bool \<times> bool \<times> u32"

definition open_dir :: "'w ext \<Rightarrow> bool \<Rightarrow> path \<Rightarrow> 'w \<Rightarrow> (u32 + opened) \<times> 'w" where
  "open_dir E exists p w =
     (case (if exists then (Inr (), w)
            else (case cpath p of Inl e \<Rightarrow> (Inl e, w) | Inr c \<Rightarrow> os_mkdir E c 0x1ED w)) of
        (Inl e, w) \<Rightarrow> (Inl (from_errno e), w)
      | (Inr (), w) \<Rightarrow>
          (case open_raw E p (O_RDONLY OR O_DIRECTORY) 0 w of
             (Inl e, w) \<Rightarrow> (Inl (from_errno e), w)
           | (Inr fd, w) \<Rightarrow>
               (Inr (fd, True, False, if exists then CREATE_ACTION_OPENED else CREATE_ACTION_CREATED), w)))"

definition open_flags :: "create_req \<Rightarrow> u32" where
  "open_flags req =
     (let d = cr_disposition req
      in if d = FILE_CREATE then O_CREAT OR O_EXCL
         else if d = FILE_OPEN_IF then O_CREAT
         else if d = FILE_OVERWRITE then O_TRUNC
         else if d = FILE_OVERWRITE_IF \<or> d = FILE_SUPERSEDE then O_CREAT OR O_TRUNC
         else 0)"

definition try_rw :: "create_req \<Rightarrow> bool \<Rightarrow> bool" where
  "try_rw req read_only \<longleftrightarrow>
     wants_write req \<or> (cr_desired req AND MAXIMUM_ALLOWED \<noteq> 0 \<and> \<not> read_only) \<or> creates req"

definition open_plain :: "'w ext \<Rightarrow> create_req \<Rightarrow> bool \<Rightarrow> bool \<Rightarrow> path \<Rightarrow> 'w \<Rightarrow> (u32 + opened) \<times> 'w" where
  "open_plain E req read_only exists p w =
     (let rw = try_rw req read_only;
          flags = open_flags req OR (if rw then O_RDWR else O_RDONLY)
      in case open_raw E p flags 0x1A4 w of
           (Inr fd, w) \<Rightarrow>
             (Inr (fd, False, rw,
                if \<not> exists then CREATE_ACTION_CREATED
                else if flags AND O_TRUNC \<noteq> 0 then CREATE_ACTION_OVERWRITTEN
                else CREATE_ACTION_OPENED), w)
         | (Inl e, w) \<Rightarrow>
             (if e = EACCES \<and> rw \<and> \<not> wants_write req
              then (case open_raw E p ((flags AND NOT O_RDWR) OR O_RDONLY) 0 w of
                      (Inr fd, w) \<Rightarrow> (Inr (fd, False, False, CREATE_ACTION_OPENED), w)
                    | (Inl e, w) \<Rightarrow> (Inl (from_errno e), w))
              else (Inl (from_errno e), w)))"

section \<open>CREATE: the handle, the lease and the response\<close>

text \<open>Where a connection lives in the reactor: worker, slot and generation.\<close>

type_synonym conn_id = "nat \<times> nat \<times> u16"

definition grants_lease :: "srv \<Rightarrow> bool \<Rightarrow> bool \<Rightarrow> lease_req option \<Rightarrow> bool" where
  "grants_lease srv allow_oplock is_dir lr \<longleftrightarrow>
     c_oplocks (sv_cfg srv) \<and> allow_oplock \<and> \<not> is_dir \<and>
     (case lr of None \<Rightarrow> False | Some l \<Rightarrow> lr_state l AND LEASE_READ_CACHING \<noteq> 0)"

definition granted_state :: "bool \<Rightarrow> lease_req option \<Rightarrow> u32" where
  "granted_state g lr =
     (case lr of
        Some l \<Rightarrow> if g then LEASE_READ_CACHING OR (lr_state l AND LEASE_HANDLE_CACHING) else 0
      | None \<Rightarrow> 0)"

definition lease_ctx_bytes :: "lease_req \<Rightarrow> u32 \<Rightarrow> bytes" where
  "lease_ctx_bytes l state =
     (let data_len = (if lr_v2 l then 52 else 32)
      in le32 152 @ le32 (24 + data_len) @ le32 0 @ le16 16 @ le16 4 @ le16 0 @ le16 24 @ le32 data_len @
         CTX_NAME_RQLS @ zbytes 4 @ lr_key l @ le32 state @ le32 0 @ le64 0 @
         (if lr_v2 l then lr_parent l @ le16 (lr_epoch l) @ le16 0 else []))"

definition meta_times :: "meta \<Rightarrow> bytes" where
  "meta_times m = le64 (m_crtime m) @ le64 (m_atime m) @ le64 (m_mtime m) @ le64 (m_ctime m) @
     le64 (m_alloc m) @ le64 (m_size m)"

definition create_resp :: "u32 \<Rightarrow> meta \<Rightarrow> u32 \<Rightarrow> u64 \<Rightarrow> lease_req option \<Rightarrow> u32 \<Rightarrow> bytes" where
  "create_resp action m attrs fid lease state =
     le16 89 @ [case lease of Some _ \<Rightarrow> OPLOCK_LEASE | None \<Rightarrow> OPLOCK_NONE] @ [0] @ le32 action @
     meta_times m @ le32 attrs @ le32 0 @ fid_bytes fid @
     (case lease of Some l \<Rightarrow> lease_ctx_bytes l state | None \<Rightarrow> le32 0 @ le32 0)"

definition leaf_of :: "rstr \<Rightarrow> rstr" where
  "leaf_of rel = last (split_on (\<lambda>c. c = BACKSLASH) rel)"

text \<open>From a successful open to the response.\<close>

definition create_finish ::
  "srv \<Rightarrow> session \<Rightarrow> req_hdr \<Rightarrow> create_req \<Rightarrow> u32 \<Rightarrow> conn_id \<Rightarrow> bool \<Rightarrow> path \<Rightarrow> rstr \<Rightarrow> opened \<Rightarrow> meta
     \<Rightarrow> 'w st \<Rightarrow> 'w st option" where
  "create_finish srv ss h req share_idx cid allow_oplock p rel op m s = do {
     let (fd, is_dir, writable, action) = op;
     let (wid, conn_idx, conn_gen) = cid;
     let s = (if action = CREATE_ACTION_OVERWRITTEN
              then break_leases (share_idx, m_ino m) (map_option lr_key (cr_lease req)) s else s);
     let leaf = leaf_of rel;
     let grant = grants_lease srv allow_oplock is_dir (cr_lease req);
     let state = granted_state grant (cr_lease req);
     (fid, handles) \<leftarrow> ht_insert
       \<lparr>of_fd = fd, of_path = p, of_rel = rel, of_leaf = leaf, of_share_idx = share_idx,
        of_tree_id = cx_tree_id (g_cx s), of_is_dir = is_dir, of_writable = writable,
        of_delete_on_close = wants_delete req, of_dir = None,
        of_oplock_ino = (if grant then Some (m_ino m) else None),
        of_lease_key = map_option lr_key (cr_lease req), of_lease_granted = state\<rparr> (ss_handles ss);
     let s = set_sess (ss\<lparr>ss_handles := handles\<rparr>) s;
     let s = s\<lparr>g_cx := (g_cx s)\<lparr>cx_last_fid := Some fid\<rparr>\<rparr>;
     let lease = (if grant then cr_lease req else None);
     let s = (case lease of
                Some l \<Rightarrow> s\<lparr>g_leases := lt_grant (share_idx, m_ino m)
                  \<lparr>lg_key = lr_key l, lg_state = state, lg_epoch = lr_epoch l,
                   lg_session_id = cx_session_id (g_cx s), lg_wid = wid, lg_conn_idx = conn_idx,
                   lg_conn_gen = conn_gen\<rparr> (g_leases s)\<rparr>
              | None \<Rightarrow> s);
     Some (put (create_resp action m (finalize_attrs (m_attrs m) leaf) fid lease state)
             (begin_r h SUCCESS s)) }"

definition create ::
  "'w ext \<Rightarrow> srv \<Rightarrow> session \<Rightarrow> req_hdr \<Rightarrow> bytes \<Rightarrow> share_cfg \<Rightarrow> tree \<Rightarrow> conn_id \<Rightarrow> bool \<Rightarrow> 'w st \<Rightarrow> 'w st option"
where
  "create E srv ss h msg share tree cid allow_oplock s =
     (case parse_create msg of
        None \<Rightarrow> Some (err_r h INVALID_PARAMETER s)
      | Some req \<Rightarrow>
          (case resolve (sh_path share) (cr_name req) of
             Inl st \<Rightarrow> Some (err_r h st s)
           | Inr (p, rel) \<Rightarrow>
               (case create_checks E req (ht_len (ss_handles ss)) (t_read_only tree) p rel (g_w s) of
                  Inl st \<Rightarrow> Some (err_r h st s)
                | Inr (exists, existing_dir) \<Rightarrow>
                    (case (if existing_dir \<or> (cr_options req AND FILE_DIRECTORY_FILE \<noteq> 0 \<and> \<not> exists)
                           then open_dir E exists p (g_w s)
                           else open_plain E req (t_read_only tree) exists p (g_w s)) of
                       (Inl st, w) \<Rightarrow> Some (err_r h st (s\<lparr>g_w := w\<rparr>))
                     | (Inr op, w) \<Rightarrow>
                         (case fstat_meta E (fst op) w of
                            Inl e \<Rightarrow> Some (err_r h (from_errno e) (s\<lparr>g_w := os_close E (fst op) w\<rparr>))
                          | Inr m \<Rightarrow> create_finish srv ss h req (t_share_idx tree) cid allow_oplock p rel op m
                                      (s\<lparr>g_w := w\<rparr>))))))"

section \<open>CLOSE and FLUSH\<close>

definition parse_close :: "bytes \<Rightarrow> chain \<Rightarrow> (u16 \<times> u64) option" where
  "parse_close body c = do {
     (sz, r) \<leftarrow> rdr_u16 (rdr_new body);
     if sz \<noteq> 24 then None
     else do {
       (flags, r) \<leftarrow> rdr_u16 r;
       r \<leftarrow> rdr_skip 4 r;
       (fid, r) \<leftarrow> parse_fid r c;
       Some (flags, fid) } }"

definition close_resp :: "bool \<Rightarrow> meta option \<Rightarrow> rstr \<Rightarrow> bytes" where
  "close_resp post_attrib m leaf =
     le16 60 @ le16 (if post_attrib then 1 else 0) @ le32 0 @
     (case m of Some m \<Rightarrow> meta_times m @ le32 (finalize_attrs (m_attrs m) leaf) | None \<Rightarrow> zbytes 52)"

definition close :: "'w ext \<Rightarrow> session \<Rightarrow> req_hdr \<Rightarrow> bytes \<Rightarrow> 'w st \<Rightarrow> 'w st" where
  "close E ss h body s =
     (case parse_close body (g_cx s) of
        None \<Rightarrow> err_r h INVALID_PARAMETER s
      | Some (flags, fid) \<Rightarrow>
          (case ht_remove fid (cx_tree_id (g_cx s)) (ss_handles ss) of
             (None, t) \<Rightarrow> err_r h FILE_CLOSED (set_sess (ss\<lparr>ss_handles := t\<rparr>) s)
           | (Some f, t) \<Rightarrow>
               (let s = notify_cleanup fid (set_sess (ss\<lparr>ss_handles := t\<rparr>) s);
                    post_attrib = flags AND 1 \<noteq> 0;
                    m = (if post_attrib
                         then (case fstat_meta E (of_fd f) (g_w s) of Inl _ \<Rightarrow> None | Inr m \<Rightarrow> Some m)
                         else None)
                in case finish_close E f s of
                     (st, s) \<Rightarrow>
                       drop_file E f
                         (if st \<noteq> SUCCESS then err_r h st s
                          else put (close_resp post_attrib m (of_leaf f)) (begin_r h SUCCESS s)))))"

definition parse_flush :: "bytes \<Rightarrow> chain \<Rightarrow> u64 option" where
  "parse_flush body c = do {
     (sz, r) \<leftarrow> rdr_u16 (rdr_new body);
     if sz \<noteq> 24 then None
     else do {
       r \<leftarrow> rdr_skip (2 + 4) r;
       (fid, r) \<leftarrow> parse_fid r c;
       Some fid } }"

definition flush :: "'w ext \<Rightarrow> session \<Rightarrow> req_hdr \<Rightarrow> bytes \<Rightarrow> 'w st \<Rightarrow> 'w st" where
  "flush E ss h body s =
     (case parse_flush body (g_cx s) of
        None \<Rightarrow> err_r h INVALID_PARAMETER s
      | Some fid \<Rightarrow>
          (case ht_get (ss_handles ss) fid (cx_tree_id (g_cx s)) of
             None \<Rightarrow> err_r h FILE_CLOSED s
           | Some f \<Rightarrow>
               (case os_fsync E (of_fd f) (g_w s) of
                  (Inr (), w) \<Rightarrow> simple_resp h (s\<lparr>g_w := w\<rparr>)
                | (Inl e, w) \<Rightarrow> err_r h (from_errno e) (s\<lparr>g_w := w\<rparr>))))"

section \<open>READ\<close>

definition parse_read :: "bytes \<Rightarrow> chain \<Rightarrow> (u32 \<times> u64 \<times> u64 \<times> u32) option" where
  "parse_read body c = do {
     (sz, r) \<leftarrow> rdr_u16 (rdr_new body);
     if sz \<noteq> 49 then None
     else do {
       r \<leftarrow> rdr_skip (1 + 1) r;
       (len, r) \<leftarrow> rdr_u32 r;
       (offset, r) \<leftarrow> rdr_u64 r;
       (fid, r) \<leftarrow> parse_fid r c;
       (min_count, r) \<leftarrow> rdr_u32 r;
       Some (len, offset, fid, min_count) } }"

definition must_sign :: "req_hdr \<Rightarrow> 'w st \<Rightarrow> bool" where
  "must_sign h s =
     (case hget (pc_channels (g_pc s)) (cx_session_id (g_cx s)) of
        None \<Rightarrow> False
      | Some c \<Rightarrow> ch_encrypt c \<or>
          (ch_sign c \<noteq> None \<and> (ch_signing_required c \<or> h_flags h AND FLAG_SIGNED \<noteq> 0)))"

definition read_buffered ::
  "'w ext \<Rightarrow> req_hdr \<Rightarrow> fd \<Rightarrow> u32 \<Rightarrow> u64 \<Rightarrow> u32 \<Rightarrow> 'w st \<Rightarrow> 'w st option" where
  "read_buffered E h dup len offset min_count s = do {
     (res, w) \<leftarrow> pread E dup (unat len) offset (g_w s);
     let s = s\<lparr>g_w := os_close E dup w\<rparr>;
     Some (case res of
             Inl e \<Rightarrow> err_r h (from_errno e) s
           | Inr bs \<Rightarrow>
               (if bs = [] \<and> len > 0 then err_r h END_OF_FILE s
                else if (word_of_nat (length bs) :: u32) < min_count then err_r h END_OF_FILE s
                else put (le16 17 @ [80, 0] @ le32 (word_of_nat (length bs)) @ le32 0 @ le32 0 @ bs)
                       (begin_r h SUCCESS s))) }"

definition read ::
  "'w ext \<Rightarrow> session \<Rightarrow> req_hdr \<Rightarrow> bytes \<Rightarrow> 'w st \<Rightarrow> (zc_plan option \<times> 'w st) option" where
  "read E ss h body s =
     (case parse_read body (g_cx s) of
        None \<Rightarrow> Some (None, err_r h INVALID_PARAMETER s)
      | Some (len, offset, fid, min_count) \<Rightarrow>
          (case ht_get (ss_handles ss) fid (cx_tree_id (g_cx s)) of
             None \<Rightarrow> Some (None, err_r h FILE_CLOSED s)
           | Some f \<Rightarrow>
               if of_is_dir f then Some (None, err_r h INVALID_DEVICE_REQUEST s)
               else (case os_dup E (of_fd f) (g_w s) of
                       (Inl _, w) \<Rightarrow> Some (None, err_r h INSUFFICIENT_RESOURCES (s\<lparr>g_w := w\<rparr>))
                     | (Inr dup, w) \<Rightarrow>
                         (let s = s\<lparr>g_w := w\<rparr>;
                              len = min len (pc_max_read (g_pc s))
                          in if cx_single (g_cx s) \<and> len \<ge> ZC_MIN_READ \<and> \<not> must_sign h s
                             then Some (Some
                               \<lparr>zc_fd = dup, zc_offset = offset, zc_length = len, zc_min_count = min_count,
                                zc_msg_id = h_msg_id h, zc_credit_charge = h_credit_charge h,
                                zc_credits = h_credits h, zc_tree_id = cx_tree_id (g_cx s),
                                zc_session_id = cx_session_id (g_cx s),
                                zc_linked = (case fstat_meta E dup w of
                                    Inl _ \<Rightarrow> False
                                  | Inr m \<Rightarrow> min (unat offset + unat len) (2 ^ 64 - 1) \<le> unat (m_size m))\<rparr>, s)
                             else map_option (Pair None) (read_buffered E h dup len offset min_count s)))))"

section \<open>WRITE\<close>

definition parse_write :: "bytes \<Rightarrow> chain \<Rightarrow> (bytes \<times> u64 \<times> u64) option" where
  "parse_write msg c = do {
     body \<leftarrow> slice_from msg 64;
     (sz, r) \<leftarrow> rdr_u16 (rdr_new body);
     if sz \<noteq> 49 then None
     else do {
       (data_off, r) \<leftarrow> rdr_u16 r;
       (len, r) \<leftarrow> rdr_u32 r;
       (offset, r) \<leftarrow> rdr_u64 r;
       (fid, r) \<leftarrow> parse_fid r c;
       d \<leftarrow> slice_get msg (unat data_off) (unat data_off + unat len);
       Some (d, offset, fid) } }"

definition write_handler ::
  "'w ext \<Rightarrow> session \<Rightarrow> req_hdr \<Rightarrow> bytes \<Rightarrow> tree \<Rightarrow> 'w st \<Rightarrow> 'w st option" where
  "write_handler E ss h msg tree s =
     (case parse_write msg (g_cx s) of
        None \<Rightarrow> Some (err_r h INVALID_PARAMETER s)
      | Some (d, offset, fid) \<Rightarrow>
          if t_read_only tree then Some (err_r h ACCESS_DENIED s)
          else (case ht_get (ss_handles ss) fid (cx_tree_id (g_cx s)) of
                  None \<Rightarrow> Some (err_r h FILE_CLOSED s)
                | Some f \<Rightarrow>
                    if \<not> of_writable f then Some (err_r h ACCESS_DENIED s)
                    else do {
                      let ino = (case fstat_meta E (of_fd f) (g_w s) of Inl _ \<Rightarrow> None | Inr m \<Rightarrow> Some (m_ino m));
                      (res, w) \<leftarrow> pwrite_all E (of_fd f) d offset (g_w s);
                      let s = s\<lparr>g_w := w\<rparr>;
                      Some (case res of
                              Inl e \<Rightarrow> err_r h (from_errno e) s
                            | Inr _ \<Rightarrow>
                                put (le16 17 @ le16 0 @ le32 (word_of_nat (length d)) @ le32 0 @ le16 0 @ le16 0)
                                  (begin_r h SUCCESS
                                    (case ino of
                                       None \<Rightarrow> s
                                     | Some i \<Rightarrow> break_leases (t_share_idx tree, i) (of_lease_key f) s))) }))"

end
