(* ===== verification/Handlers_Query.thy ===== *)
theory Handlers_Query
  imports Server_Facts
begin

text \<open>
  QUERY\_DIRECTORY and QUERY\_INFO of \<open>src/src/smb2/handlers.rs\<close>.
\<close>

section \<open>Directory entries\<close>

abbreviation (input) FILE_DIRECTORY_INFORMATION :: u8 where "FILE_DIRECTORY_INFORMATION \<equiv> 1"
abbreviation (input) FILE_FULL_DIRECTORY_INFORMATION :: u8 where "FILE_FULL_DIRECTORY_INFORMATION \<equiv> 2"
abbreviation (input) FILE_BOTH_DIRECTORY_INFORMATION :: u8 where "FILE_BOTH_DIRECTORY_INFORMATION \<equiv> 3"
abbreviation (input) FILE_NAMES_INFORMATION :: u8 where "FILE_NAMES_INFORMATION \<equiv> 12"
abbreviation (input) FILE_ID_BOTH_DIRECTORY_INFORMATION :: u8 where "FILE_ID_BOTH_DIRECTORY_INFORMATION \<equiv> 37"
abbreviation (input) FILE_ID_FULL_DIRECTORY_INFORMATION :: u8 where "FILE_ID_FULL_DIRECTORY_INFORMATION \<equiv> 38"

abbreviation (input) QD_RESTART_SCANS :: u8 where "QD_RESTART_SCANS \<equiv> 0x01"
abbreviation (input) QD_RETURN_SINGLE :: u8 where "QD_RETURN_SINGLE \<equiv> 0x02"
abbreviation (input) QD_REOPEN :: u8 where "QD_REOPEN \<equiv> 0x10"

text \<open>The part of an entry that depends on the information class; \<open>None\<close> is an unknown class.\<close>

definition dir_entry_tail :: "u8 \<Rightarrow> meta \<Rightarrow> bytes option" where
  "dir_entry_tail cls m =
     (if cls = FILE_DIRECTORY_INFORMATION then Some []
      else if cls = FILE_FULL_DIRECTORY_INFORMATION then Some (le32 0)
      else if cls = FILE_BOTH_DIRECTORY_INFORMATION then Some (le32 0 @ [0, 0] @ zbytes 24)
      else if cls = FILE_ID_BOTH_DIRECTORY_INFORMATION
      then Some (le32 0 @ [0, 0] @ zbytes 24 @ le16 0 @ le64 (m_ino m))
      else if cls = FILE_ID_FULL_DIRECTORY_INFORMATION then Some (le32 0 @ le32 0 @ le64 (m_ino m))
      else None)"

definition put_dir_entry :: "u8 \<Rightarrow> dir_ent \<Rightarrow> bytes option" where
  "put_dir_entry cls e =
     (let name = utf16le (de_name e);
          m = de_meta e
      in if cls = FILE_NAMES_INFORMATION
         then Some (le32 0 @ le32 0 @ le32 (word_of_nat (length name)) @ name)
         else map_option (\<lambda>t.
                le32 0 @ le32 0 @ le64 (m_crtime m) @ le64 (m_atime m) @ le64 (m_mtime m) @ le64 (m_ctime m) @
                le64 (m_size m) @ le64 (m_alloc m) @ le32 (m_attrs m) @ le32 (word_of_nat (length name)) @
                t @ name) (dir_entry_tail cls m))"

text \<open>Padding to 8 bytes and the entry's own length as its \<open>NextEntryOffset\<close>.\<close>

definition stamp_entry :: "bytes \<Rightarrow> bytes" where
  "stamp_entry e =
     (let e = e @ zbytes ((8 - length e mod 8) mod 8)
      in le32 (word_of_nat (length e)) @ drop 4 e)"

record fill =
  fl_ok :: bool
  fl_data :: bytes
  fl_last :: nat
  fl_emitted :: nat

fun dir_fill :: "u8 \<Rightarrow> bool \<Rightarrow> nat \<Rightarrow> dir_ent list \<Rightarrow> fill \<Rightarrow> fill" where
  "dir_fill cls single out_len [] a = a"
| "dir_fill cls single out_len (e # es) a =
     (case put_dir_entry cls e of
        None \<Rightarrow> a\<lparr>fl_ok := False\<rparr>
      | Some raw \<Rightarrow>
          (let entry = stamp_entry raw
           in if length (fl_data a) + length entry > out_len then a
              else (let a = a\<lparr>fl_last := length (fl_data a), fl_data := fl_data a @ entry,
                              fl_emitted := fl_emitted a + 1\<rparr>
                    in if single then a else dir_fill cls single out_len es a)))"

section \<open>QUERY\_DIRECTORY\<close>

record qd_req =
  qd_class :: u8
  qd_flags :: u8
  qd_fid :: u64
  qd_out_len :: u32
  qd_pattern :: rstr

definition parse_query_directory :: "bytes \<Rightarrow> chain \<Rightarrow> qd_req option" where
  "parse_query_directory msg c = do {
     body \<leftarrow> slice_from msg 64;
     (sz, r) \<leftarrow> rdr_u16 (rdr_new body);
     if sz \<noteq> 33 then None
     else do {
       (cls, r) \<leftarrow> rdr_u8 r;
       (flags, r) \<leftarrow> rdr_u8 r;
       (_, r) \<leftarrow> rdr_u32 r;
       (fid, r) \<leftarrow> parse_fid r c;
       (name_off, r) \<leftarrow> rdr_u16 r;
       (name_len, r) \<leftarrow> rdr_u16 r;
       (out_len, r) \<leftarrow> rdr_u32 r;
       pattern \<leftarrow> (if name_len = 0 then Some []
                   else map_option from_utf16le
                          (slice_get msg (unat name_off) (unat name_off + unat name_len)));
       Some \<lparr>qd_class = cls, qd_flags = flags, qd_fid = fid, qd_out_len = out_len, qd_pattern = pattern\<rparr> } }"

text \<open>The snapshot to list from: the handle's own, or a new one.\<close>

definition dir_source :: "'w ext \<Rightarrow> qd_req \<Rightarrow> open_file \<Rightarrow> 'w \<Rightarrow> errno + dir_state" where
  "dir_source E q f w =
     (let restart = qd_flags q AND (QD_RESTART_SCANS OR QD_REOPEN) \<noteq> 0;
          fresh = map_sum id (\<lambda>es. \<lparr>ds_entries = es, ds_pos = 0, ds_pattern = qd_pattern q\<rparr>)
                    (dir_snapshot E f (qd_pattern q) w)
      in case of_dir f of
           None \<Rightarrow> fresh
         | Some d \<Rightarrow> if restart \<or> ds_pattern d \<noteq> qd_pattern q then fresh else Inr d)"

definition info_resp :: "req_hdr \<Rightarrow> u32 \<Rightarrow> bytes \<Rightarrow> 'w st \<Rightarrow> 'w st" where
  "info_resp h st d s = put (le16 9 @ le16 72 @ le32 (word_of_nat (length d)) @ d) (begin_r h st s)"

text \<open>Listing from the snapshot \<open>d\<close>; the handle keeps its position.\<close>

definition list_directory ::
  "session \<Rightarrow> req_hdr \<Rightarrow> qd_req \<Rightarrow> open_file \<Rightarrow> dir_state \<Rightarrow> 'w st \<Rightarrow> 'w st option" where
  "list_directory ss h q f d s =
     (let keep = (\<lambda>d. set_sess (ss\<lparr>ss_handles := ht_set (qd_fid q) (f\<lparr>of_dir := Some d\<rparr>) (ss_handles ss)\<rparr>))
      in if ds_pos d \<ge> length (ds_entries d)
         then Some (err_r h (if ds_entries d = [] then NO_SUCH_FILE else NO_MORE_FILES) (keep d s))
         else
           (let a = dir_fill (qd_class q) (qd_flags q AND QD_RETURN_SINGLE \<noteq> 0)
                      (unat (min (qd_out_len q) MAX_TRANSACT)) (drop (ds_pos d) (ds_entries d))
                      \<lparr>fl_ok = True, fl_data = [], fl_last = 0, fl_emitted = 0\<rparr>;
                s = keep (d\<lparr>ds_pos := ds_pos d + fl_emitted a\<rparr>) s
            in if \<not> fl_ok a then Some (err_r h INVALID_PARAMETER s)
               else if fl_emitted a = 0 then Some (err_r h BUFFER_TOO_SMALL s)
               else do {
                 out \<leftarrow> copy_at (fl_data a) (fl_last a) (le32 0);
                 Some (info_resp h SUCCESS out s) }))"

definition query_directory ::
  "'w ext \<Rightarrow> session \<Rightarrow> req_hdr \<Rightarrow> bytes \<Rightarrow> 'w st \<Rightarrow> 'w st option" where
  "query_directory E ss h msg s =
     (case parse_query_directory msg (g_cx s) of
        None \<Rightarrow> Some (err_r h INVALID_PARAMETER s)
      | Some q \<Rightarrow>
          (case ht_get (ss_handles ss) (qd_fid q) (cx_tree_id (g_cx s)) of
             None \<Rightarrow> Some (err_r h FILE_CLOSED s)
           | Some f \<Rightarrow>
               if \<not> of_is_dir f then Some (err_r h INVALID_PARAMETER s)
               else (case dir_source E q f (g_w s) of
                       Inl e \<Rightarrow> Some (err_r h (from_errno e) s)
                     | Inr d \<Rightarrow> list_directory ss h q f d s)))"

section \<open>QUERY\_INFO\<close>

abbreviation (input) INFO_FILE :: u8 where "INFO_FILE \<equiv> 1"
abbreviation (input) INFO_FILESYSTEM :: u8 where "INFO_FILESYSTEM \<equiv> 2"
abbreviation (input) INFO_SECURITY :: u8 where "INFO_SECURITY \<equiv> 3"
abbreviation (input) MAXIMAL_ACCESS_ALL :: u32 where "MAXIMAL_ACCESS_ALL \<equiv> 0x001F01FF"
abbreviation (input) MAXIMAL_ACCESS_READ :: u32 where "MAXIMAL_ACCESS_READ \<equiv> 0x001200A9"

definition bool_byte :: "bool \<Rightarrow> u8" where
  "bool_byte b = (if b then 1 else 0)"

definition put_basic_info :: "meta \<Rightarrow> u32 \<Rightarrow> bytes" where
  "put_basic_info m attrs = le64 (m_crtime m) @ le64 (m_atime m) @ le64 (m_mtime m) @ le64 (m_ctime m) @
     le32 attrs @ le32 0"

definition put_standard_info :: "meta \<Rightarrow> bool \<Rightarrow> bytes" where
  "put_standard_info m delete_pending = le64 (m_alloc m) @ le64 (m_size m) @ le32 (m_nlink m) @
     [bool_byte delete_pending, bool_byte (m_is_dir m)] @ le16 0"

definition name_info :: "open_file \<Rightarrow> bytes" where
  "name_info f = (let name = utf16le (BACKSLASH # of_rel f) in le32 (word_of_nat (length name)) @ name)"

definition all_info :: "open_file \<Rightarrow> meta \<Rightarrow> u32 \<Rightarrow> bytes" where
  "all_info f m attrs = put_basic_info m attrs @ put_standard_info m (of_delete_on_close f) @
     le64 (m_ino m) @ le32 0 @ le32 MAXIMAL_ACCESS_ALL @ le64 0 @ le32 0 @ le32 0 @ name_info f"

definition stream_info :: "meta \<Rightarrow> bytes" where
  "stream_info m =
     (if m_is_dir m then []
      else (let name = utf16le (str ''::$DATA'')
            in le32 0 @ le32 (word_of_nat (length name)) @ le64 (m_size m) @ le64 (m_alloc m) @ name))"

definition file_info :: "'w ext \<Rightarrow> open_file \<Rightarrow> u8 \<Rightarrow> 'w \<Rightarrow> u32 + bytes" where
  "file_info E f cls w =
     (case fstat_meta E (of_fd f) w of
        Inl e \<Rightarrow> Inl (from_errno e)
      | Inr m \<Rightarrow>
          (let attrs = finalize_attrs (m_attrs m) (of_leaf f)
           in if cls = 4 then Inr (put_basic_info m attrs)
              else if cls = 5 then Inr (put_standard_info m (of_delete_on_close f))
              else if cls = 6 then Inr (le64 (m_ino m))
              else if cls = 7 then Inr (le32 0)
              else if cls = 8 then Inr (le32 MAXIMAL_ACCESS_ALL)
              else if cls = 9 then Inr (name_info f)
              else if cls = 14 then Inr (le64 0)
              else if cls = 16 then Inr (le32 0)
              else if cls = 17 then Inr (le32 0)
              else if cls = 18 then Inr (all_info f m attrs)
              else if cls = 34
              then Inr (le64 (m_crtime m) @ le64 (m_atime m) @ le64 (m_mtime m) @ le64 (m_ctime m) @
                        le64 (m_alloc m) @ le64 (m_size m) @ le32 attrs @ le32 0)
              else if cls = 35 then Inr (le32 attrs @ le32 0)
              else if cls = 22 then Inr (stream_info m)
              else Inl NOT_SUPPORTED))"

definition security_descriptor :: bytes where
  "security_descriptor =
     (let admins = [1, 2, 0, 0, 0, 0, 0, 5, 32, 0, 0, 0, 32, 2, 0, 0];
          everyone = [1, 1, 0, 0, 0, 0, 0, 1, 0, 0, 0, 0]
      in [1, 0] @ le16 0x8004 @ le32 48 @ le32 64 @ le32 0 @ le32 20 @
         [2, 0] @ le16 28 @ le16 1 @ le16 0 @
         [0, 0] @ le16 20 @ le32 0x001F01FF @ everyone @ admins @ admins)"

text \<open>\<open>None\<close> is the panic of an out-of-range share index.\<close>

definition fs_info :: "'w ext \<Rightarrow> srv \<Rightarrow> open_file \<Rightarrow> u8 \<Rightarrow> 'w \<Rightarrow> (u32 + bytes) option" where
  "fs_info E srv f cls w =
     (if cls = 1 then do {
        share \<leftarrow> idx (c_shares (sv_cfg srv)) (unat (of_share_idx f));
        let label = utf16le (sh_name share);
        Some (Inr (le64 (sv_start_ft srv) @ le32 0x524B54 @ le32 (word_of_nat (length label)) @ [0, 0] @ label)) }
      else if cls = 3 then
        Some (case fs_sizes E (of_fd f) w of
                Inl e \<Rightarrow> Inl (from_errno e)
              | Inr (tot, avail, _, spu, bps) \<Rightarrow> Inr (le64 tot @ le64 avail @ le32 spu @ le32 bps))
      else if cls = 4 then Some (Inr (le32 7 @ le32 0x20))
      else if cls = 5 then
        (let name = utf16le (str ''NTFS'')
         in Some (Inr (le32 0x47 @ le32 255 @ le32 (word_of_nat (length name)) @ name)))
      else if cls = 7 then
        Some (case fs_sizes E (of_fd f) w of
                Inl e \<Rightarrow> Inl (from_errno e)
              | Inr (tot, avail, free, spu, bps) \<Rightarrow>
                  Inr (le64 tot @ le64 avail @ le64 free @ le32 spu @ le32 bps))
      else Some (Inl NOT_SUPPORTED))"

definition parse_query_info :: "bytes \<Rightarrow> chain \<Rightarrow> (u8 \<times> u8 \<times> u32 \<times> u64) option" where
  "parse_query_info body c = do {
     (sz, r) \<leftarrow> rdr_u16 (rdr_new body);
     if sz \<noteq> 41 then None
     else do {
       (info_type, r) \<leftarrow> rdr_u8 r;
       (cls, r) \<leftarrow> rdr_u8 r;
       (out_len, r) \<leftarrow> rdr_u32 r;
       r \<leftarrow> rdr_skip (2 + 2 + 4 + 4 + 4) r;
       (fid, r) \<leftarrow> parse_fid r c;
       Some (info_type, cls, out_len, fid) } }"

definition query_info :: "'w ext \<Rightarrow> srv \<Rightarrow> session \<Rightarrow> req_hdr \<Rightarrow> bytes \<Rightarrow> 'w st \<Rightarrow> 'w st option" where
  "query_info E srv ss h body s =
     (case parse_query_info body (g_cx s) of
        None \<Rightarrow> Some (err_r h INVALID_PARAMETER s)
      | Some (info_type, cls, out_len, fid) \<Rightarrow>
          (case ht_get (ss_handles ss) fid (cx_tree_id (g_cx s)) of
             None \<Rightarrow> Some (err_r h FILE_CLOSED s)
           | Some f \<Rightarrow> do {
               res \<leftarrow> (if info_type = INFO_FILE then Some (file_info E f cls (g_w s))
                       else if info_type = INFO_FILESYSTEM then fs_info E srv f cls (g_w s)
                       else if info_type = INFO_SECURITY then Some (Inr security_descriptor)
                       else Some (Inl NOT_SUPPORTED));
               Some (case res of
                       Inl st \<Rightarrow> err_r h st s
                     | Inr d \<Rightarrow>
                         (if length d > unat out_len then info_resp h BUFFER_OVERFLOW (take (unat out_len) d) s
                          else info_resp h SUCCESS d s)) }))"

end
