(* ===== verification/Handlers_Set.thy ===== *)
theory Handlers_Set
  imports Handlers_File Handlers_Query
begin

text \<open>
  SET\_INFO, LOCK, CHANGE\_NOTIFY and IOCTL of \<open>src/src/smb2/handlers.rs\<close>.
\<close>

section \<open>SET\_INFO\<close>

text \<open>A FILETIME as a \<open>timespec\<close>; the subtraction is 64-bit two's complement.\<close>

definition filetime_ts :: "u64 \<Rightarrow> timespec" where
  "filetime_ts ft =
     (if ft = 0 \<or> ft = U64_MAX then None
      else (let unix100 = sint (ft - 116444736000000000)
            in Some (unix100 div 10000000, unix100 mod 10000000 * 100)))"

definition parse_basic_info :: "bytes \<Rightarrow> (u64 \<times> u64) option" where
  "parse_basic_info d = do {
     (_, r) \<leftarrow> rdr_u64 (rdr_new d);
     (at, r) \<leftarrow> rdr_u64 r;
     (mt, r) \<leftarrow> rdr_u64 r;
     (_, r) \<leftarrow> rdr_u64 r;
     (_, r) \<leftarrow> rdr_u32 r;
     Some (at, mt) }"

definition set_basic_info :: "'w ext \<Rightarrow> open_file \<Rightarrow> bytes \<Rightarrow> 'w \<Rightarrow> u32 \<times> 'w" where
  "set_basic_info E f d w =
     (case parse_basic_info d of
        None \<Rightarrow> (INVALID_PARAMETER, w)
      | Some (at, mt) \<Rightarrow>
          (case os_futimens E (of_fd f) (filetime_ts at) (filetime_ts mt) w of
             (Inl e, w) \<Rightarrow> (if e \<noteq> EACCES \<and> e \<noteq> EPERM then from_errno e else SUCCESS, w)
           | (Inr (), w) \<Rightarrow> (SUCCESS, w)))"

definition set_disposition :: "'w ext \<Rightarrow> open_file \<Rightarrow> bytes \<Rightarrow> 'w \<Rightarrow> u32 \<times> open_file" where
  "set_disposition E f d w =
     (case d of
        [] \<Rightarrow> (INVALID_PARAMETER, f)
      | flag # _ \<Rightarrow>
          if flag \<noteq> 0 \<and> of_rel f = [] then (ACCESS_DENIED, f)
          else
            (case (if flag \<noteq> 0 \<and> of_is_dir f
                   then (case (if 0 \<in> set (of_path f) then Inl EIO else os_readdir E (of_path f) w) of
                           Inl e \<Rightarrow> Some (from_errno e)
                         | Inr es \<Rightarrow> if es \<noteq> [] then Some DIRECTORY_NOT_EMPTY else None)
                   else None) of
               Some st \<Rightarrow> (st, f)
             | None \<Rightarrow> (SUCCESS, f\<lparr>of_delete_on_close := (flag \<noteq> 0)\<rparr>)))"

definition parse_rename :: "bytes \<Rightarrow> (bool \<times> rstr) option" where
  "parse_rename d = do {
     (replace, r) \<leftarrow> rdr_u8 (rdr_new d);
     r \<leftarrow> rdr_skip (7 + 8) r;
     (name_len, r) \<leftarrow> rdr_u32 r;
     (name, r) \<leftarrow> rdr_take (unat name_len) r;
     Some (replace \<noteq> 0, from_utf16le name) }"

definition replaced_ino :: "'w ext \<Rightarrow> open_file \<Rightarrow> path \<Rightarrow> 'w \<Rightarrow> u64 option" where
  "replaced_ino E f new_path w =
     (case stat_meta E new_path w of
        Inl _ \<Rightarrow> None
      | Inr m \<Rightarrow>
          if m_is_dir m then None
          else (case fstat_meta E (of_fd f) w of
                  Inl _ \<Rightarrow> Some (m_ino m)
                | Inr own \<Rightarrow> if m_ino own \<noteq> m_ino m then Some (m_ino m) else None))"

definition fs_rename :: "'w ext \<Rightarrow> path \<Rightarrow> path \<Rightarrow> 'w \<Rightarrow> (errno + unit) \<times> 'w" where
  "fs_rename E a b w = (if 0 \<in> set a \<or> 0 \<in> set b then (Inl EIO, w) else os_rename E a b w)"

definition set_rename ::
  "'w ext \<Rightarrow> open_file \<Rightarrow> bytes \<Rightarrow> path \<Rightarrow> 'w \<Rightarrow> (u32 \<times> u64 option \<times> open_file) \<times> 'w" where
  "set_rename E f d share_root w =
     (case parse_rename d of
        None \<Rightarrow> ((INVALID_PARAMETER, None, f), w)
      | Some (replace, name) \<Rightarrow>
          (case resolve share_root name of
             Inl st \<Rightarrow> ((st, None, f), w)
           | Inr (new_path, new_rel) \<Rightarrow>
               if of_rel f = [] \<or> new_rel = [] then ((ACCESS_DENIED, None, f), w)
               else if \<not> replace \<and> (case stat_meta E new_path w of Inl _ \<Rightarrow> False | Inr _ \<Rightarrow> True)
               then ((OBJECT_NAME_COLLISION, None, f), w)
               else
                 (let replaced = replaced_ino E f new_path w
                  in case (if replace then fs_rename E (of_path f) new_path w
                           else rename_noreplace E (of_path f) new_path w) of
                       (Inl e, w) \<Rightarrow>
                         ((if e = EEXIST then OBJECT_NAME_COLLISION else from_errno e, None, f), w)
                     | (Inr (), w) \<Rightarrow>
                         ((SUCCESS, replaced,
                           f\<lparr>of_leaf := leaf_of new_rel, of_path := new_path, of_rel := new_rel\<rparr>), w))))"

definition parse_set_info :: "bytes \<Rightarrow> chain \<Rightarrow> (u8 \<times> u8 \<times> u64 \<times> bytes) option" where
  "parse_set_info msg c = do {
     body \<leftarrow> slice_from msg 64;
     (sz, r) \<leftarrow> rdr_u16 (rdr_new body);
     if sz \<noteq> 33 then None
     else do {
       (info_type, r) \<leftarrow> rdr_u8 r;
       (cls, r) \<leftarrow> rdr_u8 r;
       (buf_len, r) \<leftarrow> rdr_u32 r;
       (buf_off, r) \<leftarrow> rdr_u16 r;
       r \<leftarrow> rdr_skip (2 + 4) r;
       (fid, r) \<leftarrow> parse_fid r c;
       d \<leftarrow> slice_get msg (unat buf_off) (unat buf_off + unat buf_len);
       Some (info_type, cls, fid, d) } }"

text \<open>The lease key of the handle's own file, unless it is a directory or cannot be examined.\<close>

definition own_key :: "'w ext \<Rightarrow> open_file \<Rightarrow> 'w \<Rightarrow> file_key list" where
  "own_key E f w =
     (case fstat_meta E (of_fd f) w of
        Inl _ \<Rightarrow> []
      | Inr m \<Rightarrow> if m_is_dir m then [] else [(of_share_idx f, m_ino m)])"

text \<open>The change itself: the status, the files whose leases break, and the handle afterwards.\<close>

definition apply_set_info ::
  "'w ext \<Rightarrow> open_file \<Rightarrow> u8 \<Rightarrow> bytes \<Rightarrow> path \<Rightarrow> 'w \<Rightarrow> (u32 \<times> file_key list \<times> open_file) \<times> 'w" where
  "apply_set_info E f cls d share_root w =
     (let own = own_key E f w
      in if cls = 4 then (case set_basic_info E f d w of (st, w) \<Rightarrow> ((st, [], f), w))
         else if cls = 13 then
           (case set_disposition E f d w of
              (st, f) \<Rightarrow> ((st, if st = SUCCESS \<and> of_delete_on_close f then own else [], f), w))
         else if cls = 10 then
           (case set_rename E f d share_root w of
              ((st, replaced, f), w) \<Rightarrow>
                ((st, if st = SUCCESS
                      then own @ (case replaced of None \<Rightarrow> [] | Some ino \<Rightarrow> [(of_share_idx f, ino)])
                      else [], f), w))
         else if cls = 19 then ((SUCCESS, [], f), w)
         else if cls = 20 then
           (case rdr_u64 (rdr_new d) of
              None \<Rightarrow> ((INVALID_PARAMETER, [], f), w)
            | Some (len, _) \<Rightarrow>
                (case os_ftruncate E (of_fd f) len w of
                   (Inr (), w) \<Rightarrow> ((SUCCESS, own, f), w)
                 | (Inl e, w) \<Rightarrow> ((from_errno e, [], f), w)))
         else ((NOT_SUPPORTED, [], f), w))"

definition set_info ::
  "'w ext \<Rightarrow> session \<Rightarrow> req_hdr \<Rightarrow> bytes \<Rightarrow> share_cfg \<Rightarrow> bool \<Rightarrow> 'w st \<Rightarrow> 'w st" where
  "set_info E ss h msg share read_only s =
     (case parse_set_info msg (g_cx s) of
        None \<Rightarrow> err_r h INVALID_PARAMETER s
      | Some (info_type, cls, fid, d) \<Rightarrow>
          if info_type \<noteq> INFO_FILE then err_r h NOT_SUPPORTED s
          else if read_only then err_r h ACCESS_DENIED s
          else (case ht_get (ss_handles ss) fid (cx_tree_id (g_cx s)) of
                  None \<Rightarrow> err_r h FILE_CLOSED s
                | Some f \<Rightarrow>
                    (case apply_set_info E f cls d (sh_path share) (g_w s) of
                       ((st, broken, f'), w) \<Rightarrow>
                         (let s = set_sess (ss\<lparr>ss_handles := ht_set fid f' (ss_handles ss)\<rparr>) (s\<lparr>g_w := w\<rparr>);
                              s = fold (\<lambda>key. break_leases key (of_lease_key f')) broken s
                          in if st \<noteq> SUCCESS then err_r h st s
                             else put (le16 2) (begin_r h SUCCESS s)))))"

section \<open>LOCK\<close>

abbreviation (input) LOCKFLAG_SHARED :: u32 where "LOCKFLAG_SHARED \<equiv> 1"
abbreviation (input) LOCKFLAG_EXCLUSIVE :: u32 where "LOCKFLAG_EXCLUSIVE \<equiv> 2"
abbreviation (input) LOCKFLAG_UNLOCK :: u32 where "LOCKFLAG_UNLOCK \<equiv> 4"

definition rdr_lock_elem :: "rdr \<Rightarrow> ((u64 \<times> u64 \<times> u32) \<times> rdr) option" where
  "rdr_lock_elem r = do {
     (off, r) \<leftarrow> rdr_u64 r;
     (len, r) \<leftarrow> rdr_u64 r;
     (flags, r) \<leftarrow> rdr_u32 r;
     r \<leftarrow> rdr_skip 4 r;
     Some ((off, len, flags), r) }"

definition parse_lock :: "bytes \<Rightarrow> chain \<Rightarrow> (u64 \<times> (u64 \<times> u64 \<times> u32) list) option" where
  "parse_lock body c = do {
     (sz, r) \<leftarrow> rdr_u16 (rdr_new body);
     if sz \<noteq> 48 then None
     else do {
       (count, r) \<leftarrow> rdr_u16 r;
       r \<leftarrow> rdr_skip 4 r;
       (fid, r) \<leftarrow> parse_fid r c;
       if count = 0 \<or> count > 64 then None
       else do {
         (elems, r) \<leftarrow> rdr_many rdr_lock_elem (unat count) r;
         Some (fid, elems) } } }"

definition lock_kind_of :: "u32 \<Rightarrow> lock_kind option" where
  "lock_kind_of flags =
     (if flags AND LOCKFLAG_UNLOCK \<noteq> 0 then Some Unlock
      else if flags AND LOCKFLAG_EXCLUSIVE \<noteq> 0 then Some Exclusive
      else if flags AND LOCKFLAG_SHARED \<noteq> 0 then Some Shared
      else None)"

text \<open>The batch: the final status, the ranges locked so far in order, and the world.\<close>

fun lock_loop ::
  "'w ext \<Rightarrow> fd \<Rightarrow> (u64 \<times> u64 \<times> u32) list \<Rightarrow> (u64 \<times> u64) list \<Rightarrow> 'w \<Rightarrow> u32 \<times> (u64 \<times> u64) list \<times> 'w" where
  "lock_loop E fd [] applied w = (SUCCESS, applied, w)"
| "lock_loop E fd ((off, len, flags) # es) applied w =
     (case lock_kind_of flags of
        None \<Rightarrow> (INVALID_PARAMETER, applied, w)
      | Some kind \<Rightarrow>
          (case range_lock E fd off len kind w of
             (Inr (), w) \<Rightarrow>
               lock_loop E fd es (if flags AND LOCKFLAG_UNLOCK = 0 then applied @ [(off, len)] else applied) w
           | (Inl e, w) \<Rightarrow>
               (if e = EAGAIN \<or> e = EACCES then LOCK_NOT_GRANTED else from_errno e, applied, w)))"

definition unwind_locks :: "'w ext \<Rightarrow> fd \<Rightarrow> (u64 \<times> u64) list \<Rightarrow> 'w \<Rightarrow> 'w" where
  "unwind_locks E fd applied w =
     fold (\<lambda>(off, len) w. snd (range_lock E fd off len Unlock w)) (rev applied) w"

definition lock :: "'w ext \<Rightarrow> session \<Rightarrow> req_hdr \<Rightarrow> bytes \<Rightarrow> 'w st \<Rightarrow> 'w st" where
  "lock E ss h body s =
     (case parse_lock body (g_cx s) of
        None \<Rightarrow> err_r h INVALID_PARAMETER s
      | Some (fid, elems) \<Rightarrow>
          (case ht_get (ss_handles ss) fid (cx_tree_id (g_cx s)) of
             None \<Rightarrow> err_r h FILE_CLOSED s
           | Some f \<Rightarrow>
               if of_is_dir f then err_r h INVALID_PARAMETER s
               else (case lock_loop E (of_fd f) elems [] (g_w s) of
                       (st, applied, w) \<Rightarrow>
                         if st \<noteq> SUCCESS
                         then err_r h st (s\<lparr>g_w := unwind_locks E (of_fd f) applied w\<rparr>)
                         else put (le16 4 @ le16 0) (begin_r h SUCCESS (s\<lparr>g_w := w\<rparr>)))))"

section \<open>CHANGE\_NOTIFY\<close>

abbreviation (input) MAX_NOTIFY_PER_CONN :: nat where "MAX_NOTIFY_PER_CONN \<equiv> 1024"

definition parse_notify :: "bytes \<Rightarrow> chain \<Rightarrow> (u16 \<times> u32 \<times> u64 \<times> u32) option" where
  "parse_notify body c = do {
     (sz, r) \<leftarrow> rdr_u16 (rdr_new body);
     if sz \<noteq> 32 then None
     else do {
       (flags, r) \<leftarrow> rdr_u16 r;
       (out_len, r) \<leftarrow> rdr_u32 r;
       (fid, r) \<leftarrow> parse_fid r c;
       (flt, r) \<leftarrow> rdr_u32 r;
       Some (flags, out_len, fid, flt) } }"

definition want_sign :: "req_hdr \<Rightarrow> 'w st \<Rightarrow> bool" where
  "want_sign h s =
     (case hget (pc_channels (g_pc s)) (cx_session_id (g_cx s)) of
        None \<Rightarrow> False
      | Some c \<Rightarrow> ch_sign c \<noteq> None \<and> (ch_signing_required c \<or> h_flags h AND FLAG_SIGNED \<noteq> 0))"

definition pend_notify :: "req_hdr \<Rightarrow> u16 \<Rightarrow> u32 \<Rightarrow> u64 \<Rightarrow> u32 \<Rightarrow> path \<Rightarrow> 'w st \<Rightarrow> 'w st" where
  "pend_notify h flags out_len fid flt p s =
     (let pc = g_pc s;
          aid = pc_next_async_id pc;
          m = \<lparr>am_msg_id = h_msg_id h, am_credit_charge = h_credit_charge h,
               am_session_id = cx_session_id (g_cx s), am_async_id = aid, am_want_sign = want_sign h s\<rparr>;
          pend = \<lparr>np_async_id = aid, np_fid = fid, np_path = p, np_recursive = (flags AND 1 \<noteq> 0),
                  np_filter = flt, np_out_len = min out_len MAX_TRANSACT, np_meta = m\<rparr>
      in s\<lparr>g_pc := pc\<lparr>pc_next_async_id := aid + 1, pc_notify_new := pc_notify_new pc @ [pend],
                     pc_notify_active := pc_notify_active pc @ [(fid, aid)]\<rparr>,
           g_tx := err_body (begin_resp_async (g_tx s) m PENDING (h_credits h) CMD_CHANGE_NOTIFY)\<rparr>)"

definition change_notify :: "session \<Rightarrow> req_hdr \<Rightarrow> bytes \<Rightarrow> 'w st \<Rightarrow> 'w st" where
  "change_notify ss h body s =
     (case parse_notify body (g_cx s) of
        None \<Rightarrow> err_r h INVALID_PARAMETER s
      | Some (flags, out_len, fid, flt) \<Rightarrow>
          if length (pc_notify_active (g_pc s)) \<ge> MAX_NOTIFY_PER_CONN
          then err_r h INSUFFICIENT_RESOURCES s
          else (case ht_get (ss_handles ss) fid (cx_tree_id (g_cx s)) of
                  None \<Rightarrow> err_r h FILE_CLOSED s
                | Some f \<Rightarrow>
                    if \<not> of_is_dir f then err_r h INVALID_PARAMETER s
                    else pend_notify h flags out_len fid flt (of_path f) s))"

section \<open>IOCTL\<close>

abbreviation (input) FSCTL_VALIDATE_NEGOTIATE_INFO :: u32 where "FSCTL_VALIDATE_NEGOTIATE_INFO \<equiv> 0x00140204"
abbreviation (input) FSCTL_QUERY_NETWORK_INTERFACE_INFO :: u32 where "FSCTL_QUERY_NETWORK_INTERFACE_INFO \<equiv> 0x001401FC"

definition SUPPORTED_DIALECTS :: "u16 list" where
  "SUPPORTED_DIALECTS = [0x0311, 0x0302, 0x0300, 0x0210, 0x0202]"

definition select_dialect :: "u16 list \<Rightarrow> u16 option" where
  "select_dialect dialects = find (\<lambda>d. d \<in> set dialects) SUPPORTED_DIALECTS"

definition server_secmode :: "srv \<Rightarrow> u16" where
  "server_secmode srv = (if signing_required (sv_cfg srv) then 1 OR 2 else 1)"

definition parse_ioctl :: "bytes \<Rightarrow> u32 option" where
  "parse_ioctl msg = do {
     body \<leftarrow> slice_from msg 64;
     (sz, r) \<leftarrow> rdr_u16 (rdr_new body);
     if sz \<noteq> 57 then None
     else do {
       r \<leftarrow> rdr_skip 2 r;
       (ctl, r) \<leftarrow> rdr_u32 r;
       _ \<leftarrow> rdr_skip 16 r;
       Some ctl } }"

definition parse_validate :: "bytes \<Rightarrow> (client_neg \<times> u16 list) option" where
  "parse_validate msg = do {
     inp \<leftarrow> slice_from msg (64 + 24);
     (in_off, r) \<leftarrow> rdr_u32 (rdr_new inp);
     (in_len, r) \<leftarrow> rdr_u32 r;
     buf \<leftarrow> slice_get msg (unat in_off) (unat in_off + unat in_len);
     (caps, r) \<leftarrow> rdr_u32 (rdr_new buf);
     (guid, r) \<leftarrow> rdr_take 16 r;
     (secmode, r) \<leftarrow> rdr_u16 r;
     (n, r) \<leftarrow> rdr_u16 r;
     (dialects, r) \<leftarrow> rdr_many rdr_u16 (min (unat n) 16) r;
     Some (\<lparr>cn_secmode = secmode, cn_caps = caps, cn_guid = guid\<rparr>, dialects) }"

definition negotiate_valid :: "bytes \<Rightarrow> proto_conn \<Rightarrow> bool" where
  "negotiate_valid msg pc =
     (case (parse_validate msg, pc_client_neg pc) of
        (Some (cn, dialects), Some orig) \<Rightarrow> cn = orig \<and> select_dialect dialects = Some (pc_dialect pc)
      | _ \<Rightarrow> False)"

definition ioctl_resp :: "u32 \<Rightarrow> bytes \<Rightarrow> bytes" where
  "ioctl_resp ctl out = le16 49 @ le16 0 @ le32 ctl @ le64 U64_MAX @ le64 U64_MAX @ le32 112 @ le32 0 @
     le32 112 @ le32 (word_of_nat (length out)) @ le32 0 @ le32 0 @ out"

definition ioctl :: "srv \<Rightarrow> req_hdr \<Rightarrow> bytes \<Rightarrow> 'w st \<Rightarrow> 'w st option" where
  "ioctl srv h msg s =
     (case parse_ioctl msg of
        None \<Rightarrow> Some (err_r h INVALID_PARAMETER s)
      | Some ctl \<Rightarrow>
          if ctl = FSCTL_VALIDATE_NEGOTIATE_INFO then
            (if \<not> negotiate_valid msg (g_pc s) then Some (set_close s)
             else Some (put (ioctl_resp ctl (le32 (pc_server_caps (g_pc s)) @ sv_guid srv @
                        le16 (server_secmode srv) @ le16 (pc_dialect (g_pc s)))) (begin_r h SUCCESS s)))
          else if ctl = FSCTL_QUERY_NETWORK_INTERFACE_INFO then do {
            out \<leftarrow> encode_interface_info (filter (\<lambda>i. \<not> if_loopback i) (sv_interfaces srv));
            Some (put (ioctl_resp ctl out) (begin_r h SUCCESS s)) }
          else Some (err_r h NOT_SUPPORTED s))"

end
