(* ===== verification/Spnego.thy ===== *)
theory Spnego
  imports Wire
begin

text \<open>
  The SPNEGO (RFC 4178) DER glue of \<open>src/src/spnego.rs\<close>: the minimal TLV writer and reader,
  the \<open>NegTokenInit2\<close> hint, the classification of an inbound security blob, and the
  \<open>NegTokenResp\<close> builder, with the round trips between them.
\<close>

section \<open>Mechanisms\<close>

definition OID_SPNEGO :: bytes where
  "OID_SPNEGO = [0x2B, 0x06, 0x01, 0x05, 0x05, 0x02]"

definition OID_NTLMSSP :: bytes where
  "OID_NTLMSSP = [0x2B, 0x06, 0x01, 0x04, 0x01, 0x82, 0x37, 0x02, 0x02, 0x0A]"

definition OID_KRB5 :: bytes where
  "OID_KRB5 = [0x2A, 0x86, 0x48, 0x86, 0xF7, 0x12, 0x01, 0x02, 0x02]"

definition OID_MS_KRB5 :: bytes where
  "OID_MS_KRB5 = [0x2A, 0x86, 0x48, 0x82, 0xF7, 0x12, 0x01, 0x02, 0x02]"

datatype mech = Krb5 | Ntlmssp | Unknown

definition mech_from_oid :: "bytes \<Rightarrow> mech" where
  "mech_from_oid oid =
     (if oid = OID_KRB5 \<or> oid = OID_MS_KRB5 then Krb5
      else if oid = OID_NTLMSSP then Ntlmssp else Unknown)"

text \<open>The NTLMSSP signature (\<open>ntlm_sig\<close> of \<open>lib.rs\<close>).\<close>

definition SIG :: bytes where
  "SIG = bstr ''NTLMSSP'' @ [0]"

section \<open>DER\<close>

definition der_len :: "nat \<Rightarrow> bytes" where
  "der_len n =
     (if n < 128 then [word_of_nat n]
      else if n < 256 then [0x81, word_of_nat n]
      else [0x82, word_of_nat (n div 256), word_of_nat (n mod 256)])"

definition der :: "u8 \<Rightarrow> bytes \<Rightarrow> bytes" where
  "der tag content = tag # der_len (length content) @ content"

definition der_oid :: "bytes \<Rightarrow> bytes" where
  "der_oid body = der 0x06 body"

record tlv =
  tlv_tag :: u8
  tlv_val :: bytes
  tlv_len :: nat

definition tlv_header :: "bytes \<Rightarrow> (nat \<times> nat) option" where
  "tlv_header buf =
     (let b1 = unat (buf ! 1)
      in if b1 < 0x80 then Some (2, b1)
         else if b1 = 0x81 then
           (if length buf < 3 then None else Some (3, unat (buf ! 2)))
         else if b1 = 0x82 then
           (if length buf < 4 then None else Some (4, unat (buf ! 2) * 256 + unat (buf ! 3)))
         else None)"

definition tlv_parse :: "bytes \<Rightarrow> tlv option" where
  "tlv_parse buf =
     (if length buf < 2 then None
      else do {
        (hdr, len) \<leftarrow> tlv_header buf;
        let end = hdr + len;
        if end > length buf then None
        else Some \<lparr>tlv_tag = buf ! 0, tlv_val = take (end - hdr) (drop hdr buf), tlv_len = end\<rparr> })"

lemma tlv_header_pos: "tlv_header buf = Some (h, l) \<Longrightarrow> 2 \<le> h"
  by (auto simp: tlv_header_def Let_def split: if_splits)

lemma tlv_parse_len: "tlv_parse buf = Some t \<Longrightarrow> 2 \<le> tlv_len t \<and> tlv_len t \<le> length buf"
  by (auto simp: tlv_parse_def Let_def dest!: tlv_header_pos split: if_splits)

text \<open>The iterator of \<open>children\<close>, run to its end; each element consumes at least two bytes.\<close>

function children :: "bytes \<Rightarrow> tlv list" where
  "children buf =
     (case tlv_parse buf of
        None \<Rightarrow> []
      | Some t \<Rightarrow> t # children (drop (tlv_len t) buf))"
  by pat_completeness auto
termination
  by (relation "measure length") (auto dest!: tlv_parse_len)

declare children.simps [simp del]

section \<open>The NEGOTIATE hint\<close>

fun hint_oid :: "mech \<Rightarrow> bytes" where
  "hint_oid Krb5 = der_oid OID_KRB5"
| "hint_oid Ntlmssp = der_oid OID_NTLMSSP"
| "hint_oid Unknown = []"

definition neg_hints :: bytes where
  "neg_hints = der 0xA3 (der 0x30 (der 0xA0 (der 0x1B (bstr ''not_defined_in_RFC4178@please_ignore''))))"

definition neg_init_hint :: "mech list \<Rightarrow> bytes" where
  "neg_init_hint mechs =
     (if mechs = [] then []
      else (let oids = concat (map hint_oid mechs);
                mech_list = der 0xA0 (der 0x30 oids);
                token = der 0xA0 (der 0x30 (mech_list @ neg_hints))
            in der 0x60 (der_oid OID_SPNEGO @ token)))"

section \<open>Inbound blobs\<close>

record incoming =
  in_mech :: mech
  in_spnego :: bool
  in_token :: bytes

definition filter_tag :: "u8 \<Rightarrow> tlv option \<Rightarrow> tlv option" where
  "filter_tag tag t = (case t of None \<Rightarrow> None | Some x \<Rightarrow> if tlv_tag x = tag then Some x else None)"

definition first_mech :: "bytes \<Rightarrow> mech \<Rightarrow> mech" where
  "first_mech list m0 =
     (case find (\<lambda>m. m \<noteq> Unknown) (map (\<lambda>t. mech_from_oid (tlv_val t)) (filter (\<lambda>t. tlv_tag t = 0x06) (children list))) of
        None \<Rightarrow> m0 | Some m \<Rightarrow> m)"

fun neg_init_fields :: "tlv list \<Rightarrow> mech \<Rightarrow> bytes \<Rightarrow> mech \<times> bytes" where
  "neg_init_fields [] mech token = (mech, token)"
| "neg_init_fields (f # fs) mech token =
     (if tlv_tag f = 0xA0 then
        neg_init_fields fs
          (case filter_tag 0x30 (tlv_parse (tlv_val f)) of None \<Rightarrow> mech | Some l \<Rightarrow> first_mech (tlv_val l) mech) token
      else if tlv_tag f = 0xA2 then
        neg_init_fields fs mech
          (case filter_tag 0x04 (tlv_parse (tlv_val f)) of None \<Rightarrow> token | Some os \<Rightarrow> tlv_val os)
      else neg_init_fields fs mech token)"

definition parse_neg_init :: "bytes \<Rightarrow> incoming" where
  "parse_neg_init body =
     (case filter_tag 0x30 (tlv_parse body) of
        None \<Rightarrow> \<lparr>in_mech = Unknown, in_spnego = True, in_token = []\<rparr>
      | Some seq \<Rightarrow>
          (case neg_init_fields (children (tlv_val seq)) Unknown [] of
             (mech, token) \<Rightarrow> \<lparr>in_mech = mech, in_spnego = True, in_token = token\<rparr>))"

fun neg_resp_fields :: "tlv list \<Rightarrow> mech \<Rightarrow> bytes \<Rightarrow> mech \<times> bytes" where
  "neg_resp_fields [] mech token = (mech, token)"
| "neg_resp_fields (f # fs) mech token =
     (if tlv_tag f = 0xA1 then
        neg_resp_fields fs
          (case filter_tag 0x06 (tlv_parse (tlv_val f)) of None \<Rightarrow> mech | Some oid \<Rightarrow> mech_from_oid (tlv_val oid)) token
      else if tlv_tag f = 0xA2 then
        neg_resp_fields fs mech
          (case filter_tag 0x04 (tlv_parse (tlv_val f)) of None \<Rightarrow> token | Some os \<Rightarrow> tlv_val os)
      else neg_resp_fields fs mech token)"

definition starts_with_bytes :: "bytes \<Rightarrow> bytes \<Rightarrow> bool" where
  "starts_with_bytes p b \<longleftrightarrow> take (length p) b = p"

definition sniff_mech :: "mech \<Rightarrow> bytes \<Rightarrow> mech" where
  "sniff_mech mech token =
     (if mech = Unknown then
        (if starts_with_bytes SIG token then Ntlmssp
         else if take 1 token = [0x60] then Krb5 else mech)
      else mech)"

definition parse_neg_resp :: "bytes \<Rightarrow> incoming" where
  "parse_neg_resp blob =
     (case filter_tag 0x30 (do { outer \<leftarrow> filter_tag 0xA1 (tlv_parse blob); tlv_parse (tlv_val outer) }) of
        None \<Rightarrow> \<lparr>in_mech = Unknown, in_spnego = True, in_token = []\<rparr>
      | Some seq \<Rightarrow>
          (case neg_resp_fields (children (tlv_val seq)) Unknown [] of
             (mech, token) \<Rightarrow> \<lparr>in_mech = sniff_mech mech token, in_spnego = True, in_token = token\<rparr>))"

definition classify_app0 :: "bytes \<Rightarrow> incoming" where
  "classify_app0 blob =
     (let unknown = \<lparr>in_mech = Unknown, in_spnego = False, in_token = blob\<rparr>
      in case tlv_parse blob of
           None \<Rightarrow> unknown
         | Some t \<Rightarrow>
             (case children (tlv_val t) of
                [] \<Rightarrow> unknown
              | oid # it \<Rightarrow>
                  if tlv_tag oid = 0x06 \<and> tlv_val oid = OID_SPNEGO then
                    (case it of [] \<Rightarrow> unknown | neg # _ \<Rightarrow> parse_neg_init (tlv_val neg))
                  else if tlv_tag oid = 0x06 then
                    \<lparr>in_mech = mech_from_oid (tlv_val oid), in_spnego = False, in_token = blob\<rparr>
                  else unknown))"

definition classify :: "bytes \<Rightarrow> incoming" where
  "classify blob =
     (if take 1 blob = [0x60] then classify_app0 blob
      else if take 1 blob = [0xA1] then parse_neg_resp blob
      else if starts_with_bytes SIG blob then \<lparr>in_mech = Ntlmssp, in_spnego = False, in_token = blob\<rparr>
      else \<lparr>in_mech = Unknown, in_spnego = False, in_token = blob\<rparr>)"

section \<open>Responses\<close>

abbreviation (input) ACCEPT_COMPLETED :: u8 where "ACCEPT_COMPLETED \<equiv> 0"
abbreviation (input) ACCEPT_INCOMPLETE :: u8 where "ACCEPT_INCOMPLETE \<equiv> 1"

fun resp_oid :: "mech \<Rightarrow> bytes" where
  "resp_oid Krb5 = OID_KRB5"
| "resp_oid Ntlmssp = OID_NTLMSSP"
| "resp_oid Unknown = []"

definition neg_resp :: "u8 \<Rightarrow> mech \<Rightarrow> bytes \<Rightarrow> bytes" where
  "neg_resp state mech token =
     (let oid = resp_oid mech;
          inner = der 0xA0 [0x0A, 0x01, state]
                  @ (if oid \<noteq> [] then der 0xA1 (der_oid oid) else [])
                  @ (if token \<noteq> [] then der 0xA2 (der 0x04 token) else [])
      in der 0xA1 (der 0x30 inner))"

section \<open>DER round trips\<close>

lemma der_len_length: "length (der_len n) = (if n < 128 then 1 else if n < 256 then 2 else 3)"
  by (simp add: der_len_def)

lemma length_der: "length (der tag c) = 1 + (if length c < 128 then 1 else if length c < 256 then 2 else 3) + length c"
  by (simp add: der_def der_len_length)

lemma tlv_header_der:
  assumes "length c < 65536"
  shows "tlv_header (der tag c @ r) = Some (1 + length (der_len (length c)), length c)"
proof -
  have "length c div 256 < 256" using assms by auto
  moreover have "length c div 256 * 256 + length c mod 256 = length c" by simp
  ultimately show ?thesis
    by (auto simp: tlv_header_def der_def der_len_def unat_of_nat Let_def)
qed

lemma tlv_parse_der [simp]:
  assumes "length c < 65536"
  shows "tlv_parse (der tag c @ r) = Some \<lparr>tlv_tag = tag, tlv_val = c, tlv_len = length (der tag c)\<rparr>"
proof -
  have "length (der tag c @ r) \<ge> 2" by (simp add: length_der)
  then show ?thesis
    unfolding tlv_parse_def tlv_header_der [OF assms]
    by (simp add: Let_def) (simp add: der_def)
qed

lemmas tlv_parse_der_nil [simp] = tlv_parse_der [where r = "[]", simplified]

lemma children_Nil [simp]: "children [] = []"
  by (subst children.simps) (simp add: tlv_parse_def)

lemma children_der [simp]:
  assumes "length c < 65536"
  shows "children (der tag c @ r) = \<lparr>tlv_tag = tag, tlv_val = c, tlv_len = length (der tag c)\<rparr> # children r"
  using assms by (subst children.simps) simp

lemmas children_der_nil [simp] = children_der [where r = "[]", simplified]

lemma children_ders:
  "\<forall>(t, c) \<in> set xs. length c < 65536 \<Longrightarrow>
   map (\<lambda>x. (tlv_tag x, tlv_val x)) (children (concat (map (\<lambda>(t, c). der t c) xs))) = xs"
  by (induction xs) auto

lemma mech_oids [simp]:
  "mech_from_oid OID_KRB5 = Krb5" "mech_from_oid OID_NTLMSSP = Ntlmssp" "mech_from_oid OID_MS_KRB5 = Krb5"
  by (simp_all add: mech_from_oid_def OID_KRB5_def OID_NTLMSSP_def OID_MS_KRB5_def)

lemma oid_lengths [simp]:
  "length OID_KRB5 = 9" "length OID_NTLMSSP = 10" "length OID_SPNEGO = 6"
  by (simp_all add: OID_KRB5_def OID_NTLMSSP_def OID_SPNEGO_def)

lemma take1_der [simp]: "take 1 (der t c) = [t]" "take (Suc 0) (der t c) = [t]"
  by (simp_all add: der_def)

lemma length_hint_oids: "length (concat (map hint_oid ms)) \<le> 12 * length ms"
proof (induction ms)
  case (Cons m ms)
  have "length (hint_oid m) \<le> 12" by (cases m) (simp_all add: der_oid_def length_der)
  with Cons show ?case by simp
qed simp

lemma hint_oids_children:
  "map (\<lambda>t. mech_from_oid (tlv_val t)) (filter (\<lambda>t. tlv_tag t = 0x06) (children (concat (map hint_oid ms)))) =
    filter (\<lambda>m. m \<noteq> Unknown) ms"
proof (induction ms)
  case (Cons m ms)
  then show ?case by (cases m) (simp_all add: der_oid_def)
qed simp

lemma find_filter_same: "find P (filter P xs) = find P xs"
  by (induction xs) auto

lemma neg_hints_length: "length neg_hints \<le> 60"
  by (simp add: neg_hints_def length_der)

lemma neg_hints_children: "\<exists>v l. children neg_hints = [\<lparr>tlv_tag = 0xA3, tlv_val = v, tlv_len = l\<rparr>]"
  by (simp add: neg_hints_def length_der)

section \<open>Properties\<close>

text \<open>DER round trip: reading at the front of any buffer that starts with an encoded element
  of up to 65535 content bytes returns its tag and content and consumes exactly the bytes the
  writer produced, whatever follows.\<close>

lemma der_round_trip:
  assumes "length content < 65536"
  shows "\<exists>t. tlv_parse (der tag content @ tail) = Some t \<and> tlv_tag t = tag \<and> tlv_val t = content \<and>
    drop (tlv_len t) (der tag content @ tail) = tail"
  using assms by simp

lemma der_round_trip_witness:
  "\<exists>t. tlv_parse (der 4 (replicate 300 9) @ [1, 2]) = Some t \<and> tlv_val t = replicate 300 9"
  using der_round_trip [of "replicate 300 9" 4 "[1, 2]"] by auto

text \<open>(C22) A \<open>NegTokenResp\<close> the server builds for a mechanism classifies back to that mechanism
  and carries exactly the token it was given.\<close>

theorem neg_resp_classify:
  assumes "mech \<noteq> Unknown" and "length token \<le> 65000"
  shows "classify (neg_resp state mech token) = \<lparr>in_mech = mech, in_spnego = True, in_token = token\<rparr>"
proof -
  define oid where "oid = resp_oid mech"
  have o: "oid \<noteq> []" "length oid \<le> 10" "mech_from_oid oid = mech"
    using assms(1) by (cases mech; auto simp: oid_def simp flip: length_greater_0_conv)+
  define t where "t = (if token \<noteq> [] then der 0xA2 (der 0x04 token) else [])"
  define inner where "inner = der 0xA0 [0x0A, 0x01, state] @ der 0xA1 (der_oid oid) @ t"
  have l4: "length (der 0x04 token) < 65536" using assms(2) by (simp add: length_der)
  then have tl: "length t \<le> 65008" using assms(2) by (simp add: t_def length_der)
  have ol: "length (der_oid oid) < 65536" using o(2) by (simp add: der_oid_def length_der)
  have il: "length inner < 65536 - 8" using o(2) tl by (simp add: inner_def length_der der_oid_def)
  have r: "neg_resp state mech token = der 0xA1 (der 0x30 inner)"
    using o(1) by (simp add: neg_resp_def oid_def [symmetric] inner_def t_def)
  have sl: "length (der 0x30 inner) < 65536" using il by (simp add: length_der)
  have f: "neg_resp_fields (children inner) Unknown [] = (mech, token)"
    using ol o l4 assms(2) by (auto simp: inner_def t_def filter_tag_def der_oid_def)
  show ?thesis
    using assms(1) il sl f
    by (simp add: r classify_def parse_neg_resp_def filter_tag_def sniff_mech_def)
qed

theorem neg_resp_classify_witness:
  "classify (neg_resp ACCEPT_INCOMPLETE Ntlmssp SIG) = \<lparr>in_mech = Ntlmssp, in_spnego = True, in_token = SIG\<rparr>"
  by (rule neg_resp_classify) (simp_all add: SIG_def)

text \<open>The NEGOTIATE hint round-trips: classifying the advertised \<open>NegTokenInit2\<close> selects the
  first supported mechanism of the list, with no mechanism token.\<close>

lemma hint_classify:
  assumes "mechs \<noteq> []" and "length mechs \<le> 5000"
  shows "classify (neg_init_hint mechs) =
    \<lparr>in_mech = (case find (\<lambda>m. m \<noteq> Unknown) mechs of None \<Rightarrow> Unknown | Some m \<Rightarrow> m),
     in_spnego = True, in_token = []\<rparr>"
proof -
  define oids where "oids = concat (map hint_oid mechs)"
  define ml where "ml = der 0xA0 (der 0x30 oids)"
  define tok where "tok = der 0xA0 (der 0x30 (ml @ neg_hints))"
  have ol: "length oids \<le> 60000"
    using length_hint_oids [of mechs] assms(2) by (simp add: oids_def)
  have l1: "length (der 0x30 oids) \<le> 60004" "length ml \<le> 60008"
    using ol by (simp_all add: ml_def length_der)
  have l2: "length (ml @ neg_hints) \<le> 60068" using l1 neg_hints_length by simp
  have l3: "length (der 0x30 (ml @ neg_hints)) \<le> 60072" "length tok \<le> 60076"
    using l2 by (simp_all add: tok_def length_der)
  have l4: "length (der_oid OID_SPNEGO @ tok) < 65536"
    using l3 by (simp add: der_oid_def length_der)
  have h: "neg_init_hint mechs = der 0x60 (der_oid OID_SPNEGO @ tok)"
    using assms(1) by (simp add: neg_init_hint_def Let_def oids_def ml_def tok_def)
  have fm: "first_mech oids Unknown = (case find (\<lambda>m. m \<noteq> Unknown) mechs of None \<Rightarrow> Unknown | Some m \<Rightarrow> m)"
    by (simp add: first_mech_def oids_def hint_oids_children find_filter_same)
  obtain v l where nh: "children neg_hints = [\<lparr>tlv_tag = 0xA3, tlv_val = v, tlv_len = l\<rparr>]"
    using neg_hints_children by blast
  have "neg_init_fields (children (ml @ neg_hints)) Unknown [] = (first_mech oids Unknown, [])"
    using l1 ol by (simp add: ml_def nh filter_tag_def)
  then have "parse_neg_init (der 0x30 (ml @ neg_hints)) =
      \<lparr>in_mech = first_mech oids Unknown, in_spnego = True, in_token = []\<rparr>"
    using l2 by (simp add: parse_neg_init_def filter_tag_def)
  then show ?thesis
    using l3 l4 by (simp add: h classify_def classify_app0_def Let_def der_oid_def tok_def fm)
qed

lemma hint_classify_witness:
  "classify (neg_init_hint [Krb5, Ntlmssp]) = \<lparr>in_mech = Krb5, in_spnego = True, in_token = []\<rparr>"
  using hint_classify [of "[Krb5, Ntlmssp]"] by simp

end
