(* ===== verification/Ntlm.thy ===== *)
theory Ntlm
  imports Crypto Spnego
begin

text \<open>
  NTLMSSP as \<open>src/src/ntlm.rs\<close> has it: locating and classifying tokens, the CHALLENGE message,
  parsing AUTHENTICATE, NTLMv2 verification, and that file's own SPNEGO wrappers.
\<close>

section \<open>Tokens\<close>

abbreviation (input) FLAG_ANONYMOUS :: u32 where "FLAG_ANONYMOUS \<equiv> 0x800"
abbreviation (input) FLAG_KEY_EXCH :: u32 where "FLAG_KEY_EXCH \<equiv> 0x40000000"

datatype token = Negotiate | Authenticate | Other

fun find_token :: "bytes \<Rightarrow> bytes option" where
  "find_token [] = None"
| "find_token (b # bs) = (if take 8 (b # bs) = SIG then Some (b # bs) else find_token bs)"

definition token_classify :: "bytes \<Rightarrow> token" where
  "token_classify blob =
     (case find_token blob of
        None \<Rightarrow> Other
      | Some tok \<Rightarrow>
          (if length tok < 12 then Other
           else (let ty = u32_le (take 4 (drop 8 tok))
                 in if ty = 1 then Negotiate else if ty = 3 then Authenticate else Other)))"

section \<open>CHALLENGE\<close>

definition FLAGS :: u32 where
  "FLAGS = 0x00000001 OR 0x00000010 OR 0x00000200 OR 0x00008000 OR 0x00020000 OR 0x00080000 OR
     0x00800000 OR 0x02000000 OR 0x20000000 OR 0x40000000 OR 0x80000000"

definition av_pair :: "u16 \<Rightarrow> bytes \<Rightarrow> bytes" where
  "av_pair i val = le16 i @ le16 (word_of_nat (length val)) @ val"

definition challenge :: "rstr \<Rightarrow> bytes \<Rightarrow> bytes" where
  "challenge server_name chal =
     (let target = utf16le server_name;
          info = av_pair 2 target @ av_pair 1 target @ le16 0 @ le16 0
      in SIG @ le32 2 @
         le16 (word_of_nat (length target)) @ le16 (word_of_nat (length target)) @ le32 56 @
         le32 FLAGS @ chal @ le64 0 @
         le16 (word_of_nat (length info)) @ le16 (word_of_nat (length info)) @
         le32 (word_of_nat (56 + length target)) @
         [0x06, 0x01, 0xB1, 0x1D, 0x00, 0x00, 0x00, 0x0F] @ target @ info)"

section \<open>AUTHENTICATE\<close>

record authenticate =
  au_user :: rstr
  au_domain :: rstr
  au_nt_response :: bytes
  au_enc_session_key :: bytes
  au_flags :: u32

definition is_anonymous :: "authenticate \<Rightarrow> bool" where
  "is_anonymous a \<longleftrightarrow>
     au_flags a AND FLAG_ANONYMOUS \<noteq> 0 \<or> (au_user a = [] \<and> length (au_nt_response a) < 16)"

definition au_field :: "bytes \<Rightarrow> rdr \<Rightarrow> (bytes \<times> rdr) option" where
  "au_field tok r = do {
     (len, r) \<leftarrow> rdr_u16 r;
     (_, r) \<leftarrow> rdr_u16 r;
     (off, r) \<leftarrow> rdr_u32 r;
     if len = 0 then Some ([], r)
     else do { s \<leftarrow> slice_get tok (unat off) (unat off + unat len); Some (s, r) } }"

definition parse_authenticate :: "bytes \<Rightarrow> authenticate option" where
  "parse_authenticate blob = do {
     tok \<leftarrow> find_token blob;
     r \<leftarrow> rdr_skip 8 (rdr_new tok);
     (ty, r) \<leftarrow> rdr_u32 r;
     if ty \<noteq> 3 then None
     else do {
       (_, r) \<leftarrow> au_field tok r;
       (nt_response, r) \<leftarrow> au_field tok r;
       (domain, r) \<leftarrow> au_field tok r;
       (user, r) \<leftarrow> au_field tok r;
       (_, r) \<leftarrow> au_field tok r;
       (enc_session_key, r) \<leftarrow> au_field tok r;
       (flags, r) \<leftarrow> rdr_u32 r;
       Some \<lparr>au_user = from_utf16le user, au_domain = from_utf16le domain,
             au_nt_response = nt_response, au_enc_session_key = enc_session_key, au_flags = flags\<rparr> } }"

definition ntlmv2_hash :: "'w ext \<Rightarrow> bytes \<Rightarrow> authenticate \<Rightarrow> bytes" where
  "ntlmv2_hash E nt_hash auth =
     cr_hmac_md5 E nt_hash (utf16le (uc_upper E (au_user auth)) @ utf16le (au_domain auth))"

text \<open>The outer \<open>option\<close> is a panic, the inner one the verdict.\<close>

definition verify_ntlmv2 :: "'w ext \<Rightarrow> bytes \<Rightarrow> authenticate \<Rightarrow> bytes \<Rightarrow> bytes option option" where
  "verify_ntlmv2 E nt_hash auth server_challenge =
     (if length (au_nt_response auth) < 16 + 28 then Some None
      else (let v2_hash = ntlmv2_hash E nt_hash auth;
                proof = take 16 (au_nt_response auth);
                temp = drop 16 (au_nt_response auth);
                expect = cr_hmac_md5 E v2_hash (server_challenge @ temp)
            in if length expect \<noteq> length proof \<or> ct_diff expect proof \<noteq> 0 then Some None
               else (let session_base = cr_hmac_md5 E v2_hash proof
                     in if au_flags auth AND FLAG_KEY_EXCH \<noteq> 0 \<and> length (au_enc_session_key auth) = 16
                        then do { k \<leftarrow> rc4 session_base (au_enc_session_key auth); Some (Some k) }
                        else Some (Some session_base))))"

section \<open>SPNEGO wrappers\<close>

definition is_spnego :: "bytes \<Rightarrow> bool" where
  "is_spnego blob \<longleftrightarrow> take 1 blob = [0x60] \<or> take 1 blob = [0xA1]"

definition spnego_hint :: bytes where
  "spnego_hint =
     (let mech_list = der 0xA0 (der 0x30 (der 0x06 OID_NTLMSSP));
          hint_str = der 0x1B (bstr ''not_defined_in_RFC4178@please_ignore'');
          hints = der 0xA3 (der 0x30 (der 0xA0 hint_str));
          token = der 0xA0 (der 0x30 (mech_list @ hints))
      in der 0x60 (der 0x06 OID_SPNEGO @ token))"

definition spnego_wrap_challenge :: "bytes \<Rightarrow> bytes" where
  "spnego_wrap_challenge token =
     der 0xA1 (der 0x30 (der 0xA0 [0x0A, 0x01, 0x01] @ der 0xA1 (der 0x06 OID_NTLMSSP)
       @ der 0xA2 (der 0x04 token)))"

definition spnego_accept_completed :: bytes where
  "spnego_accept_completed = der 0xA1 (der 0x30 (der 0xA0 [0x0A, 0x01, 0x00]))"

section \<open>Facts\<close>

lemma find_token_prefix: "take 8 t = SIG \<Longrightarrow> find_token t = Some t"
  by (cases t) (simp_all add: SIG_def bstr_def)

lemma find_token_suffix: "find_token b = Some t \<Longrightarrow> \<exists>p. b = p @ t \<and> take 8 t = SIG"
proof (induction b)
  case (Cons x xs)
  then show ?case by (auto split: if_splits intro: exI [of _ "[]"])
qed simp

lemma length_SIG [simp]: "length SIG = 8"
  by (simp add: SIG_def)

lemma challenge_sig: "take 8 (challenge n c) = SIG"
  by (simp add: challenge_def Let_def)

lemma verify_ntlmv2_key:
  assumes "crypto_ok E"
  obtains r where "verify_ntlmv2 E h auth ch = Some r" and "\<And>k. r = Some k \<Longrightarrow> length k = 16"
proof -
  let ?b = "cr_hmac_md5 E (ntlmv2_hash E h auth) (take 16 (au_nt_response auth))"
  have b: "length ?b = 16" by (rule crypto_okD(4) [OF assms])
  then have "?b \<noteq> []" by auto
  then obtain k where "rc4 ?b (au_enc_session_key auth) = Some k" "length k = length (au_enc_session_key auth)"
    by (simp add: rc4_def)
  with b have "\<exists>r. verify_ntlmv2 E h auth ch = Some r \<and> (\<forall>k. r = Some k \<longrightarrow> length k = 16)"
    by (simp add: verify_ntlmv2_def Let_def)
  then show thesis using that by blast
qed

section \<open>Properties\<close>

definition sample_auth :: "bytes \<Rightarrow> authenticate" where
  "sample_auth p = \<lparr>au_user = str ''bob'', au_domain = [], au_nt_response = p @ replicate 28 0,
     au_enc_session_key = replicate 16 3, au_flags = FLAG_KEY_EXCH\<rparr>"

text \<open>(C21) NTLMv2 verification never panics and accepts exactly the responses of at least 44
  bytes whose first 16 are the HMAC-MD5, under the user's NTLMv2 hash, of the server challenge
  and the rest; the constant-time comparison is an equality test. An accepted response yields
  a 16-byte session key.\<close>

theorem verify_ntlmv2_iff:
  assumes "crypto_ok E"
  shows "\<exists>r. verify_ntlmv2 E h auth ch = Some r \<and>
    (r \<noteq> None \<longleftrightarrow> 44 \<le> length (au_nt_response auth) \<and>
       take 16 (au_nt_response auth) = cr_hmac_md5 E (ntlmv2_hash E h auth) (ch @ drop 16 (au_nt_response auth))) \<and>
    (\<forall>k. r = Some k \<longrightarrow> length k = 16)"
proof -
  let ?nt = "au_nt_response auth"
  let ?e = "cr_hmac_md5 E (ntlmv2_hash E h auth) (ch @ drop 16 ?nt)"
  have l: "length ?e = 16" by (rule crypto_okD(4) [OF assms])
  obtain r where r: "verify_ntlmv2 E h auth ch = Some r" "\<And>k. r = Some k \<Longrightarrow> length k = 16"
    using verify_ntlmv2_key [OF assms] by blast
  show ?thesis
  proof (cases "length ?nt < 44")
    case True
    then show ?thesis by (simp add: verify_ntlmv2_def)
  next
    case False
    then have p: "length (take 16 ?nt) = 16" by simp
    have "ct_diff ?e (take 16 ?nt) = 0 \<longleftrightarrow> ?e = take 16 ?nt"
      using l p by (intro ct_diff_eq) (simp only:)
    then have "r \<noteq> None \<longleftrightarrow> ?e = take 16 ?nt"
      using r(1) False l p by (auto simp: verify_ntlmv2_def Let_def split: if_splits)
    then show ?thesis using False r by auto
  qed
qed

theorem verify_ntlmv2_iff_witness:
  "(\<exists>r. verify_ntlmv2 demo [] (sample_auth (replicate 16 7)) [] = Some r \<and> r \<noteq> None) \<and>
   verify_ntlmv2 demo [] (sample_auth (replicate 16 8)) [] = Some None"
  using verify_ntlmv2_iff [OF crypto_ok_unit, of "[]" "sample_auth (replicate 16 7)" "[]"]
    verify_ntlmv2_iff [OF crypto_ok_unit, of "[]" "sample_auth (replicate 16 8)" "[]"]
  by (auto simp: sample_auth_def demo_ext_def)



end
