(* ===== verification/Handlers_Setup.thy ===== *)
theory Handlers_Setup
  imports Handlers_Set Ntlm
begin

text \<open>
  NEGOTIATE, SESSION\_SETUP and TREE\_CONNECT of \<open>src/src/smb2/handlers.rs\<close>, in the default build:
  the \<open>ntlm\<close> feature on and \<open>kerberos\<close> off, where a Kerberos token is answered NOT\_SUPPORTED.
\<close>

section \<open>NEGOTIATE: the request\<close>

definition parse_negotiate :: "bytes \<Rightarrow> (u16 list \<times> nat \<times> nat \<times> client_neg) option" where
  "parse_negotiate body = do {
     (sz, r) \<leftarrow> rdr_u16 (rdr_new body);
     if sz \<noteq> 36 then None
     else do {
       (count, r) \<leftarrow> rdr_u16 r;
       (secmode, r) \<leftarrow> rdr_u16 r;
       r \<leftarrow> rdr_skip 2 r;
       (caps, r) \<leftarrow> rdr_u32 r;
       (guid, r) \<leftarrow> rdr_take 16 r;
       (ctx_off, r) \<leftarrow> rdr_u32 r;
       (ctx_count, r) \<leftarrow> rdr_u16 r;
       r \<leftarrow> rdr_skip 2 r;
       (dialects, r) \<leftarrow> rdr_many rdr_u16 (min (unat count) 16) r;
       Some (dialects, unat ctx_off, unat ctx_count,
             \<lparr>cn_secmode = secmode, cn_caps = caps, cn_guid = guid\<rparr>) } }"

text \<open>The header of the negotiate context at \<open>off\<close>: type and data length.\<close>

definition ctx_header :: "bytes \<Rightarrow> nat \<Rightarrow> (u16 \<times> nat) option" where
  "ctx_header msg off = do {
     b \<leftarrow> slice_from msg off;
     (t, r) \<leftarrow> rdr_u16 (rdr_new b);
     (l, r) \<leftarrow> rdr_u16 r;
     _ \<leftarrow> rdr_skip 4 r;
     Some (t, unat l) }"

text \<open>Whether one of the next \<open>n\<close> ids is SHA-512; reading past the end ends the search.\<close>

fun has_sha512 :: "nat \<Rightarrow> rdr \<Rightarrow> bool option" where
  "has_sha512 0 r = Some False"
| "has_sha512 (Suc n) r = do { (a, r) \<leftarrow> rdr_u16 r; if a = 1 then Some True else has_sha512 n r }"

definition preauth_ctx :: "bytes \<Rightarrow> nat \<Rightarrow> nat \<Rightarrow> bool option" where
  "preauth_ctx msg off data_len = do {
     b \<leftarrow> slice_get msg (off + 8) (off + 8 + data_len);
     (n, r) \<leftarrow> rdr_u16 (rdr_new b);
     (_, r) \<leftarrow> rdr_u16 r;
     has_sha512 (min (unat n) 8) r }"

definition our_cipher :: "u16 \<Rightarrow> bool" where
  "our_cipher c \<longleftrightarrow> c \<in> {CIPHER_AES128_GCM, CIPHER_AES256_GCM, CIPHER_AES128_CCM, CIPHER_AES256_CCM}"

definition pick_cipher :: "bool \<Rightarrow> u16 list \<Rightarrow> u16" where
  "pick_cipher prefer_aes256 offered =
     (if prefer_aes256
      then (case find (\<lambda>c. c \<in> set offered)
                   [CIPHER_AES256_GCM, CIPHER_AES256_CCM, CIPHER_AES128_GCM, CIPHER_AES128_CCM] of
              None \<Rightarrow> 0 | Some c \<Rightarrow> c)
      else (case offered of [] \<Rightarrow> 0 | c # _ \<Rightarrow> c))"

definition cipher_ctx :: "bool \<Rightarrow> bytes \<Rightarrow> nat \<Rightarrow> nat \<Rightarrow> u16 option" where
  "cipher_ctx prefer_aes256 msg off data_len = do {
     b \<leftarrow> slice_get msg (off + 8) (off + 8 + data_len);
     (n, r) \<leftarrow> rdr_u16 (rdr_new b);
     (ids, r) \<leftarrow> rdr_many rdr_u16 (min (unat n) 8) r;
     Some (pick_cipher prefer_aes256 (filter our_cipher ids)) }"

text \<open>The walk over at most 16 negotiate contexts: whether SHA-512 was offered, and the cipher.\<close>

fun ctx_walk :: "bool \<Rightarrow> bytes \<Rightarrow> nat \<Rightarrow> nat \<Rightarrow> bool \<Rightarrow> u16 \<Rightarrow> bool \<times> u16" where
  "ctx_walk prefer msg 0 off have_preauth cipher = (have_preauth, cipher)"
| "ctx_walk prefer msg (Suc n) off have_preauth cipher =
     (case ctx_header msg off of
        None \<Rightarrow> (have_preauth, cipher)
      | Some (t, data_len) \<Rightarrow>
          ctx_walk prefer msg n ((off + 8 + data_len + 7) div 8 * 8)
            (if t = 1 then preauth_ctx msg off data_len = Some True else have_preauth)
            (if t = 2 then (case cipher_ctx prefer msg off data_len of None \<Rightarrow> cipher | Some c \<Rightarrow> c)
             else cipher))"

section \<open>NEGOTIATE: the response\<close>

definition server_caps :: "srv \<Rightarrow> u16 \<Rightarrow> u32" where
  "server_caps srv dialect =
     (let caps = 4;
          caps = (if dialect \<ge> 0x0300 \<and> c_multichannel (sv_cfg srv) then caps OR 8 else caps)
      in if dialect \<ge> 0x0210 \<and> c_oplocks (sv_cfg srv) then caps OR 2 else caps)"

definition negotiate_fixed :: "'w ext \<Rightarrow> srv \<Rightarrow> u16 \<Rightarrow> 'w st \<Rightarrow> bytes" where
  "negotiate_fixed E srv dialect s =
     le16 65 @ le16 (server_secmode srv) @ le16 dialect @ le16 0 @ sv_guid srv @ le32 (server_caps srv dialect) @
     le32 MAX_TRANSACT @ le32 (pc_max_read (g_pc s)) @ le32 MAX_WRITE @ le64 (filetime_now E (g_w s)) @
     le64 (sv_start_ft srv) @ le16 128 @ le16 (word_of_nat (length spnego_hint)) @ le32 0 @ spnego_hint"

definition negotiate_contexts :: "bytes \<Rightarrow> u16 \<Rightarrow> nat \<Rightarrow> bytes \<Rightarrow> bytes option" where
  "negotiate_contexts salt cipher resp_start tx = do {
     let tx = pad8 tx resp_start;
     let ctx_off = length tx - resp_start;
     let tx = tx @ le16 1 @ le16 38 @ le32 0 @ le16 1 @ le16 32 @ le16 1 @ salt;
     let (tx, count) = (if cipher \<noteq> 0
            then (pad8 tx resp_start @ le16 2 @ le16 4 @ le32 0 @ le16 1 @ le16 cipher, 2 :: u16) else (tx, 1));
     tx \<leftarrow> patch32 tx (resp_start + 64 + 60) (word_of_nat ctx_off);
     copy_at tx (resp_start + 64 + 6) (le16 count) }"

definition negotiate_body :: "'w ext \<Rightarrow> srv \<Rightarrow> u16 \<Rightarrow> u16 \<Rightarrow> nat \<Rightarrow> 'w st \<Rightarrow> 'w st option" where
  "negotiate_body E srv dialect cipher resp_start s = do {
     let s = put (negotiate_fixed E srv dialect s) s;
     let s = s\<lparr>g_pc := (g_pc s)\<lparr>pc_server_caps := server_caps srv dialect\<rparr>\<rparr>;
     if dialect = 0x0311
     then (case os_urandom E 32 (g_w s) of
             (salt, w) \<Rightarrow> do {
               tx \<leftarrow> negotiate_contexts salt cipher resp_start (g_tx s);
               Some (s\<lparr>g_w := w, g_tx := tx\<rparr>) })
     else Some s }"

definition negotiate :: "'w ext \<Rightarrow> srv \<Rightarrow> req_hdr \<Rightarrow> bytes \<Rightarrow> 'w st \<Rightarrow> 'w st option" where
  "negotiate E srv h msg s =
     (if pc_negotiated (g_pc s) then Some (set_close s)
      else (case parse_negotiate (drop 64 msg) of
              None \<Rightarrow> Some (err_r h INVALID_PARAMETER s)
            | Some (dialects, ctx_off, ctx_count, cn) \<Rightarrow>
                (case select_dialect dialects of
                   None \<Rightarrow> Some (err_r h NOT_SUPPORTED s)
                 | Some chosen \<Rightarrow>
                     (case (if chosen = 0x0311
                            then ctx_walk (c_prefer_aes256 (sv_cfg srv)) msg (min ctx_count 16) ctx_off False 0
                            else (True, 0)) of
                        (have_preauth, cipher) \<Rightarrow>
                          if \<not> have_preauth then Some (err_r h INVALID_PARAMETER s)
                          else
                            (let s = s\<lparr>g_pc := (g_pc s)\<lparr>pc_dialect := chosen, pc_cipher := cipher,
                                              pc_negotiated := True, pc_client_neg := Some cn\<rparr>\<rparr>;
                                 start = length (g_tx s)
                             in negotiate_body E srv chosen cipher start
                                  (s\<lparr>g_tx := begin_resp (g_tx s) h SUCCESS False 0 0\<rparr>))))))"

section \<open>SMB1 NEGOTIATE\<close>

abbreviation (input) SMB1_COM_NEGOTIATE :: u8 where "SMB1_COM_NEGOTIATE \<equiv> 0x72"

definition smb1_proto :: bytes where
  "smb1_proto = [0xFF, 0x53, 0x4D, 0x42]"

text \<open>Dialect names are kept as bytes: the code decodes them lossily, to compare them with ASCII
  literals and to log them.\<close>

function smb1_dialect_loop :: "bytes \<Rightarrow> bytes list \<Rightarrow> bytes list option" where
  "smb1_dialect_loop bs out =
     (case bs of
        [] \<Rightarrow> Some out
      | fmt # rst \<Rightarrow>
          if fmt \<noteq> 2 then None
          else (case position (\<lambda>b. b = 0) rst of
                  None \<Rightarrow> None
                | Some e \<Rightarrow>
                    (let out = out @ [take e rst]
                     in if length out > 64 then None else smb1_dialect_loop (drop (e + 1) rst) out)))"
  by pat_completeness auto
termination
  by (relation "measure (\<lambda>(bs, _). length bs)") auto

declare smb1_dialect_loop.simps [simp del]

definition smb1_negotiate_dialects :: "bytes \<Rightarrow> bytes list option" where
  "smb1_negotiate_dialects frame =
     (if length frame < 35 \<or> take 4 frame \<noteq> smb1_proto \<or> frame ! 4 \<noteq> SMB1_COM_NEGOTIATE then None
      else do {
        let bc_off = 33 + 2 * unat (frame ! 32);
        bc \<leftarrow> slice_get frame bc_off (bc_off + 2);
        bs \<leftarrow> slice_from frame (bc_off + 2);
        smb1_dialect_loop (take (unat (u16_le bc)) bs) [] })"

definition smb1_offers_smb2 :: "bytes list \<Rightarrow> bool" where
  "smb1_offers_smb2 ds \<longleftrightarrow> bstr ''SMB 2.002'' \<in> set ds \<or> bstr ''SMB 2.???'' \<in> set ds"

definition smb1_negotiate_refuse :: "bytes \<Rightarrow> bytes \<Rightarrow> bytes option" where
  "smb1_negotiate_refuse req tx = do {
     flags2 \<leftarrow> slice_get req 10 12;
     pid_high \<leftarrow> slice_get req 12 14;
     ids \<leftarrow> slice_get req 24 32;
     Some (tx @ smb1_proto @ [SMB1_COM_NEGOTIATE] @ le32 0 @ [0x80] @ flags2 @ pid_high @ zbytes 8 @ le16 0 @
           ids @ [1] @ le16 0xFFFF @ le16 0) }"

definition wildcard_hdr :: req_hdr where
  "wildcard_hdr = \<lparr>h_credit_charge = 0, h_command = CMD_NEGOTIATE, h_credits = 1, h_flags = 0, h_next = 0,
     h_msg_id = 0, h_tree_id = 0, h_session_id = 0, h_async_id = None\<rparr>"

definition negotiate_resp_smb1_wildcard :: "'w ext \<Rightarrow> srv \<Rightarrow> 'w st \<Rightarrow> 'w st option" where
  "negotiate_resp_smb1_wildcard E srv s =
     negotiate_body E srv 0x02FF 0 (length (g_tx s))
       (s\<lparr>g_tx := begin_resp (g_tx s) wildcard_hdr SUCCESS False 0 0\<rparr>)"

section \<open>SESSION\_SETUP\<close>

abbreviation (input) SESSION_FLAG_IS_GUEST :: u16 where "SESSION_FLAG_IS_GUEST \<equiv> 1"
abbreviation (input) SESSION_FLAG_ENCRYPT_DATA :: u16 where "SESSION_FLAG_ENCRYPT_DATA \<equiv> 4"
abbreviation (input) SESSION_FLAG_BINDING :: u8 where "SESSION_FLAG_BINDING \<equiv> 1"
abbreviation (input) MAX_PENDING_SETUPS :: nat where "MAX_PENDING_SETUPS \<equiv> 4"

definition ss_resp :: "req_hdr \<Rightarrow> u32 \<Rightarrow> u64 \<Rightarrow> u16 \<Rightarrow> bytes \<Rightarrow> 'w st \<Rightarrow> 'w st" where
  "ss_resp h st sid flags blob s =
     s\<lparr>g_tx := begin_resp (g_tx s) h st (cx_related (g_cx s)) 0 sid
        @ le16 9 @ le16 flags @ le16 72 @ le16 (word_of_nat (length blob)) @ blob\<rparr>"

definition set_sid :: "u64 \<Rightarrow> 'w st \<Rightarrow> 'w st" where
  "set_sid sid s = s\<lparr>g_cx := (g_cx s)\<lparr>cx_session_id := sid\<rparr>\<rparr>"

definition put_channel :: "u64 \<Rightarrow> channel \<Rightarrow> 'w st \<Rightarrow> 'w st" where
  "put_channel sid ch s = s\<lparr>g_pc := (g_pc s)\<lparr>pc_channels := hput sid ch (pc_channels (g_pc s))\<rparr>\<rparr>"

definition del_channel :: "u64 \<Rightarrow> 'w st \<Rightarrow> 'w st" where
  "del_channel sid s = s\<lparr>g_pc := (g_pc s)\<lparr>pc_channels := hdel sid (pc_channels (g_pc s))\<rparr>\<rparr>"

definition put_session :: "u64 \<Rightarrow> session \<Rightarrow> 'w st \<Rightarrow> 'w st" where
  "put_session sid ss s = s\<lparr>g_sessions := hset sid ss (g_sessions s)\<rparr>"

definition setup_blob :: "bytes \<Rightarrow> bytes option" where
  "setup_blob msg = do {
     (sz, r) \<leftarrow> rdr_u16 (rdr_new (drop 64 msg));
     if sz \<noteq> 25 then None
     else do {
       r \<leftarrow> rdr_skip (1 + 1 + 4 + 4) r;
       (off, r) \<leftarrow> rdr_u16 r;
       (len, r) \<leftarrow> rdr_u16 r;
       if len = 0 then Some [] else slice_get msg (unat off) (unat off + unat len) } }"

definition parse_ntlm_setup :: "bytes \<Rightarrow> (u8 \<times> u8 \<times> bytes) option" where
  "parse_ntlm_setup msg = do {
     (sz, r) \<leftarrow> rdr_u16 (rdr_new (drop 64 msg));
     if sz \<noteq> 25 then None
     else do {
       (flags, r) \<leftarrow> rdr_u8 r;
       (secmode, r) \<leftarrow> rdr_u8 r;
       r \<leftarrow> rdr_skip (4 + 4) r;
       (off, r) \<leftarrow> rdr_u16 r;
       (len, r) \<leftarrow> rdr_u16 r;
       (_, r) \<leftarrow> rdr_u64 r;
       blob \<leftarrow> (if len = 0 then Some [] else slice_get msg (unat off) (unat off + unat len));
       Some (flags, secmode, blob) } }"

subsection \<open>The challenge leg\<close>

text \<open>Why a binding leg is refused, if it is.\<close>

definition bind_refusal :: "srv \<Rightarrow> req_hdr \<Rightarrow> 'w st \<Rightarrow> u32 option" where
  "bind_refusal srv h s =
     (if \<not> c_multichannel (sv_cfg srv) \<or> pc_dialect (g_pc s) < 0x0300 then Some REQUEST_NOT_ACCEPTED
      else if h_session_id h = 0 \<or>
        \<not> (case reg_get (g_sessions s) (h_session_id h) of
              None \<Rightarrow> False | Some ss \<Rightarrow> ss_established ss \<and> \<not> ss_guest ss)
      then Some USER_SESSION_DELETED
      else if (case hget (pc_channels (g_pc s)) (h_session_id h) of None \<Rightarrow> False | Some c \<Rightarrow> ch_established c)
      then Some REQUEST_NOT_ACCEPTED
      else None)"

definition pending_setups :: "proto_conn \<Rightarrow> nat" where
  "pending_setups pc = length (filter (\<lambda>(_, c). \<not> ch_established c) (pc_channels pc))"

text \<open>The session id of the exchange, with the status of a refusal.\<close>

definition setup_sid ::
  "'w ext \<Rightarrow> srv \<Rightarrow> req_hdr \<Rightarrow> bool \<Rightarrow> 'w st \<Rightarrow> (u32 + u64 \<times> 'w st) option" where
  "setup_sid E srv h binding s =
     (if binding
      then Some (case bind_refusal srv h s of Some st \<Rightarrow> Inl st | None \<Rightarrow> Inr (h_session_id h, s))
      else if pending_setups (g_pc s) \<ge> MAX_PENDING_SETUPS then Some (Inl INSUFFICIENT_RESOURCES)
      else do {
        (sid, m, w) \<leftarrow> reg_create E (g_sessions s) (g_w s);
        Some (Inr (sid, s\<lparr>g_sessions := m, g_w := w\<rparr>)) })"

definition hash_preauth :: "'w ext \<Rightarrow> u16 \<Rightarrow> bytes \<Rightarrow> bytes \<Rightarrow> bytes" where
  "hash_preauth E dialect preauth msg = (if dialect = 0x0311 then cr_sha512 E (preauth @ msg) else preauth)"

definition ntlm_challenge_leg ::
  "'w ext \<Rightarrow> srv \<Rightarrow> req_hdr \<Rightarrow> bytes \<Rightarrow> bool \<Rightarrow> bool \<Rightarrow> 'w st \<Rightarrow> 'w st option" where
  "ntlm_challenge_leg E srv h msg spnego binding s = do {
     r \<leftarrow> setup_sid E srv h binding s;
     Some (case r of
             Inl st \<Rightarrow> err_r h st s
           | Inr (sid, s) \<Rightarrow>
               (let s = set_sid sid s
                in case os_urandom E 8 (g_w s) of
                     (chal, w) \<Rightarrow>
                       (let s = s\<lparr>g_w := w\<rparr>;
                            ch = channel_default\<lparr>
                              ch_pending := Some \<lparr>pa_challenge = chal, pa_spnego = spnego, pa_binding = binding\<rparr>,
                              ch_preauth := hash_preauth E (pc_dialect (g_pc s)) (pc_preauth_neg (g_pc s)) msg\<rparr>;
                            token = challenge (c_server_name (sv_cfg srv)) chal
                        in ss_resp h MORE_PROCESSING_REQUIRED sid 0
                             (if spnego then spnego_wrap_challenge token else token) (put_channel sid ch s)))) }"

subsection \<open>The authenticate leg\<close>

definition can_encrypt :: "proto_conn \<Rightarrow> bool" where
  "can_encrypt pc \<longleftrightarrow> pc_cipher pc \<noteq> 0 \<and> pc_dialect pc = 0x0311"

definition enc_ctx_of :: "'w ext \<Rightarrow> u16 \<Rightarrow> bytes \<Rightarrow> bytes \<Rightarrow> enc_ctx option" where
  "enc_ctx_of E cipher key preauth = do {
     (c2s, s2c) \<leftarrow> smb311_encryption_keys E cipher key preauth;
     Some \<lparr>ec_cipher = cipher, ec_c2s = c2s, ec_s2c = s2c, ec_nonce_ctr = 0\<rparr> }"

text \<open>A channel that has proved its key: signing, and encryption keys when a cipher was
  negotiated. The second component is the session flag to answer with.\<close>

definition keyed_channel ::
  "'w ext \<Rightarrow> srv \<Rightarrow> proto_conn \<Rightarrow> bytes \<Rightarrow> bool \<Rightarrow> channel \<Rightarrow> (channel \<times> u16) option" where
  "keyed_channel E srv pc key signing_req ch = do {
     let ch' = ch\<lparr>ch_established := True, ch_signing_required := signing_req,
                  ch_sign := Some (derive_sign_ctx E (pc_dialect pc) key (ch_preauth ch))\<rparr>;
     if can_encrypt pc
     then do {
       enc \<leftarrow> enc_ctx_of E (pc_cipher pc) key (ch_preauth ch);
       if c_encrypt (sv_cfg srv)
       then Some (ch'\<lparr>ch_enc := Some enc, ch_encrypt := True\<rparr>, SESSION_FLAG_ENCRYPT_DATA)
       else Some (ch'\<lparr>ch_enc := Some enc\<rparr>, 0) }
     else Some (ch', 0) }"

definition named_user :: "authenticate option \<Rightarrow> authenticate option" where
  "named_user auth = (case auth of Some a \<Rightarrow> if is_anonymous a then None else Some a | None \<Rightarrow> None)"

definition bind_ok :: "'w ext \<Rightarrow> srv \<Rightarrow> session \<Rightarrow> authenticate option \<Rightarrow> bytes \<Rightarrow> bool option" where
  "bind_ok E srv ss auth chal =
     (if \<not> ss_established ss \<or> ss_guest ss then Some False
      else (case named_user auth of
              None \<Rightarrow> Some False
            | Some a \<Rightarrow>
                if \<not> eq_ignore_ascii_case (au_user a) (ss_user ss) then Some False
                else (case hget (sv_users srv) (uc_lower E (au_user a)) of
                        None \<Rightarrow> Some False
                      | Some nt \<Rightarrow> map_option (\<lambda>r. r \<noteq> None) (verify_ntlmv2 E nt a chal))))"

definition refuse :: "req_hdr \<Rightarrow> u32 \<Rightarrow> u64 \<Rightarrow> 'w st \<Rightarrow> 'w st" where
  "refuse h st sid s = err_r h st (del_channel sid s)"

text \<open>A bind that is accepted belongs to a session that is not a guest's (\<open>bind_ok\<close>), so the guest
  branches of the code after the check are never taken.\<close>

definition ntlm_bind ::
  "'w ext \<Rightarrow> srv \<Rightarrow> req_hdr \<Rightarrow> u64 \<Rightarrow> bool \<Rightarrow> bytes \<Rightarrow> authenticate option \<Rightarrow> bytes \<Rightarrow> session \<Rightarrow> channel
     \<Rightarrow> 'w st \<Rightarrow> 'w st option" where
  "ntlm_bind E srv h sid signing_req done_blob auth chal ss ch s = do {
     ok \<leftarrow> bind_ok E srv ss auth chal;
     if \<not> ok then Some (refuse h ACCESS_DENIED sid s)
     else if c_encrypt (sv_cfg srv) \<and> \<not> can_encrypt (g_pc s) then Some (refuse h ACCESS_DENIED sid s)
     else do {
       (ch', flags) \<leftarrow> keyed_channel E srv (g_pc s) (ss_key ss) signing_req ch;
       Some (ss_resp h SUCCESS sid flags done_blob
               (put_channel sid ch' (put_session sid (ss\<lparr>ss_channels := ss_channels ss + 1\<rparr>) s))) } }"

datatype verdict = UserV bytes rstr | GuestV | Reject

definition ntlm_verdict :: "'w ext \<Rightarrow> srv \<Rightarrow> authenticate option \<Rightarrow> bytes \<Rightarrow> verdict option" where
  "ntlm_verdict E srv auth chal =
     (case named_user auth of
        Some a \<Rightarrow>
          (case hget (sv_users srv) (uc_lower E (au_user a)) of
             Some nt \<Rightarrow>
               map_option (\<lambda>r. case r of Some key \<Rightarrow> UserV key (au_user a) | None \<Rightarrow> Reject)
                 (verify_ntlmv2 E nt a chal)
           | None \<Rightarrow> Some (if sv_allow_guest srv then GuestV else Reject))
      | None \<Rightarrow> Some (if sv_allow_guest srv then GuestV else Reject))"

definition drop_setup :: "req_hdr \<Rightarrow> u32 \<Rightarrow> u64 \<Rightarrow> 'w st \<Rightarrow> 'w st" where
  "drop_setup h st sid s =
     (let s = del_channel sid s
      in err_r h st (s\<lparr>g_sessions := snd (reg_remove (g_sessions s) sid)\<rparr>))"

definition ntlm_first_auth ::
  "'w ext \<Rightarrow> srv \<Rightarrow> req_hdr \<Rightarrow> u64 \<Rightarrow> bool \<Rightarrow> bytes \<Rightarrow> authenticate option \<Rightarrow> bytes \<Rightarrow> session \<Rightarrow> channel
     \<Rightarrow> 'w st \<Rightarrow> 'w st option" where
  "ntlm_first_auth E srv h sid signing_req done_blob auth chal ss ch s = do {
     v \<leftarrow> ntlm_verdict E srv auth chal;
     (case v of
        UserV key user \<Rightarrow>
          if c_encrypt (sv_cfg srv) \<and> \<not> can_encrypt (g_pc s) then Some (drop_setup h ACCESS_DENIED sid s)
          else do {
            (ch', flags) \<leftarrow> keyed_channel E srv (g_pc s) key signing_req ch;
            Some (ss_resp h SUCCESS sid flags done_blob
                    (put_channel sid ch'
                      (put_session sid (ss\<lparr>ss_key := key, ss_established := True, ss_guest := False,
                         ss_signing_required := signing_req, ss_user := user, ss_channels := 1\<rparr>) s))) }
      | GuestV \<Rightarrow>
          if c_encrypt (sv_cfg srv) then Some (drop_setup h ACCESS_DENIED sid s)
          else Some (ss_resp h SUCCESS sid SESSION_FLAG_IS_GUEST done_blob
                 (put_channel sid (ch\<lparr>ch_established := True\<rparr>)
                   (put_session sid (ss\<lparr>ss_established := True, ss_guest := True, ss_channels := 1\<rparr>) s)))
      | Reject \<Rightarrow> Some (drop_setup h LOGON_FAILURE sid s)) }"

definition ntlm_authenticate_leg ::
  "'w ext \<Rightarrow> srv \<Rightarrow> req_hdr \<Rightarrow> bytes \<Rightarrow> bytes \<Rightarrow> bool \<Rightarrow> bool \<Rightarrow> 'w st \<Rightarrow> 'w st option" where
  "ntlm_authenticate_leg E srv h msg blob spnego signing_req s =
     (let sid = h_session_id h; s = set_sid sid s
      in case hget (pc_channels (g_pc s)) sid of
           None \<Rightarrow> Some (err_r h USER_SESSION_DELETED s)
         | Some ch \<Rightarrow>
             (let ch = ch\<lparr>ch_preauth := hash_preauth E (pc_dialect (g_pc s)) (ch_preauth ch) msg\<rparr>
              in case ch_pending ch of
                   None \<Rightarrow>
                     Some (ss_resp h SUCCESS sid (if ch_sign ch = None then SESSION_FLAG_IS_GUEST else 0) []
                             (put_channel sid ch s))
                 | Some pa \<Rightarrow>
                     (let ch = ch\<lparr>ch_pending := None\<rparr>;
                          s = put_channel sid ch s;
                          done_blob = (if pa_spnego pa \<or> spnego then spnego_accept_completed else []);
                          auth = parse_authenticate blob
                      in case reg_get (g_sessions s) sid of
                           None \<Rightarrow> Some (err_r h USER_SESSION_DELETED s)
                         | Some ss \<Rightarrow>
                             (if pa_binding pa
                              then ntlm_bind E srv h sid signing_req done_blob auth (pa_challenge pa) ss ch s
                              else ntlm_first_auth E srv h sid signing_req done_blob auth (pa_challenge pa) ss ch s))))"

subsection \<open>No token, and the dispatchers\<close>

definition ntlm_other_leg :: "'w ext \<Rightarrow> srv \<Rightarrow> req_hdr \<Rightarrow> 'w st \<Rightarrow> 'w st option" where
  "ntlm_other_leg E srv h s =
     (if sv_allow_guest srv \<and> c_encrypt (sv_cfg srv) then Some (err_r h ACCESS_DENIED s)
      else if sv_allow_guest srv then do {
        (sid, m, w) \<leftarrow> reg_create E (g_sessions s) (g_w s);
        ss \<leftarrow> reg_get m sid;
        let s = s\<lparr>g_sessions := m, g_w := w\<rparr>;
        let s = put_session sid (ss\<lparr>ss_established := True, ss_guest := True, ss_channels := 1\<rparr>) s;
        let s = put_channel sid (channel_default\<lparr>ch_established := True,
                  ch_preauth := pc_preauth_neg (g_pc s)\<rparr>) s;
        Some (ss_resp h SUCCESS sid SESSION_FLAG_IS_GUEST [] (set_sid sid s)) }
      else Some (err_r h LOGON_FAILURE s))"

definition ntlm_session_setup :: "'w ext \<Rightarrow> srv \<Rightarrow> req_hdr \<Rightarrow> bytes \<Rightarrow> 'w st \<Rightarrow> 'w st option" where
  "ntlm_session_setup E srv h msg s =
     (case parse_ntlm_setup msg of
        None \<Rightarrow> Some (err_r h INVALID_PARAMETER s)
      | Some (ss_flags, client_secmode, blob) \<Rightarrow>
          (let spnego = is_spnego blob;
               binding = ss_flags AND SESSION_FLAG_BINDING \<noteq> 0;
               signing_req = signing_required (sv_cfg srv) \<or> client_secmode AND 2 \<noteq> 0
           in case token_classify blob of
                Negotiate \<Rightarrow> ntlm_challenge_leg E srv h msg spnego binding s
              | Authenticate \<Rightarrow> ntlm_authenticate_leg E srv h msg blob spnego signing_req s
              | Other \<Rightarrow> ntlm_other_leg E srv h s))"

definition session_setup :: "'w ext \<Rightarrow> srv \<Rightarrow> req_hdr \<Rightarrow> bytes \<Rightarrow> 'w st \<Rightarrow> 'w st option" where
  "session_setup E srv h msg s =
     (case setup_blob msg of
        None \<Rightarrow> Some (err_r h INVALID_PARAMETER s)
      | Some blob \<Rightarrow>
          (let mech = in_mech (classify blob)
           in if (mech = Ntlmssp \<or> mech = Unknown) \<and> allows_ntlm (c_auth (sv_cfg srv))
              then ntlm_session_setup E srv h msg s
              else Some (err_r h NOT_SUPPORTED s)))"

section \<open>TREE\_CONNECT\<close>

abbreviation (input) MAX_TREES_PER_SESSION :: nat where "MAX_TREES_PER_SESSION \<equiv> 1024"

definition parse_tree_connect :: "bytes \<Rightarrow> rstr option" where
  "parse_tree_connect msg = do {
     (sz, r) \<leftarrow> rdr_u16 (rdr_new (drop 64 msg));
     if sz \<noteq> 9 then None
     else do {
       r \<leftarrow> rdr_skip 2 r;
       (off, r) \<leftarrow> rdr_u16 r;
       (len, r) \<leftarrow> rdr_u16 r;
       map_option from_utf16le (slice_get msg (unat off) (unat off + unat len)) } }"

text \<open>The tree a path asks for and its session may have, or the status of the refusal.\<close>

definition connect_tree :: "srv \<Rightarrow> session \<Rightarrow> rstr \<Rightarrow> (u32 + tree) option" where
  "connect_tree srv ss p =
     (let name = leaf_of p
      in if eq_ignore_ascii_case name (str ''IPC$'')
         then Some (Inr \<lparr>t_share_idx = U32_MAX, t_ipc = True, t_read_only = False\<rparr>)
         else (case position (\<lambda>sh. eq_ignore_ascii_case (sh_name sh) name) (c_shares (sv_cfg srv)) of
                 None \<Rightarrow> Some (Inl BAD_NETWORK_NAME)
               | Some i \<Rightarrow> do {
                   let share_idx = (word_of_nat i :: u32);
                   share \<leftarrow> idx (c_shares (sv_cfg srv)) (unat share_idx);
                   acc \<leftarrow> check (sv_cfg srv) share
                     \<lparr>w_guest = ss_guest ss, w_user = ss_user ss, w_kerberos = ss_kerberos ss, w_pac = ss_pac ss\<rparr>;
                   Some (case acc of
                           Denied \<Rightarrow> Inl ACCESS_DENIED
                         | ReadOnly \<Rightarrow> Inr \<lparr>t_share_idx = share_idx, t_ipc = False, t_read_only = True\<rparr>
                         | ReadWrite \<Rightarrow> Inr \<lparr>t_share_idx = share_idx, t_ipc = False, t_read_only = False\<rparr>) }))"

definition tree_connect_resp :: "tree \<Rightarrow> bytes" where
  "tree_connect_resp t =
     le16 16 @ [if t_ipc t then 2 else 1, 0] @ le32 0 @ le32 0 @
     le32 (if t_ipc t then 0x001F00A9
           else if t_read_only t then MAXIMAL_ACCESS_READ else MAXIMAL_ACCESS_ALL)"

definition tree_connect :: "srv \<Rightarrow> session \<Rightarrow> req_hdr \<Rightarrow> bytes \<Rightarrow> 'w st \<Rightarrow> 'w st option" where
  "tree_connect srv ss h msg s =
     (case parse_tree_connect msg of
        None \<Rightarrow> Some (err_r h INVALID_PARAMETER s)
      | Some p \<Rightarrow> do {
          r \<leftarrow> connect_tree srv ss p;
          Some (case r of
                  Inl st \<Rightarrow> err_r h st s
                | Inr t \<Rightarrow>
                    if length (ss_trees ss) \<ge> MAX_TREES_PER_SESSION then err_r h INSUFFICIENT_RESOURCES s
                    else
                      (let tid = ss_next_tree_id ss + 1;
                           s = set_sess (ss\<lparr>ss_next_tree_id := tid, ss_trees := hput tid t (ss_trees ss)\<rparr>) s;
                           s = s\<lparr>g_cx := (g_cx s)\<lparr>cx_tree_id := tid\<rparr>\<rparr>
                       in put (tree_connect_resp t) (begin_r h SUCCESS s))) })"

end
