(* ===== verification/Dispatch.thy ===== *)
theory Dispatch
  imports Handlers_Setup
begin

text \<open>
  The command dispatcher of \<open>src/src/smb2/handlers.rs\<close> and the frame processing of
  \<open>src/src/smb2/mod.rs\<close>. \<open>None\<close> is a panic or a system call that never returns.
\<close>

section \<open>Dispatch\<close>

text \<open>The effective session and tree of a request in a compound.\<close>

definition resolve_chain :: "req_hdr \<Rightarrow> chain \<Rightarrow> chain" where
  "resolve_chain h c =
     (if h_flags h AND FLAG_RELATED \<noteq> 0
      then c\<lparr>cx_related := True,
             cx_session_id := (if h_session_id h \<noteq> 0 \<and> h_session_id h \<noteq> U64_MAX
                               then h_session_id h else cx_session_id c),
             cx_tree_id := (if h_tree_id h \<noteq> 0 \<and> h_tree_id h \<noteq> U32_MAX then h_tree_id h else cx_tree_id c)\<rparr>
      else c\<lparr>cx_related := False, cx_session_id := h_session_id h, cx_tree_id := h_tree_id h\<rparr>)"

text \<open>Whether a request is refused for how it arrived: in plaintext on an encrypting channel, with
  a bad signature, or unsigned where signing is required.\<close>

definition integrity_refused :: "'w ext \<Rightarrow> req_hdr \<Rightarrow> bytes \<Rightarrow> 'w st \<Rightarrow> bool" where
  "integrity_refused E h msg s =
     (case hget (pc_channels (g_pc s)) (cx_session_id (g_cx s)) of
        None \<Rightarrow> False
      | Some ch \<Rightarrow>
          (let sealed = cx_transform_sid (g_cx s) \<noteq> None
           in if ch_encrypt ch \<and> \<not> sealed \<and> h_command h \<notin> {CMD_NEGOTIATE, CMD_SESSION_SETUP} then True
              else if sealed then False
              else (case ch_sign ch of
                      None \<Rightarrow> False
                    | Some sc \<Rightarrow>
                        if h_flags h AND FLAG_SIGNED \<noteq> 0 then \<not> verify_signature E msg sc
                        else ch_signing_required ch \<and>
                          h_command h \<notin> {CMD_NEGOTIATE, CMD_SESSION_SETUP, CMD_CANCEL})))"

fun disconnect_loop ::
  "'w ext \<Rightarrow> u32 \<Rightarrow> u64 list \<Rightarrow> handle_table \<Rightarrow> 'w st \<Rightarrow> handle_table \<times> 'w st" where
  "disconnect_loop E tid [] t s = (t, s)"
| "disconnect_loop E tid (fid # fids) t s =
     (case ht_remove fid tid t of
        (fo, t) \<Rightarrow>
          (let s = (case fo of None \<Rightarrow> s | Some f \<Rightarrow> close_file E f s)
           in disconnect_loop E tid fids t (notify_cleanup fid s)))"

definition tree_disconnect :: "'w ext \<Rightarrow> session \<Rightarrow> req_hdr \<Rightarrow> 'w st \<Rightarrow> 'w st" where
  "tree_disconnect E ss h s =
     (let tid = cx_tree_id (g_cx s);
          ss = ss\<lparr>ss_trees := hdel tid (ss_trees ss)\<rparr>
      in case disconnect_loop E tid (ids_in_tree (ss_handles ss) tid) (ss_handles ss) s of
           (t, s) \<Rightarrow> simple_resp h (set_sess (ss\<lparr>ss_handles := t\<rparr>) s))"

text \<open>A command on a disk tree.\<close>

definition disk_command ::
  "'w ext \<Rightarrow> srv \<Rightarrow> session \<Rightarrow> tree \<Rightarrow> req_hdr \<Rightarrow> bytes \<Rightarrow> 'w st \<Rightarrow> (zc_plan option \<times> 'w st) option" where
  "disk_command E srv ss tree h msg s = do {
     share \<leftarrow> idx (c_shares (sv_cfg srv)) (unat (t_share_idx tree));
     let body = drop 64 msg;
     let pc = g_pc s;
     let cid = (pc_wid pc, pc_conn_idx pc, pc_conn_gen pc);
     let allow_oplock = \<not> (case hget (pc_channels pc) (h_session_id h) of None \<Rightarrow> False | Some c \<Rightarrow> ch_encrypt c);
     if h_command h = CMD_READ then read E ss h body s
     else map_option (Pair None)
       (if h_command h = CMD_CREATE then create E srv ss h msg share tree cid allow_oplock s
        else if h_command h = CMD_CLOSE then Some (close E ss h body s)
        else if h_command h = CMD_FLUSH then Some (flush E ss h body s)
        else if h_command h = CMD_WRITE then write_handler E ss h msg tree s
        else if h_command h = CMD_QUERY_DIRECTORY then query_directory E ss h msg s
        else if h_command h = CMD_QUERY_INFO then query_info E srv ss h body s
        else if h_command h = CMD_SET_INFO then Some (set_info E ss h msg share (t_read_only tree) s)
        else if h_command h = CMD_IOCTL then ioctl srv h msg s
        else if h_command h = CMD_LOCK then Some (lock E ss h body s)
        else if h_command h = CMD_CHANGE_NOTIFY then Some (change_notify ss h body s)
        else Some (err_r h NOT_SUPPORTED s)) }"

text \<open>A command that needs an established session.\<close>

definition session_command ::
  "'w ext \<Rightarrow> srv \<Rightarrow> req_hdr \<Rightarrow> bytes \<Rightarrow> 'w st \<Rightarrow> (zc_plan option \<times> 'w st) option" where
  "session_command E srv h msg s =
     (let sid = cx_session_id (g_cx s)
      in if \<not> (case hget (pc_channels (g_pc s)) sid of None \<Rightarrow> False | Some c \<Rightarrow> ch_established c)
         then Some (None, err_r h USER_SESSION_DELETED s)
         else (case reg_get (g_sessions s) sid of
                 None \<Rightarrow> Some (None, err_r h USER_SESSION_DELETED s)
               | Some ss \<Rightarrow>
                   if h_command h = CMD_TREE_CONNECT then map_option (Pair None) (tree_connect srv ss h msg s)
                   else (case hget (ss_trees ss) (cx_tree_id (g_cx s)) of
                           None \<Rightarrow> Some (None, err_r h NETWORK_NAME_DELETED s)
                         | Some tree \<Rightarrow>
                             if h_command h = CMD_TREE_DISCONNECT then Some (None, tree_disconnect E ss h s)
                             else if t_ipc tree then
                               map_option (Pair None)
                                 (if h_command h = CMD_IOCTL then ioctl srv h msg s
                                  else Some (err_r h ACCESS_DENIED s))
                             else disk_command E srv ss tree h msg s)))"

text \<open>Everything before the command: replay check, chain, credits, sealed-frame check, integrity.
  \<open>Inl\<close> is a request that ends there; \<open>Inr\<close> the header with its granted credits.\<close>

definition admit :: "'w ext \<Rightarrow> req_hdr \<Rightarrow> bytes \<Rightarrow> 'w st \<Rightarrow> 'w st + req_hdr \<times> 'w st" where
  "admit E h msg s =
     (case (if h_command h = CMD_CANCEL then (True, g_pc s)
            else consume_msg_ids (g_pc s) (h_msg_id h) (h_credit_charge h)) of
        (fresh, pc) \<Rightarrow>
          if \<not> fresh then Inl (set_close (s\<lparr>g_pc := pc\<rparr>))
          else
            (case take_credits pc h of
               (grant, pc) \<Rightarrow>
                 (let s = s\<lparr>g_pc := pc, g_cx := resolve_chain h (g_cx s)\<rparr>;
                      h = h\<lparr>h_credits := grant\<rparr>
                  in if (case cx_transform_sid (g_cx s) of None \<Rightarrow> False | Some t \<Rightarrow> cx_session_id (g_cx s) \<noteq> t)
                     then Inl (set_close s)
                     else if integrity_refused E h msg s then Inl (err_r h ACCESS_DENIED s)
                     else Inr (h, s))))"

definition dispatch ::
  "'w ext \<Rightarrow> srv \<Rightarrow> req_hdr \<Rightarrow> bytes \<Rightarrow> 'w st \<Rightarrow> (zc_plan option \<times> 'w st) option" where
  "dispatch E srv h msg s =
     (case admit E h msg s of
        Inl s \<Rightarrow> Some (None, s)
      | Inr (h, s) \<Rightarrow>
          if h_command h = CMD_NEGOTIATE then map_option (Pair None) (negotiate E srv h msg s)
          else if h_command h = CMD_ECHO then Some (None, simple_resp h s)
          else if h_command h = CMD_CANCEL then Some (None, cancel h s)
          else if h_command h = CMD_SESSION_SETUP then map_option (Pair None) (session_setup E srv h msg s)
          else if h_command h = CMD_LOGOFF then Some (None, logoff E h s)
          else session_command E srv h msg s)"

section \<open>Compounds\<close>

record resp_rec =
  rr_cmd :: u16
  rr_start :: nat
  rr_req_off :: nat
  rr_req_end :: nat
  rr_sess_id :: u64
  rr_sign :: "sign_ctx option"

text \<open>The loop's variables.\<close>

record 'w lp =
  lp_off :: nat
  lp_prev :: "nat option"
  lp_plan :: "zc_plan option"
  lp_recs :: "resp_rec list"
  lp_s :: "'w st"

definition logoff_sign :: "req_hdr \<Rightarrow> 'w st \<Rightarrow> sign_ctx option" where
  "logoff_sign h s =
     (if h_command h = CMD_LOGOFF
      then (let sid = (if h_session_id h \<noteq> 0 \<and> h_session_id h \<noteq> U64_MAX then h_session_id h
                       else cx_session_id (g_cx s))
            in Option.bind (hget (pc_channels (g_pc s)) sid) ch_sign)
      else None)"

text \<open>Aligning a response and linking the previous header to it.\<close>

definition link_prev :: "nat \<Rightarrow> nat option \<Rightarrow> bytes \<Rightarrow> bytes option" where
  "link_prev base prev tx =
     (case prev of
        None \<Rightarrow> Some tx
      | Some p \<Rightarrow> (let tx = pad8 tx (base + 4) in patch32 tx (p + 20) (word_of_nat (length tx - p))))"

text \<open>One member after its header: \<open>Inl\<close> ends the loop, \<open>Inr\<close> goes on to the next member.\<close>

definition compound_member ::
  "'w ext \<Rightarrow> srv \<Rightarrow> bytes \<Rightarrow> nat \<Rightarrow> req_hdr \<Rightarrow> 'w lp \<Rightarrow> ('w lp + 'w lp) option" where
  "compound_member E srv frame base h l =
     (let off = lp_off l;
          s = lp_s l;
          msg_end = (if h_next h > 0 then min (off + unat (h_next h)) (length frame) else length frame)
      in if msg_end < off + HDR_LEN then Some (Inl l)
         else do {
           let msg = take (msg_end - off) (drop off frame);
           tx \<leftarrow> link_prev base (lp_prev l) (g_tx s);
           let s = s\<lparr>g_tx := tx, g_cx := (g_cx s)\<lparr>cx_single := (off = 0 \<and> h_next h = 0)\<rparr>\<rparr>;
           let start = length tx;
           let sgn = logoff_sign h s;
           (z, s) \<leftarrow> dispatch E srv h msg s;
           let l = l\<lparr>lp_s := s, lp_plan := (case z of None \<Rightarrow> lp_plan l | Some _ \<Rightarrow> z)\<rparr>;
           let l = (if length (g_tx s) > start
                    then l\<lparr>lp_prev := Some start, lp_recs := lp_recs l @
                           [\<lparr>rr_cmd = h_command h, rr_start = start, rr_req_off = off, rr_req_end = msg_end,
                             rr_sess_id = cx_session_id (g_cx s), rr_sign = sgn\<rparr>]\<rparr>
                    else l);
           if h_next h = 0 then Some (Inl l)
           else (let off' = off + unat (h_next h)
                 in if off' + HDR_LEN > length frame then Some (Inl (l\<lparr>lp_off := off'\<rparr>))
                    else Some (Inr (l\<lparr>lp_off := off'\<rparr>))) })"

text \<open>The loop over the members; \<open>room\<close> is how many more the frame may carry (\<open>MAX_COMPOUND\<close> less
  the code's \<open>members\<close>).\<close>

fun compound_loop :: "'w ext \<Rightarrow> srv \<Rightarrow> bytes \<Rightarrow> nat \<Rightarrow> nat \<Rightarrow> 'w lp \<Rightarrow> 'w lp option" where
  "compound_loop E srv frame base room l = do {
     b \<leftarrow> slice_from frame (lp_off l);
     (case parse_hdr b of
        None \<Rightarrow> Some l
      | Some h \<Rightarrow>
          (case room of
             0 \<Rightarrow> Some (l\<lparr>lp_s := set_close (lp_s l)\<rparr>)
           | Suc n \<Rightarrow>
               if length (g_tx (lp_s l)) - base > COMPOUND_RESP_CAP then Some (l\<lparr>lp_s := set_close (lp_s l)\<rparr>)
               else do {
                 r \<leftarrow> compound_member E srv frame base h l;
                 (case r of Inl l \<Rightarrow> Some l | Inr l \<Rightarrow> compound_loop E srv frame base n l) })) }"

declare compound_loop.simps [simp del]

section \<open>Post-passes\<close>

definition rec_end :: "resp_rec list \<Rightarrow> bytes \<Rightarrow> nat" where
  "rec_end rs tx = (case rs of [] \<Rightarrow> length tx | r # _ \<Rightarrow> rr_start r)"

definition rec_key :: "proto_conn \<Rightarrow> resp_rec \<Rightarrow> sign_ctx option" where
  "rec_key pc r =
     (case Option.bind (hget (pc_channels pc) (rr_sess_id r)) ch_sign of Some sc \<Rightarrow> Some sc | None \<Rightarrow> rr_sign r)"

fun sign_pass :: "'w ext \<Rightarrow> proto_conn \<Rightarrow> resp_rec list \<Rightarrow> bytes \<Rightarrow> bytes option" where
  "sign_pass E pc [] tx = Some tx"
| "sign_pass E pc (r # rs) tx = do {
     tx \<leftarrow> (case rec_key pc r of
              None \<Rightarrow> Some tx
            | Some sc \<Rightarrow> sign_in_place E tx (rr_start r) (rec_end rs tx) sc);
     sign_pass E pc rs tx }"

definition preauth_step ::
  "'w ext \<Rightarrow> bytes \<Rightarrow> bytes \<Rightarrow> resp_rec \<Rightarrow> nat \<Rightarrow> proto_conn \<Rightarrow> proto_conn option" where
  "preauth_step E frame tx r fin pc =
     (if rr_cmd r = CMD_NEGOTIATE then do {
        req \<leftarrow> slice_get frame (rr_req_off r) (rr_req_end r);
        resp \<leftarrow> slice_get tx (rr_start r) fin;
        Some (pc\<lparr>pc_preauth_neg := cr_sha512 E (cr_sha512 E (zbytes 64 @ req) @ resp)\<rparr>) }
      else if rr_cmd r = CMD_SESSION_SETUP then do {
        st \<leftarrow> slice_get tx (rr_start r + 8) (rr_start r + 12);
        if u32_le st = MORE_PROCESSING_REQUIRED
        then (case hget (pc_channels pc) (rr_sess_id r) of
                None \<Rightarrow> Some pc
              | Some ch \<Rightarrow> do {
                  resp \<leftarrow> slice_get tx (rr_start r) fin;
                  Some (pc\<lparr>pc_channels := hput (rr_sess_id r)
                    (ch\<lparr>ch_preauth := cr_sha512 E (ch_preauth ch @ resp)\<rparr>) (pc_channels pc)\<rparr>) })
        else Some pc }
      else Some pc)"

fun preauth_pass :: "'w ext \<Rightarrow> bytes \<Rightarrow> bytes \<Rightarrow> resp_rec list \<Rightarrow> proto_conn \<Rightarrow> proto_conn option" where
  "preauth_pass E frame tx [] pc = Some pc"
| "preauth_pass E frame tx (r # rs) pc = do {
     pc \<leftarrow> preauth_step E frame tx r (rec_end rs tx) pc;
     preauth_pass E frame tx rs pc }"

section \<open>Frames\<close>

definition chain_new :: "u64 option \<Rightarrow> chain" where
  "chain_new transform_sid = \<lparr>cx_related = False, cx_session_id = 0, cx_tree_id = 0, cx_last_fid = None,
     cx_single = True, cx_transform_sid = transform_sid\<rparr>"

definition truncate_tx :: "nat \<Rightarrow> 'w st \<Rightarrow> 'w st" where
  "truncate_tx base s = s\<lparr>g_tx := take base (g_tx s)\<rparr>"

definition finish_frame :: "nat \<Rightarrow> 'w st \<Rightarrow> 'w st option" where
  "finish_frame base s = do {
     tx \<leftarrow> finish_nbt_with (g_tx s) base (word_of_nat (length (g_tx s) - base - 4));
     Some (s\<lparr>g_tx := tx\<rparr>) }"

text \<open>An SMB1 frame; the buffer already holds the frame prefix at \<open>base\<close>.\<close>

definition process_smb1 ::
  "'w ext \<Rightarrow> srv \<Rightarrow> bytes \<Rightarrow> u64 option \<Rightarrow> nat \<Rightarrow> 'w st \<Rightarrow> (frame_action \<times> 'w st) option" where
  "process_smb1 E srv frame transform_sid base s =
     (if pc_negotiated (g_pc s) \<or> transform_sid \<noteq> None then Some (Close, truncate_tx base s)
      else (case smb1_negotiate_dialects frame of
              None \<Rightarrow> Some (Close, truncate_tx base s)
            | Some ds \<Rightarrow>
                if \<not> smb1_offers_smb2 ds then do {
                  tx \<leftarrow> smb1_negotiate_refuse frame (g_tx s);
                  s \<leftarrow> finish_frame base (s\<lparr>g_tx := tx\<rparr>);
                  Some (RespondClose, s) }
                else do {
                  s \<leftarrow> negotiate_resp_smb1_wildcard E srv s;
                  s \<leftarrow> finish_frame base s;
                  Some (Respond, s) }))"

text \<open>After the loop.\<close>

definition finish_compound ::
  "'w ext \<Rightarrow> bytes \<Rightarrow> bool \<Rightarrow> nat \<Rightarrow> 'w lp \<Rightarrow> (frame_action \<times> 'w st) option" where
  "finish_compound E frame encrypted base l =
     (let s = lp_s l
      in if pc_close (g_pc s)
         then Some (Close, truncate_tx base
                (case lp_plan l of None \<Rightarrow> s | Some p \<Rightarrow> s\<lparr>g_w := os_close E (zc_fd p) (g_w s)\<rparr>))
         else (case lp_plan l of
                 Some p \<Rightarrow> Some (ZcRead p, truncate_tx base s)
               | None \<Rightarrow> do {
                   tx \<leftarrow> (if encrypted then Some (g_tx s) else sign_pass E (g_pc s) (lp_recs l) (g_tx s));
                   pc \<leftarrow> (if pc_dialect (g_pc s) = 0x0311
                          then preauth_pass E frame tx (lp_recs l) (g_pc s) else Some (g_pc s));
                   let s = s\<lparr>g_tx := tx, g_pc := pc\<rparr>;
                   let tot = (word_of_nat (length tx - base - 4) :: u32);
                   s \<leftarrow> (if tot = 0 then Some (truncate_tx base s) else finish_frame base s);
                   Some (Respond, s) }))"

definition process_plain ::
  "'w ext \<Rightarrow> srv \<Rightarrow> bytes \<Rightarrow> u64 option \<Rightarrow> 'w st \<Rightarrow> (frame_action \<times> 'w st) option" where
  "process_plain E srv frame transform_sid s =
     (let base = length (g_tx s);
          s = s\<lparr>g_tx := g_tx s @ zbytes 4, g_cx := chain_new transform_sid\<rparr>
      in if length frame \<ge> 4 \<and> take 4 frame = smb1_proto
         then process_smb1 E srv frame transform_sid base s
         else do {
           l \<leftarrow> compound_loop E srv frame base MAX_COMPOUND
             \<lparr>lp_off = 0, lp_prev = None, lp_plan = None, lp_recs = [], lp_s = s\<rparr>;
           finish_compound E frame (transform_sid \<noteq> None) base l })"

definition set_encrypting :: "u64 \<Rightarrow> proto_conn \<Rightarrow> proto_conn" where
  "set_encrypting sid pc =
     (case hget (pc_channels pc) sid of
        None \<Rightarrow> pc
      | Some c \<Rightarrow> pc\<lparr>pc_channels := hput sid (c\<lparr>ch_encrypt := True\<rparr>) (pc_channels pc)\<rparr>)"

definition save_nonce :: "u64 \<Rightarrow> enc_ctx \<Rightarrow> proto_conn \<Rightarrow> proto_conn" where
  "save_nonce sid enc pc =
     (case hget (pc_channels pc) sid of
        None \<Rightarrow> pc
      | Some c \<Rightarrow>
          (case ch_enc c of
             None \<Rightarrow> pc
           | Some e \<Rightarrow> if ec_s2c e = ec_s2c enc
                       then pc\<lparr>pc_channels := hput sid (c\<lparr>ch_enc := Some enc\<rparr>) (pc_channels pc)\<rparr> else pc))"

text \<open>Sealing the inner response \<open>inner\<close> behind the buffer \<open>out\<close>.\<close>

definition seal_response :: "'w ext \<Rightarrow> u64 \<Rightarrow> enc_ctx \<Rightarrow> bytes \<Rightarrow> 'w st \<Rightarrow> 'w st option" where
  "seal_response E sid enc out s =
     (let inner = g_tx s
      in if length inner \<le> 4 then Some (s\<lparr>g_tx := out\<rparr>)
         else do {
           let enc2 = (case Option.bind (hget (pc_channels (g_pc s)) sid) ch_enc of None \<Rightarrow> enc | Some e \<Rightarrow> e);
           (enc3, tx) \<leftarrow> wrap_transform E (drop 4 inner) enc2 sid out;
           Some (s\<lparr>g_tx := tx, g_pc := save_nonce sid enc3 (g_pc s)\<rparr>) })"

definition process_frame :: "'w ext \<Rightarrow> srv \<Rightarrow> bytes \<Rightarrow> 'w st \<Rightarrow> (frame_action \<times> 'w st) option" where
  "process_frame E srv frame s =
     (if is_transform frame then
        (if length frame < TRANSFORM_HDR_LEN then Some (Close, s)
         else
           (let sid = u64_le (take 8 (drop 44 frame))
            in case Option.bind (hget (pc_channels (g_pc s)) sid) ch_enc of
                 None \<Rightarrow> Some (Close, s)
               | Some enc \<Rightarrow>
                   (case decrypt_transform E frame enc of
                      None \<Rightarrow> Some (Close, s)
                    | Some plain \<Rightarrow> do {
                        let out = g_tx s;
                        (act, s) \<leftarrow> process_plain E srv plain (Some sid)
                          (s\<lparr>g_pc := set_encrypting sid (g_pc s), g_tx := []\<rparr>);
                        (case act of
                           Close \<Rightarrow> Some (Close, s\<lparr>g_tx := out\<rparr>)
                         | RespondClose \<Rightarrow> Some (Close, s\<lparr>g_tx := out\<rparr>)
                         | ZcRead p \<Rightarrow> do {
                             s \<leftarrow> seal_response E sid enc out (s\<lparr>g_w := os_close E (zc_fd p) (g_w s)\<rparr>);
                             Some (Respond, s) }
                         | Respond \<Rightarrow> do { s \<leftarrow> seal_response E sid enc out s; Some (Respond, s) }) })))
      else process_plain E srv frame None s)"

end
