(* ===== verification/Utf8.thy ===== *)
theory Utf8
  imports Strings
begin

text \<open>
  UTF-8 as the standard library reads and writes it: \<open>String::from_utf8_lossy\<close>, used by
  \<open>src/src/uring.rs\<close> for the names inotify reports and by \<open>src/src/health.rs\<close> for a request
  line, and \<open>str::as_bytes\<close>.
\<close>

section \<open>Encoding\<close>

definition utf8_char :: "nat \<Rightarrow> bytes" where
  "utf8_char c =
     (if c < 0x80 then [word_of_nat c]
      else if c < 0x800 then [word_of_nat (0xC0 + c div 64), word_of_nat (0x80 + c mod 64)]
      else if c < 0x10000
      then [word_of_nat (0xE0 + c div 4096), word_of_nat (0x80 + c div 64 mod 64), word_of_nat (0x80 + c mod 64)]
      else [word_of_nat (0xF0 + c div 262144), word_of_nat (0x80 + c div 4096 mod 64),
            word_of_nat (0x80 + c div 64 mod 64), word_of_nat (0x80 + c mod 64)])"

definition as_bytes :: "rstr \<Rightarrow> bytes" where
  "as_bytes s = concat (map utf8_char s)"

definition scalar :: "nat \<Rightarrow> bool" where
  "scalar c \<longleftrightarrow> c < 0xD800 \<or> 0xE000 \<le> c \<and> c < 0x110000"

section \<open>Lossy decoding\<close>

text \<open>The continuation bytes a first byte asks for: how many, the range of the second byte, and the
  payload of the first.\<close>

definition utf8_lead :: "nat \<Rightarrow> (nat \<times> nat \<times> nat \<times> nat) option" where
  "utf8_lead b =
     (if b < 0x80 then Some (0, 0, 0, b)
      else if 0xC2 \<le> b \<and> b \<le> 0xDF then Some (1, 0x80, 0xBF, b - 0xC0)
      else if b = 0xE0 then Some (2, 0xA0, 0xBF, 0)
      else if b = 0xED then Some (2, 0x80, 0x9F, 13)
      else if 0xE1 \<le> b \<and> b \<le> 0xEF then Some (2, 0x80, 0xBF, b - 0xE0)
      else if b = 0xF0 then Some (3, 0x90, 0xBF, 0)
      else if b = 0xF4 then Some (3, 0x80, 0x8F, 4)
      else if 0xF1 \<le> b \<and> b \<le> 0xF3 then Some (3, 0x80, 0xBF, b - 0xF0)
      else None)"

text \<open>Reading \<open>n\<close> continuation bytes, the next one in the given range: the character (\<open>None\<close> when a
  byte is missing or out of range) and what is left.\<close>

fun utf8_more :: "nat \<Rightarrow> nat \<Rightarrow> nat \<Rightarrow> nat \<Rightarrow> bytes \<Rightarrow> nat option \<times> bytes" where
  "utf8_more 0 lo hi acc bs = (Some acc, bs)"
| "utf8_more (Suc n) lo hi acc [] = (None, [])"
| "utf8_more (Suc n) lo hi acc (b # bs) =
     (if lo \<le> unat b \<and> unat b \<le> hi then utf8_more n 0x80 0xBF (acc * 64 + unat b mod 64) bs
      else (None, b # bs))"

lemma utf8_more_length: "length (snd (utf8_more n lo hi acc bs)) \<le> length bs"
  by (induction n lo hi acc bs rule: utf8_more.induct) auto

definition utf8_next :: "u8 \<Rightarrow> bytes \<Rightarrow> nat option \<times> bytes" where
  "utf8_next b bs =
     (case utf8_lead (unat b) of None \<Rightarrow> (None, bs) | Some (n, lo, hi, acc) \<Rightarrow> utf8_more n lo hi acc bs)"

lemma utf8_next_length: "utf8_next b bs = (c, r) \<Longrightarrow> length r \<le> length bs"
  using utf8_more_length by (auto simp: utf8_next_def split: option.splits prod.splits) (metis snd_conv)

function from_utf8_lossy :: "bytes \<Rightarrow> rstr" where
  "from_utf8_lossy [] = []"
| "from_utf8_lossy (b # bs) =
     (case utf8_next b bs of (c, r) \<Rightarrow> (case c of None \<Rightarrow> 0xFFFD | Some c \<Rightarrow> c) # from_utf8_lossy r)"
  by pat_completeness auto
termination
  by (relation "measure length") (auto dest!: sym [of "(_, _)"] utf8_next_length)

section \<open>Facts\<close>

lemma unat_u8: "n < 256 \<Longrightarrow> unat (word_of_nat n :: u8) = n"
  by (simp add: unat_of_nat)

lemma utf8_more_cont:
  assumes "k < 64" and "lo \<le> 0x80 + k" and "0x80 + k \<le> hi"
  shows "utf8_more (Suc n) lo hi acc (word_of_nat (0x80 + k) # bs) = utf8_more n 0x80 0xBF (acc * 64 + k) bs"
proof -
  have "unat (word_of_nat (0x80 + k) :: u8) = 0x80 + k" using assms(1) by (intro unat_u8) simp
  moreover have "(0x80 + k) mod 64 = k" using assms(1) mod_mult_self1 [of k 2 64] by (simp add: add.commute)
  ultimately show ?thesis using assms(2,3) by (simp del: of_nat_add)
qed

lemma utf8_next_lead:
  assumes "b < 256" and "utf8_lead b = Some (n, lo, hi, acc)"
  shows "utf8_next (word_of_nat b) bs = utf8_more n lo hi acc bs"
  unfolding utf8_next_def unat_u8 [OF assms(1)] using assms(2) by simp

text \<open>The digits of a code point in base 64.\<close>

lemma base64_digits:
  fixes c :: nat
  obtains q2 q1 d1 d0 where "c div 64 = q1" "c mod 64 = d0" "c div 4096 = q2" "c div 64 mod 64 = d1"
    "c = 64 * q1 + d0" "q1 = 64 * q2 + d1" "d0 < 64" "d1 < 64"
proof (rule that [of "c div 64" "c mod 64" "c div 4096" "c div 64 mod 64"])
  show "c = 64 * (c div 64) + c mod 64" by simp
  have "c div 4096 = c div 64 div 64" by (simp flip: div_mult2_eq)
  then show "c div 64 = 64 * (c div 4096) + c div 64 mod 64" by simp
qed simp_all

lemma utf8_next_2:
  assumes "c = 64 * q + d" "d < 64" "2 \<le> q" "q < 32"
  shows "utf8_next (word_of_nat (0xC0 + q)) (word_of_nat (0x80 + d) # bs) = (Some c, bs)"
proof -
  have "utf8_next (word_of_nat (0xC0 + q)) (word_of_nat (0x80 + d) # bs) =
      utf8_more (Suc 0) 0x80 0xBF q (word_of_nat (0x80 + d) # bs)"
    using assms by (intro utf8_next_lead) (simp_all add: utf8_lead_def)
  also have "\<dots> = (Some c, bs)" using assms by (subst utf8_more_cont) simp_all
  finally show ?thesis .
qed

lemma utf8_next_3:
  assumes "c = 64 * q + d0" "q = 64 * a + d1" "d0 < 64" "d1 < 64" "a < 16" "a = 0 \<Longrightarrow> 32 \<le> d1" "a = 13 \<Longrightarrow> d1 < 32"
  shows "utf8_next (word_of_nat (0xE0 + a)) (word_of_nat (0x80 + d1) # word_of_nat (0x80 + d0) # bs) = (Some c, bs)"
proof -
  have "utf8_next (word_of_nat (0xE0 + a)) (word_of_nat (0x80 + d1) # word_of_nat (0x80 + d0) # bs) =
      utf8_more (Suc (Suc 0)) (if a = 0 then 0xA0 else 0x80) (if a = 13 then 0x9F else 0xBF) a
        (word_of_nat (0x80 + d1) # word_of_nat (0x80 + d0) # bs)"
    using assms by (intro utf8_next_lead) (auto simp: utf8_lead_def)
  also have "\<dots> = utf8_more (Suc 0) 0x80 0xBF (a * 64 + d1) (word_of_nat (0x80 + d0) # bs)"
    using assms by (intro utf8_more_cont) auto
  also have "\<dots> = (Some c, bs)" using assms by (subst utf8_more_cont) simp_all
  finally show ?thesis .
qed

lemma utf8_next_4:
  assumes "c = 64 * q + d0" "q = 64 * r + d1" "r = 64 * a + d2" "d0 < 64" "d1 < 64" "d2 < 64" "a \<le> 4"
    "a = 0 \<Longrightarrow> 16 \<le> d2" "a = 4 \<Longrightarrow> d2 < 16"
  shows "utf8_next (word_of_nat (0xF0 + a))
    (word_of_nat (0x80 + d2) # word_of_nat (0x80 + d1) # word_of_nat (0x80 + d0) # bs) = (Some c, bs)"
proof -
  let ?t = "word_of_nat (0x80 + d1) # word_of_nat (0x80 + d0) # bs"
  have "utf8_next (word_of_nat (0xF0 + a)) (word_of_nat (0x80 + d2) # ?t) =
      utf8_more (Suc (Suc (Suc 0))) (if a = 0 then 0x90 else 0x80) (if a = 4 then 0x8F else 0xBF) a
        (word_of_nat (0x80 + d2) # ?t)"
    using assms by (intro utf8_next_lead) (auto simp: utf8_lead_def)
  also have "\<dots> = utf8_more (Suc (Suc 0)) 0x80 0xBF (a * 64 + d2) ?t"
    using assms by (intro utf8_more_cont) auto
  also have "\<dots> = utf8_more (Suc 0) 0x80 0xBF ((a * 64 + d2) * 64 + d1) (word_of_nat (0x80 + d0) # bs)"
    using assms by (intro utf8_more_cont) auto
  also have "\<dots> = (Some c, bs)" using assms by (subst utf8_more_cont) simp_all
  finally show ?thesis .
qed

lemma utf8_next_char:
  assumes "scalar c"
  shows "\<exists>b t. utf8_char c = b # t \<and> utf8_next b (t @ bs) = (Some c, bs)"
proof -
  obtain q2 q1 d1 d0 where d: "c div 64 = q1" "c mod 64 = d0" "c div 4096 = q2" "c div 64 mod 64 = d1"
      "c = 64 * q1 + d0" "q1 = 64 * q2 + d1" "d0 < 64" "d1 < 64"
    by (rule base64_digits)
  define a d2 where "a = c div 262144" and "d2 = c div 4096 mod 64"
  have "c div 262144 = c div 4096 div 64" by (simp flip: div_mult2_eq)
  then have a: "q2 = 64 * a + d2" "d2 < 64" by (simp_all add: a_def d2_def d(3))
  have sc: "c < 55296 \<or> 57344 \<le> c" "c < 1114112" using assms by (auto simp: scalar_def)
  consider "c < 0x80" | "0x80 \<le> c" "c < 0x800" | "0x800 \<le> c" "c < 0x10000" | "0x10000 \<le> c" by linarith
  then show ?thesis
  proof cases
    case 1
    then show ?thesis by (simp add: utf8_char_def utf8_lead_def utf8_next_lead)
  next
    case 2
    then have "2 \<le> q1" "q1 < 32" using d(5,7) by linarith+
    then show ?thesis using 2 utf8_next_2 [OF d(5,7)] by (simp add: utf8_char_def d(1,2) del: of_nat_add)
  next
    case 3
    then have "q2 < 16" "q2 = 0 \<Longrightarrow> 32 \<le> d1" "q2 = 13 \<Longrightarrow> d1 < 32" using d(5-8) sc by linarith+
    then show ?thesis using 3 utf8_next_3 [OF d(5-8)] by (simp add: utf8_char_def d(2,3) d(4) del: of_nat_add)
  next
    case 4
    then have "a \<le> 4" "a = 0 \<Longrightarrow> 16 \<le> d2" "a = 4 \<Longrightarrow> d2 < 16" using d(5-8) a sc by linarith+
    then show ?thesis using 4 utf8_next_4 [OF d(5,6) a(1) d(7,8) a(2)]
      by (simp add: utf8_char_def d(2) d(4) a_def [symmetric] d2_def [symmetric] del: of_nat_add)
  qed
qed

lemma from_utf8_lossy_as_bytes: "list_all scalar s \<Longrightarrow> from_utf8_lossy (as_bytes s) = s"
proof (induction s)
  case (Cons c s)
  obtain b t where "utf8_char c = b # t" "utf8_next b (t @ as_bytes s) = (Some c, as_bytes s)"
    using utf8_next_char Cons.prems by fastforce
  then show ?case using Cons by (simp add: as_bytes_def)
qed (simp add: as_bytes_def)

end
