(* ===== verification/Uring.thy ===== *)
theory Uring
  imports Dispatch Utf8
begin

text \<open>
  The io_uring reactor of \<open>src/src/uring.rs\<close>: one worker, its connections and the ring. The
  ring is the list of entries pushed to it whose completion has not been handled yet; what the
  kernel does with them is a step of the system in \<open>Reactor\<close>. Buffer addresses in an entry are
  offsets into the owning connection's \<open>rx\<close>, \<open>tx\<close> or \<open>ibuf\<close>. \<open>None\<close> is a panic.
\<close>

section \<open>Constants\<close>

abbreviation (input) OP_ACCEPT :: u8 where "OP_ACCEPT \<equiv> 1"
abbreviation (input) OP_RECV :: u8 where "OP_RECV \<equiv> 2"
abbreviation (input) OP_SEND :: u8 where "OP_SEND \<equiv> 3"
abbreviation (input) OP_SPLICE_IN :: u8 where "OP_SPLICE_IN \<equiv> 4"
abbreviation (input) OP_SPLICE_OUT :: u8 where "OP_SPLICE_OUT \<equiv> 5"
abbreviation (input) OP_INOTIFY :: u8 where "OP_INOTIFY \<equiv> 6"
abbreviation (input) OP_CANCEL :: u8 where "OP_CANCEL \<equiv> 7"
abbreviation (input) OP_WAKE :: u8 where "OP_WAKE \<equiv> 8"

definition RX_INITIAL :: nat where "RX_INITIAL = 68 * 1024"
definition RX_MIN_ROOM :: nat where "RX_MIN_ROOM = 16 * 1024"
definition MAX_FRAME :: nat where "MAX_FRAME = 4194304 + 0x11000"
definition PREAUTH_MAX_FRAME :: nat where "PREAUTH_MAX_FRAME = 128 * 1024"
definition TX_FLUSH :: nat where "TX_FLUSH = 2 ^ 20"
definition ZC_SEND_MIN :: nat where "ZC_SEND_MIN = 64 * 1024"
definition MAX_CONN_SLOTS :: nat where "MAX_CONN_SLOTS = 0xFFFFFF"

abbreviation (input) CQE_F_MORE :: u32 where "CQE_F_MORE \<equiv> 2"
abbreviation (input) CQE_F_NOTIF :: u32 where "CQE_F_NOTIF \<equiv> 8"

text \<open>Negated error numbers a completion reports.\<close>

abbreviation (input) R_EINTR :: int where "R_EINTR \<equiv> -4"
abbreviation (input) R_EAGAIN :: int where "R_EAGAIN \<equiv> -11"
abbreviation (input) R_ENOMEM :: int where "R_ENOMEM \<equiv> -12"
abbreviation (input) R_ENOBUFS :: int where "R_ENOBUFS \<equiv> -105"

section \<open>Packing of the user data\<close>

definition ud :: "u8 \<Rightarrow> nat \<Rightarrow> u16 \<Rightarrow> u16 \<Rightarrow> u64" where
  "ud op i gen slot =
     (push_bit 56 (ucast op) OR push_bit 32 (word_of_nat i AND 0xFFFFFF)) OR
     (push_bit 16 (ucast gen) OR ucast slot)"

definition ud_parts :: "u64 \<Rightarrow> u8 \<times> nat \<times> u16 \<times> u16" where
  "ud_parts v =
     (ucast (drop_bit 56 v), unat (drop_bit 32 v AND 0xFFFFFF), ucast (drop_bit 16 v), ucast (v AND 0xFFFF))"

section \<open>The system calls of the reactor\<close>

text \<open>Calls whose outcome the kernel decides, in the style of \<open>ext\<close>: creating a pipe and sizing it,
  the inotify calls, \<open>shutdown\<close>, a blocking \<open>read\<close> of a pipe and \<open>TCP_NODELAY\<close>. Negative results
  are errors.\<close>

record 'w kern =
  os_pipe2 :: "'w \<Rightarrow> (fd \<times> fd) option \<times> 'w"
  os_pipe_size :: "fd \<Rightarrow> u32 \<Rightarrow> 'w \<Rightarrow> int \<times> 'w"
  os_inotify_init :: "'w \<Rightarrow> fd \<times> 'w"
  os_inotify_add :: "fd \<Rightarrow> path \<Rightarrow> 'w \<Rightarrow> int \<times> 'w"
  os_inotify_rm :: "fd \<Rightarrow> int \<Rightarrow> 'w \<Rightarrow> 'w"
  os_shutdown :: "fd \<Rightarrow> 'w \<Rightarrow> 'w"
  os_pipe_read :: "fd \<Rightarrow> nat \<Rightarrow> 'w \<Rightarrow> int \<times> 'w"
  os_nodelay :: "fd \<Rightarrow> 'w \<Rightarrow> 'w"

definition probe_pipe_size :: "'w ext \<Rightarrow> 'w kern \<Rightarrow> u32 \<Rightarrow> 'w \<Rightarrow> u32 \<times> 'w" where
  "probe_pipe_size E K want w =
     (case os_pipe2 K w of
        (None, w) \<Rightarrow> (65536, w)
      | (Some (r, wr), w) \<Rightarrow>
          (case os_pipe_size K r want w of
             (got, w) \<Rightarrow>
               (let w = os_close E wr (os_close E r w)
                in if got \<le> 0 then (65536, w) else (min (word_of_int got) want, w))))"

section \<open>State\<close>

datatype txm = Idle | Send | Drain | ZcIn | ZcHdr | ZcOut

record zc =
  z_plan :: zc_plan
  z_want :: u32
  z_got :: u32
  z_out_left :: u32
  z_linked :: bool
  z_chain :: u8
  z_err :: bool

record watch =
  wt_wd :: int
  wt_pend :: notify_pend

record conn =
  c_fd :: fd
  c_gen :: u16
  c_proto :: proto_conn
  c_rx :: bytes
  c_rx_off :: nat
  c_rx_len :: nat
  c_recv_inflight :: bool
  c_tx :: bytes
  c_tx_off :: nat
  c_txm :: txm
  c_pending_zc :: "zc_plan option"
  c_pipe :: "(fd \<times> fd) option"
  c_pipe_cap :: u32
  c_zc :: "zc option"
  c_inotify_fd :: "fd option"
  c_ibuf :: bytes
  c_watches :: "watch list"
  c_deferred :: "bytes list"
  c_inflight :: nat
  c_notif_pending :: nat
  c_send_is_zc :: bool
  c_copy_next :: bool
  c_close_after_send :: bool
  c_closing :: bool
  c_inotify_cancelled :: bool

text \<open>Submission entries: the operation, \<open>IO_LINK\<close>, and the user data. \<open>UNotif\<close> is never submitted: it
  is what is left of a zero-copy send between its result and its buffer-release notification.\<close>

datatype uop =
    UAccept fd | UAcceptMulti fd | URecv fd nat nat | USend fd nat nat bool | USendZc fd nat nat
  | USpliceIn fd u64 fd u32 | USpliceOut fd fd u32 | UReadInotify fd nat | UReadWake fd | UCancel u64 | UNotif

record sqe =
  q_op :: uop
  q_link :: bool
  q_ud :: u64

text \<open>A worker. The first four fields are the server state all workers share (\<open>Srv\<close>) and the
  outside world; \<open>k_free\<close> has the top of the \<open>Vec\<close> first.\<close>

record 'w wk =
  k_sessions :: registry
  k_mail :: "mailbox list"
  k_leases :: lease_table
  k_w :: 'w
  k_wid :: nat
  k_listen :: fd
  k_conns :: "conn option list"
  k_gens :: "u16 list"
  k_free :: "nat list"
  k_seed :: u64
  k_zc_ok :: bool
  k_ring :: "sqe list"

section \<open>The ring\<close>

definition conn_mut :: "nat \<Rightarrow> 'w wk \<Rightarrow> conn option" where
  "conn_mut i k = do { slot \<leftarrow> idx (k_conns k) i; slot }"

definition set_conn :: "nat \<Rightarrow> conn \<Rightarrow> 'w wk \<Rightarrow> 'w wk" where
  "set_conn i c k = k\<lparr>k_conns := (k_conns k)[i := Some c]\<rparr>"

definition sq_push :: "sqe \<Rightarrow> 'w wk \<Rightarrow> 'w wk" where
  "sq_push e k = k\<lparr>k_ring := k_ring k @ [e]\<rparr>"

definition sq_push_conn :: "nat \<Rightarrow> sqe \<Rightarrow> 'w wk \<Rightarrow> 'w wk option" where
  "sq_push_conn i e k = do {
     c \<leftarrow> conn_mut i k;
     Some (sq_push e (set_conn i (c\<lparr>c_inflight := c_inflight c + 1\<rparr>) k)) }"

definition arm_accept :: "'w wk \<Rightarrow> 'w wk" where
  "arm_accept k =
     sq_push \<lparr>q_op = (if k_zc_ok k then UAcceptMulti (k_listen k) else UAccept (k_listen k)), q_link = False,
              q_ud = ud OP_ACCEPT 0 0 0\<rparr> k"

definition arm_wake :: "'w wk \<Rightarrow> 'w wk option" where
  "arm_wake k = do {
     mb \<leftarrow> idx (k_mail k) (k_wid k);
     if mb_efd mb < 0 then Some k
     else Some (sq_push \<lparr>q_op = UReadWake (mb_efd mb), q_link = False, q_ud = ud OP_WAKE 0 0 0\<rparr> k) }"

section \<open>Closing a connection\<close>

text \<open>\<open>Drop for Conn\<close>.\<close>

definition drop_conn :: "'w ext \<Rightarrow> conn \<Rightarrow> 'w \<Rightarrow> 'w" where
  "drop_conn E c w =
     (let w = os_close E (c_fd c) w;
          w = (case c_pipe c of None \<Rightarrow> w | Some (r, wr) \<Rightarrow> os_close E wr (os_close E r w));
          w = (case c_inotify_fd c of None \<Rightarrow> w | Some fd \<Rightarrow> os_close E fd w);
          w = (case c_zc c of None \<Rightarrow> w | Some z \<Rightarrow> os_close E (zc_fd (z_plan z)) w)
      in case c_pending_zc c of None \<Rightarrow> w | Some p \<Rightarrow> os_close E (zc_fd p) w)"

text \<open>The protocol layer's view of a connection, and back.\<close>

definition st_of :: "conn \<Rightarrow> 'w wk \<Rightarrow> 'w st" where
  "st_of c k = \<lparr>g_sessions = k_sessions k, g_mail = k_mail k, g_leases = k_leases k, g_w = k_w k,
     g_pc = c_proto c, g_cx = chain_new None, g_tx = c_tx c\<rparr>"

definition put_shared :: "'w st \<Rightarrow> 'w wk \<Rightarrow> 'w wk" where
  "put_shared s k = k\<lparr>k_sessions := g_sessions s, k_mail := g_mail s, k_leases := g_leases s, k_w := g_w s\<rparr>"

definition finalize_close :: "'w ext \<Rightarrow> nat \<Rightarrow> 'w wk \<Rightarrow> 'w wk option" where
  "finalize_close E i k = do {
     slot \<leftarrow> idx (k_conns k) i;
     (case slot of
        None \<Rightarrow> Some k
      | Some c \<Rightarrow> do {
          let k = k\<lparr>k_conns := (k_conns k)[i := None]\<rparr>;
          let k = put_shared (teardown_conn E (st_of c k)) k;
          let k = k\<lparr>k_w := drop_conn E c (k_w k)\<rparr>;
          gen \<leftarrow> idx (k_gens k) i;
          let k = k\<lparr>k_leases := release_conn (k_wid k) i gen (k_leases k)\<rparr>;
          Some (k\<lparr>k_gens := (k_gens k)[i := max (gen + 1) 1], k_free := i # k_free k\<rparr>) }) }"

definition close_conn_ring :: "'w ext \<Rightarrow> 'w kern \<Rightarrow> nat \<Rightarrow> 'w wk \<Rightarrow> 'w wk option" where
  "close_conn_ring E K i k = do {
     slot \<leftarrow> idx (k_conns k) i;
     (case slot of
        None \<Rightarrow> Some k
      | Some c \<Rightarrow> do {
          let c = c\<lparr>c_closing := True\<rparr>;
          let cancel = c_inotify_fd c \<noteq> None \<and> \<not> c_inotify_cancelled c;
          let c = (if cancel then c\<lparr>c_inotify_cancelled := True\<rparr> else c);
          let k = set_conn i c k;
          let k = (if cancel
                   then sq_push \<lparr>q_op = UCancel (ud OP_INOTIFY i (c_gen c) 0), q_link = False,
                                 q_ud = ud OP_CANCEL 0xFFFFFF 0 0\<rparr> k
                   else k);
          if c_inflight c = 0 then finalize_close E i k
          else Some (k\<lparr>k_w := os_shutdown K (c_fd c) (k_w k)\<rparr>) }) }"

section \<open>Receiving\<close>

text \<open>The size of the frame at \<open>rx_off\<close>: \<open>Inl\<close> is a stream that must be dropped, \<open>Inr None\<close> a header
  that has not arrived.\<close>

definition frame_total :: "conn \<Rightarrow> (unit + nat option) option" where
  "frame_total c = do {
     let avail = c_rx_len c - c_rx_off c;
     if avail < 4 then Some (Inr None)
     else do {
       b \<leftarrow> slice_get (c_rx c) (c_rx_off c) (c_rx_len c);
       if b ! 0 \<noteq> 0 then Some (Inl ())
       else do {
         let flen = unat (b ! 1) * 65536 + unat (b ! 2) * 256 + unat (b ! 3);
         let cap = (if \<exists>(_, ch) \<in> set (pc_channels (c_proto c)). ch_established ch then MAX_FRAME
                    else PREAUTH_MAX_FRAME);
         if flen > cap then Some (Inl ()) else Some (Inr (Some (4 + flen))) } } }"

text \<open>\<open>copy_within\<close> to the front, and \<open>Vec::resize\<close> with zeros.\<close>

definition compact :: "conn \<Rightarrow> conn" where
  "compact c =
     (if c_rx_off c > 0
      then (let live = take (c_rx_len c - c_rx_off c) (drop (c_rx_off c) (c_rx c))
            in c\<lparr>c_rx := live @ drop (length live) (c_rx c), c_rx_len := c_rx_len c - c_rx_off c, c_rx_off := 0\<rparr>)
      else c)"

definition rx_resize :: "nat \<Rightarrow> conn \<Rightarrow> conn" where
  "rx_resize n c = c\<lparr>c_rx := take n (c_rx c) @ zbytes (n - length (c_rx c))\<rparr>"

definition maybe_arm_recv :: "'w ext \<Rightarrow> 'w kern \<Rightarrow> nat \<Rightarrow> 'w wk \<Rightarrow> 'w wk option" where
  "maybe_arm_recv E K i k = do {
     c \<leftarrow> conn_mut i k;
     if c_recv_inflight c \<or> c_closing c \<or> c_close_after_send c then Some k
     else do {
       let c = compact c;
       t \<leftarrow> frame_total c;
       (case t of
          Inl _ \<Rightarrow> close_conn_ring E K i (set_conn i c k)
        | Inr tot \<Rightarrow> do {
            let needed = (case tot of None \<Rightarrow> c_rx_len c + RX_MIN_ROOM
                                    | Some t \<Rightarrow> max t (c_rx_len c + RX_MIN_ROOM));
            let c = (if length (c_rx c) < needed then rx_resize (min needed (MAX_FRAME + 4 + RX_MIN_ROOM)) c else c);
            buf \<leftarrow> slice_from (c_rx c) (c_rx_len c);
            if buf = [] then Some (set_conn i c k)
            else sq_push_conn i \<lparr>q_op = URecv (c_fd c) (c_rx_len c) (length buf), q_link = False,
                                 q_ud = ud OP_RECV i (c_gen c) 0\<rparr>
                   (set_conn i (c\<lparr>c_recv_inflight := True\<rparr>) k) }) } }"

section \<open>Change notification\<close>

text \<open>These functions work on one connection, the world and the ring.\<close>

type_synonym 'w cwr = "conn \<times> 'w \<times> sqe list"

definition arm_inotify :: "nat \<Rightarrow> 'w cwr \<Rightarrow> 'w cwr option" where
  "arm_inotify i = (\<lambda>(c, w, q).
     if c_closing c then Some (c, w, q)
     else do {
       ifd \<leftarrow> c_inotify_fd c;
       Some (c\<lparr>c_inflight := c_inflight c + 1\<rparr>, w,
             q @ [\<lparr>q_op = UReadInotify ifd (length (c_ibuf c)), q_link = False,
                    q_ud = ud OP_INOTIFY i (c_gen c) 0\<rparr>]) })"

definition complete_notify ::
  "'w ext \<Rightarrow> notify_pend \<Rightarrow> u32 \<Rightarrow> (u32 \<times> rstr) list \<Rightarrow> conn \<Rightarrow> conn option" where
  "complete_notify E pend st events c = do {
     (pc, resp) \<leftarrow> build_notify_final E (c_proto c) (np_meta pend) st events (np_out_len pend);
     Some (c\<lparr>c_deferred := c_deferred c @ [resp],
             c_proto := pc\<lparr>pc_notify_active := filter (\<lambda>(_, a). a \<noteq> np_async_id pend) (pc_notify_active pc)\<rparr>\<rparr>) }"

definition inotify_ready :: "'w kern \<Rightarrow> nat \<Rightarrow> 'w cwr \<Rightarrow> (bool \<times> 'w cwr) option" where
  "inotify_ready K i = (\<lambda>(c, w, q).
     case c_inotify_fd c of
       Some _ \<Rightarrow> Some (True, c, w, q)
     | None \<Rightarrow>
         (case os_inotify_init K w of
            (ifd, w) \<Rightarrow>
              if ifd < 0 then Some (False, c, w, q)
              else map_option (Pair True)
                     (arm_inotify i (c\<lparr>c_inotify_fd := Some ifd, c_ibuf := zbytes 4096\<rparr>, w, q))))"

definition notify_watch :: "'w ext \<Rightarrow> 'w kern \<Rightarrow> nat \<Rightarrow> notify_pend \<Rightarrow> 'w cwr \<Rightarrow> 'w cwr option" where
  "notify_watch E K i pend s = do {
     (ok, c, w, q) \<leftarrow> inotify_ready K i s;
     if \<not> ok then do {
       c \<leftarrow> complete_notify E pend INSUFFICIENT_RESOURCES [] c;
       Some (c, w, q) }
     else do {
       ifd \<leftarrow> c_inotify_fd c;
       (case (case cpath (np_path pend) of Inr p \<Rightarrow> os_inotify_add K ifd p w | Inl _ \<Rightarrow> (-1, w)) of
          (wd, w) \<Rightarrow>
            if wd < 0 then do {
              c \<leftarrow> complete_notify E pend INSUFFICIENT_RESOURCES [] c;
              Some (c, w, q) }
            else Some (c\<lparr>c_watches := c_watches c @ [\<lparr>wt_wd = wd, wt_pend = pend\<rparr>]\<rparr>, w, q)) } }"

definition notify_finish :: "'w ext \<Rightarrow> 'w kern \<Rightarrow> notify_done \<Rightarrow> 'w cwr \<Rightarrow> 'w cwr option" where
  "notify_finish E K d = (\<lambda>(c, w, q).
     case position (\<lambda>x. np_async_id (wt_pend x) = nd_async_id d) (c_watches c) of
       None \<Rightarrow> Some (c, w, q)
     | Some pos \<Rightarrow> do {
         let x = c_watches c ! pos;
         let ws = take pos (c_watches c) @ drop (pos + 1) (c_watches c);
         let w = (if \<exists>y \<in> set ws. wt_wd y = wt_wd x then w
                  else (case c_inotify_fd c of None \<Rightarrow> w | Some ifd \<Rightarrow> os_inotify_rm K ifd (wt_wd x) w));
         (pc, resp) \<leftarrow> build_notify_final E (c_proto c) (np_meta (wt_pend x)) (nd_status d) []
                         (np_out_len (wt_pend x));
         Some (c\<lparr>c_watches := ws, c_proto := pc, c_deferred := c_deferred c @ [resp]\<rparr>, w, q) })"

fun each :: "('a \<Rightarrow> 's \<Rightarrow> 's option) \<Rightarrow> 'a list \<Rightarrow> 's \<Rightarrow> 's option" where
  "each f [] s = Some s"
| "each f (x # xs) s = do { s \<leftarrow> f x s; each f xs s }"

definition service_notify :: "'w ext \<Rightarrow> 'w kern \<Rightarrow> nat \<Rightarrow> 'w cwr \<Rightarrow> 'w cwr option" where
  "service_notify E K i = (\<lambda>(c, w, q). do {
     let new = pc_notify_new (c_proto c);
     let fin = pc_notify_done (c_proto c);
     let c = c\<lparr>c_proto := (c_proto c)\<lparr>pc_notify_new := [], pc_notify_done := []\<rparr>\<rparr>;
     s \<leftarrow> each (notify_watch E K i) new (c, w, q);
     each (notify_finish E K) fin s })"

subsection \<open>Events\<close>

abbreviation (input) IN_CREATE :: u32 where "IN_CREATE \<equiv> 0x100"
abbreviation (input) IN_DELETE :: u32 where "IN_DELETE \<equiv> 0x200"
abbreviation (input) IN_MOVED_FROM :: u32 where "IN_MOVED_FROM \<equiv> 0x40"
abbreviation (input) IN_MOVED_TO :: u32 where "IN_MOVED_TO \<equiv> 0x80"
abbreviation (input) IN_DELETE_SELF :: u32 where "IN_DELETE_SELF \<equiv> 0x400"
abbreviation (input) IN_IGNORED :: u32 where "IN_IGNORED \<equiv> 0x8000"
abbreviation (input) IN_UNMOUNT :: u32 where "IN_UNMOUNT \<equiv> 0x2000"

definition event_action :: "u32 \<Rightarrow> u32" where
  "event_action mk =
     (if mk AND IN_CREATE \<noteq> 0 then 1
      else if mk AND IN_DELETE \<noteq> 0 then 2
      else if mk AND IN_MOVED_FROM \<noteq> 0 then 4
      else if mk AND IN_MOVED_TO \<noteq> 0 then 5
      else 3)"

text \<open>One event at \<open>off\<close>: watch descriptor, mask, name and the length of its name field.\<close>

definition inotify_event :: "bytes \<Rightarrow> nat \<Rightarrow> nat \<Rightarrow> (int \<times> u32 \<times> rstr \<times> nat) option" where
  "inotify_event buf n off = do {
     wd \<leftarrow> slice_get buf off (off + 4);
     mk \<leftarrow> slice_get buf (off + 4) (off + 8);
     nl \<leftarrow> slice_get buf (off + 12) (off + 16);
     let name_len = unat (u32_le nl);
     name_bytes \<leftarrow> slice_get buf (off + 16) (min (off + 16 + name_len) n);
     Some (sint (u32_le wd), u32_le mk, from_utf8_lossy (takeWhile (\<lambda>b. b \<noteq> 0) name_bytes), name_len) }"

type_synonym events = "(int, (u32 \<times> rstr) list) hmap"

text \<open>The events of one read, grouped per watch descriptor (in order of first appearance), and the
  descriptors whose directory is gone.\<close>

definition group_event :: "int \<Rightarrow> u32 \<Rightarrow> rstr \<Rightarrow> events \<Rightarrow> events" where
  "group_event wd mk name g =
     (let old = (case hget g wd of None \<Rightarrow> [] | Some v \<Rightarrow> v)
      in hput wd (if name \<noteq> [] then old @ [(event_action mk, name)] else old) g)"

function parse_events :: "bytes \<Rightarrow> nat \<Rightarrow> nat \<Rightarrow> events \<Rightarrow> int list \<Rightarrow> (events \<times> int list) option" where
  "parse_events buf n off g gone =
     (if off + 16 \<le> n
      then (case inotify_event buf n off of
              None \<Rightarrow> None
            | Some (wd, mk, name, name_len) \<Rightarrow>
                if mk AND (IN_DELETE_SELF OR IN_IGNORED OR IN_UNMOUNT) \<noteq> 0
                then parse_events buf n (off + 16 + name_len) g (gone @ [wd])
                else parse_events buf n (off + 16 + name_len) (group_event wd mk name g) gone)
      else Some (g, gone))"
  by pat_completeness auto
termination
  by (relation "measure (\<lambda>(_, n, off, _, _). n - off)") auto

declare parse_events.simps [simp del]

text \<open>Taking the watches on a descriptor.\<close>

definition fire_wd :: "int \<Rightarrow> 'e \<Rightarrow> watch list \<times> (watch \<times> 'e) list \<Rightarrow> watch list \<times> (watch \<times> 'e) list" where
  "fire_wd wd ev = (\<lambda>(ws, fired).
     (filter (\<lambda>x. wt_wd x \<noteq> wd) ws, fired @ map (\<lambda>x. (x, ev)) (filter (\<lambda>x. wt_wd x = wd) ws)))"

definition fire_events ::
  "events \<Rightarrow> int list \<Rightarrow> watch list \<Rightarrow> watch list \<times> (watch \<times> (u32 \<times> rstr) list) list" where
  "fire_events g gone ws =
     fold (\<lambda>wd. fire_wd wd []) gone (fold (\<lambda>(wd, ev). fire_wd wd ev) g (ws, []))"

section \<open>Sending\<close>

definition submit_send :: "nat \<Rightarrow> bool \<Rightarrow> 'w wk \<Rightarrow> 'w wk option" where
  "submit_send i msg_more k = do {
     c \<leftarrow> conn_mut i k;
     buf \<leftarrow> slice_from (c_tx c) (c_tx_off c);
     let is_zc = k_zc_ok k \<and> \<not> c_copy_next c \<and> \<not> msg_more \<and> length buf \<ge> ZC_SEND_MIN;
     let c = c\<lparr>c_send_is_zc := is_zc, c_copy_next := False\<rparr>;
     let u = ud OP_SEND i (c_gen c) 0;
     sq_push_conn i \<lparr>q_op = (if is_zc then USendZc (c_fd c) (c_tx_off c) (length buf)
                             else USend (c_fd c) (c_tx_off c) (length buf) msg_more),
                     q_link = False, q_ud = u\<rparr> (set_conn i c k) }"

definition start_send :: "nat \<Rightarrow> 'w wk \<Rightarrow> 'w wk option" where
  "start_send i k = do {
     c \<leftarrow> conn_mut i k;
     submit_send i False (set_conn i (c\<lparr>c_txm := Send\<rparr>) k) }"

section \<open>Zero-copy reads: submission\<close>

definition submit_splice_in :: "nat \<Rightarrow> 'w wk \<Rightarrow> 'w wk option" where
  "submit_splice_in i k = do {
     c \<leftarrow> conn_mut i k;
     z \<leftarrow> c_zc c;
     (_, pipe_w) \<leftarrow> c_pipe c;
     sq_push_conn i \<lparr>q_op = USpliceIn (zc_fd (z_plan z)) (zc_offset (z_plan z) + ucast (z_got z)) pipe_w
                               (z_want z - z_got z),
                     q_link = False, q_ud = ud OP_SPLICE_IN i (c_gen c) 0\<rparr> k }"

definition submit_splice_out :: "nat \<Rightarrow> 'w wk \<Rightarrow> 'w wk option" where
  "submit_splice_out i k = do {
     c \<leftarrow> conn_mut i k;
     z \<leftarrow> c_zc c;
     (pipe_r, _) \<leftarrow> c_pipe c;
     sq_push_conn i \<lparr>q_op = USpliceOut pipe_r (c_fd c) (z_out_left z),
                     q_link = False, q_ud = ud OP_SPLICE_OUT i (c_gen c) 0\<rparr> k }"

definition submit_zc_linked :: "nat \<Rightarrow> 'w wk \<Rightarrow> 'w wk option" where
  "submit_zc_linked i k = do {
     c \<leftarrow> conn_mut i k;
     z \<leftarrow> c_zc c;
     (pipe_r, pipe_w) \<leftarrow> c_pipe c;
     let len = z_want z;
     let splice_in = \<lparr>q_op = USpliceIn (zc_fd (z_plan z)) (zc_offset (z_plan z)) pipe_w len, q_link = True,
                      q_ud = ud OP_SPLICE_IN i (c_gen c) 0\<rparr>;
     let snd_hdr = \<lparr>q_op = USend (c_fd c) 0 (length (c_tx c)) True, q_link = True,
                    q_ud = ud OP_SEND i (c_gen c) 0\<rparr>;
     let splice_out = \<lparr>q_op = USpliceOut pipe_r (c_fd c) len, q_link = False,
                       q_ud = ud OP_SPLICE_OUT i (c_gen c) 0\<rparr>;
     Some (sq_push splice_out (sq_push snd_hdr (sq_push splice_in
             (set_conn i (c\<lparr>c_inflight := c_inflight c + 3\<rparr>) k)))) }"

text \<open>The pipe of a connection, created on first use; \<open>None\<close> when there is no pipe to be had.\<close>

definition ensure_pipe :: "'w kern \<Rightarrow> u32 \<Rightarrow> conn \<Rightarrow> 'w \<Rightarrow> conn option \<times> 'w" where
  "ensure_pipe K max_read c w =
     (case c_pipe c of
        Some _ \<Rightarrow> (Some c, w)
      | None \<Rightarrow>
          (case os_pipe2 K w of
             (None, w) \<Rightarrow> (None, w)
           | (Some (r, wr), w) \<Rightarrow>
               (case os_pipe_size K r max_read w of
                  (got, w) \<Rightarrow>
                    (Some (c\<lparr>c_pipe := Some (r, wr), c_pipe_cap := (if got > 0 then word_of_int got else 65536)\<rparr>), w))))"

definition send_read_err :: "'w ext \<Rightarrow> nat \<Rightarrow> zc_plan \<Rightarrow> u32 \<Rightarrow> conn \<Rightarrow> 'w wk \<Rightarrow> 'w wk option" where
  "send_read_err E i plan st c k = do {
     tx \<leftarrow> build_read_err plan st;
     let k = k\<lparr>k_w := os_close E (zc_fd plan) (k_w k)\<rparr>;
     submit_send i False (set_conn i (c\<lparr>c_tx := tx, c_tx_off := 0, c_txm := Send\<rparr>) k) }"

definition start_zc :: "'w ext \<Rightarrow> 'w kern \<Rightarrow> srv \<Rightarrow> nat \<Rightarrow> zc_plan \<Rightarrow> 'w wk \<Rightarrow> 'w wk option" where
  "start_zc E K srv i plan k = do {
     c \<leftarrow> conn_mut i k;
     (case ensure_pipe K (sv_max_read srv) c (k_w k) of
        (None, w) \<Rightarrow> send_read_err E i plan INSUFFICIENT_RESOURCES c (k\<lparr>k_w := w\<rparr>)
      | (Some c, w) \<Rightarrow> do {
          let k = k\<lparr>k_w := w\<rparr>;
          let want = min (zc_length plan) (c_pipe_cap c);
          if zc_linked plan \<and> zc_length plan \<le> c_pipe_cap c
          then do {
            tx \<leftarrow> build_read_resp_prefix plan (zc_length plan);
            submit_zc_linked i (set_conn i (c\<lparr>c_tx := tx, c_tx_off := 0,
              c_zc := Some \<lparr>z_plan = plan, z_want = want, z_got = want, z_out_left = zc_length plan, z_linked = True,
                            z_chain = 3, z_err = False\<rparr>,
              c_txm := ZcOut\<rparr>) k) }
          else
            submit_splice_in i (set_conn i (c\<lparr>
              c_zc := Some \<lparr>z_plan = plan, z_want = want, z_got = 0, z_out_left = 0, z_linked = False, z_chain = 0,
                            z_err = False\<rparr>,
              c_txm := ZcIn\<rparr>) k) }) }"

section \<open>Driving a connection\<close>

text \<open>Completed asynchronous responses go out first.\<close>

fun flush_deferred :: "bytes list \<Rightarrow> bytes \<Rightarrow> bytes list \<times> bytes" where
  "flush_deferred [] tx = ([], tx)"
| "flush_deferred (d # ds) tx =
     (let tx = tx @ d in if length tx \<ge> TX_FLUSH then (ds, tx) else flush_deferred ds tx)"

text \<open>One round of the loop: go on, leave the loop, or leave \<open>drive\<close>.\<close>

datatype 'w drive_out = Go "'w wk" | Leave "'w wk" | Return "'w wk"

definition after_frame ::
  "'w ext \<Rightarrow> 'w kern \<Rightarrow> srv \<Rightarrow> nat \<Rightarrow> frame_action \<Rightarrow> 'w wk \<Rightarrow> 'w drive_out option" where
  "after_frame E K srv i act k =
     (case act of
        Respond \<Rightarrow> Some (Go k)
      | Close \<Rightarrow> map_option Return (close_conn_ring E K i k)
      | RespondClose \<Rightarrow> do {
          c \<leftarrow> conn_mut i k;
          let k = set_conn i (c\<lparr>c_close_after_send := True\<rparr>) k;
          map_option Return (if c_tx c = [] then close_conn_ring E K i k else start_send i k) }
      | ZcRead plan \<Rightarrow> do {
          c \<leftarrow> conn_mut i k;
          k \<leftarrow> (if c_tx c = [] then start_zc E K srv i plan k
                else start_send i (set_conn i (c\<lparr>c_pending_zc := Some plan\<rparr>) k));
          map_option Return (maybe_arm_recv E K i k) })"

definition run_frame ::
  "'w ext \<Rightarrow> 'w kern \<Rightarrow> srv \<Rightarrow> nat \<Rightarrow> conn \<Rightarrow> nat \<Rightarrow> 'w wk \<Rightarrow> (frame_action \<times> 'w wk) option" where
  "run_frame E K srv i c tot k = do {
     frame \<leftarrow> slice_get (c_rx c) (c_rx_off c + 4) (c_rx_off c + tot);
     (act, s) \<leftarrow> process_frame E srv frame (st_of c k);
     let c = c\<lparr>c_proto := g_pc s, c_tx := g_tx s, c_rx_off := c_rx_off c + tot\<rparr>;
     let k = put_shared s k;
     (c, w, q) \<leftarrow> (if pc_notify_new (c_proto c) \<noteq> [] \<or> pc_notify_done (c_proto c) \<noteq> []
                   then service_notify E K i (c, k_w k, k_ring k) else Some (c, k_w k, k_ring k));
     Some (act, set_conn i c (k\<lparr>k_w := w, k_ring := q\<rparr>)) }"

definition drive_step :: "'w ext \<Rightarrow> 'w kern \<Rightarrow> srv \<Rightarrow> nat \<Rightarrow> 'w wk \<Rightarrow> 'w drive_out option" where
  "drive_step E K srv i k = do {
     c \<leftarrow> conn_mut i k;
     if length (c_tx c) - c_tx_off c \<ge> TX_FLUSH then Some (Leave k)
     else do {
       t \<leftarrow> frame_total c;
       (case t of
          Inl _ \<Rightarrow> map_option Return (close_conn_ring E K i k)
        | Inr None \<Rightarrow> Some (Leave k)
        | Inr (Some tot) \<Rightarrow>
            if c_rx_len c - c_rx_off c < tot then Some (Leave k)
            else do {
              (act, k) \<leftarrow> run_frame E K srv i c tot k;
              after_frame E K srv i act k }) } }"

text \<open>The notification functions leave the receive and transmit sides of a connection alone.\<close>

definition notify_frame :: "conn \<Rightarrow> conn \<Rightarrow> bool" where
  "notify_frame c c' \<longleftrightarrow>
     c_rx c' = c_rx c \<and> c_rx_off c' = c_rx_off c \<and> c_rx_len c' = c_rx_len c \<and>
     c_recv_inflight c' = c_recv_inflight c \<and> c_tx c' = c_tx c \<and> c_tx_off c' = c_tx_off c \<and> c_txm c' = c_txm c \<and>
     c_pending_zc c' = c_pending_zc c \<and> c_pipe c' = c_pipe c \<and> c_pipe_cap c' = c_pipe_cap c \<and> c_zc c' = c_zc c \<and>
     c_closing c' = c_closing c \<and> c_gen c' = c_gen c \<and> c_fd c' = c_fd c \<and>
     c_notif_pending c' = c_notif_pending c \<and> c_close_after_send c' = c_close_after_send c \<and>
     c_inotify_cancelled c' = c_inotify_cancelled c \<and> c_send_is_zc c' = c_send_is_zc c \<and>
     c_copy_next c' = c_copy_next c"

lemma notify_frame_refl: "notify_frame c c"
  by (simp add: notify_frame_def)

lemma notify_frame_trans: "notify_frame a b \<Longrightarrow> notify_frame b c \<Longrightarrow> notify_frame a c"
  by (simp add: notify_frame_def)

lemma arm_inotify_frame: "arm_inotify i (c, w, q) = Some (c', w', q') \<Longrightarrow> notify_frame c c'"
  by (auto simp: arm_inotify_def notify_frame_def split: if_splits)

lemma complete_notify_frame: "complete_notify E pend st ev c = Some c' \<Longrightarrow> notify_frame c c'"
  by (auto simp: complete_notify_def notify_frame_def)

lemma inotify_ready_frame:
  assumes "inotify_ready K i (c, w, q) = Some (ok, c', w', q')"
  shows "notify_frame c c'"
proof -
  have "notify_frame (c\<lparr>c_inotify_fd := f, c_ibuf := b\<rparr>) c' \<Longrightarrow> notify_frame c c'" for f b
    by (simp add: notify_frame_def)
  then show ?thesis
    using assms
    by (auto simp: inotify_ready_def notify_frame_refl split: option.splits prod.splits if_splits dest!: arm_inotify_frame)
qed

lemma notify_watch_frame:
  assumes "notify_watch E K i pend (c, w, q) = Some (c', w', q')"
  shows "notify_frame c c'"
proof -
  obtain ok c1 w1 q1 where r: "inotify_ready K i (c, w, q) = Some (ok, c1, w1, q1)"
    using assms by (auto simp: notify_watch_def)
  have "notify_frame c1 (c1\<lparr>c_watches := ws\<rparr>)" for ws by (simp add: notify_frame_def)
  then have "notify_frame c1 c'"
    using assms r by (auto simp: notify_watch_def case_prod_beta split: if_splits dest!: complete_notify_frame)
  then show ?thesis by (rule notify_frame_trans [OF inotify_ready_frame [OF r]])
qed

lemma notify_finish_frame: "notify_finish E K d (c, w, q) = Some (c', w', q') \<Longrightarrow> notify_frame c c'"
  by (auto simp: notify_finish_def notify_frame_def Let_def split: option.splits)

lemma each_frame:
  assumes "\<And>x c w q c' w' q'. f x (c, w, q) = Some (c', w', q') \<Longrightarrow> notify_frame c c'"
  shows "each f xs (c, w, q) = Some (c', w', q') \<Longrightarrow> notify_frame c c'"
proof (induction xs arbitrary: c w q)
  case Nil
  then show ?case by (simp add: notify_frame_refl)
next
  case (Cons x xs)
  then obtain c1 w1 q1 where "f x (c, w, q) = Some (c1, w1, q1)" "each f xs (c1, w1, q1) = Some (c', w', q')"
    by auto
  then show ?case using assms Cons.IH by (blast intro: notify_frame_trans)
qed

lemma service_notify_frame:
  assumes "service_notify E K i (c, w, q) = Some (c', w', q')"
  shows "notify_frame c c'"
proof -
  let ?c = "c\<lparr>c_proto := (c_proto c)\<lparr>pc_notify_new := [], pc_notify_done := []\<rparr>\<rparr>"
  obtain c1 w1 q1 where e: "each (notify_watch E K i) (pc_notify_new (c_proto c)) (?c, w, q) = Some (c1, w1, q1)"
      "each (notify_finish E K) (pc_notify_done (c_proto c)) (c1, w1, q1) = Some (c', w', q')"
    using assms by (auto simp: service_notify_def Let_def)
  have "notify_frame c ?c" by (simp add: notify_frame_def)
  moreover have "notify_frame ?c c1"
    by (rule each_frame [where f = "notify_watch E K i", OF _ e(1)]) (rule notify_watch_frame)
  moreover have "notify_frame c1 c'"
    by (rule each_frame [where f = "notify_finish E K", OF _ e(2)]) (rule notify_finish_frame)
  ultimately show ?thesis by (blast intro: notify_frame_trans)
qed

text \<open>The bytes of the receive buffer not yet processed; every frame takes at least four of them.\<close>

definition rx_left :: "nat \<Rightarrow> 'w wk \<Rightarrow> nat" where
  "rx_left i k = (case conn_mut i k of None \<Rightarrow> 0 | Some c \<Rightarrow> c_rx_len c - c_rx_off c)"

lemma conn_mut_Some: "conn_mut i k = Some c \<longleftrightarrow> i < length (k_conns k) \<and> k_conns k ! i = Some c"
  by (auto simp: conn_mut_def idx_def)

lemma conn_mut_set [simp]: "i < length (k_conns k) \<Longrightarrow> conn_mut i (set_conn i c k) = Some c"
  by (simp add: conn_mut_def idx_def set_conn_def)

lemma run_frame_conn:
  assumes "run_frame E K srv i c tot k = Some (act, k')" and "i < length (k_conns k)"
  obtains c' where "conn_mut i k' = Some c'" and "c_rx_off c' = c_rx_off c + tot" and "c_rx_len c' = c_rx_len c"
proof -
  obtain frame s where "slice_get (c_rx c) (c_rx_off c + 4) (c_rx_off c + tot) = Some frame"
      "process_frame E srv frame (st_of c k) = Some (act, s)"
    using assms(1) by (auto simp: run_frame_def Let_def)
  note r = this
  let ?c = "c\<lparr>c_proto := g_pc s, c_tx := g_tx s, c_rx_off := c_rx_off c + tot\<rparr>"
  let ?k = "put_shared s k"
  obtain c' w q where x: "(if pc_notify_new (c_proto ?c) \<noteq> [] \<or> pc_notify_done (c_proto ?c) \<noteq> []
      then service_notify E K i (?c, k_w ?k, k_ring ?k) else Some (?c, k_w ?k, k_ring ?k)) = Some (c', w, q)"
    and k': "k' = set_conn i c' (?k\<lparr>k_w := w, k_ring := q\<rparr>)"
    using assms(1) r unfolding run_frame_def Let_def by (auto split del: if_split)
  from x have "notify_frame ?c c'"
    by (auto simp: notify_frame_refl split: if_splits dest!: service_notify_frame)
  then show thesis
    using that [of c'] assms(2) k' by (simp add: notify_frame_def put_shared_def)
qed

lemma frame_total_ge: "frame_total c = Some (Inr (Some t)) \<Longrightarrow> 4 \<le> t"
  by (auto simp: frame_total_def Let_def split: if_splits)

lemma after_frame_Go: "after_frame E K srv i act k = Some (Go k') \<Longrightarrow> k' = k"
  by (auto simp: after_frame_def Let_def split: frame_action.splits)

lemma drive_step_Go:
  assumes "drive_step E K srv i k = Some (Go k')"
  obtains c tot act where "conn_mut i k = Some c" and "frame_total c = Some (Inr (Some tot))"
    and "tot \<le> c_rx_len c - c_rx_off c" and "run_frame E K srv i c tot k = Some (act, k')"
proof -
  obtain c where c: "conn_mut i k = Some c" using assms by (auto simp: drive_step_def)
  have f: "\<not> TX_FLUSH \<le> length (c_tx c) - c_tx_off c" using assms c by (auto simp: drive_step_def)
  obtain t where t: "frame_total c = Some t" using assms c f by (auto simp: drive_step_def)
  have e: "(case t of
          Inl _ \<Rightarrow> map_option Return (close_conn_ring E K i k)
        | Inr None \<Rightarrow> Some (Leave k)
        | Inr (Some tot) \<Rightarrow>
            if c_rx_len c - c_rx_off c < tot then Some (Leave k)
            else do { (act, k) \<leftarrow> run_frame E K srv i c tot k; after_frame E K srv i act k }) = Some (Go k')"
    using assms c f t unfolding drive_step_def by (simp del: bind_Some_iff)
  show thesis
  proof (cases t)
    case (Inl u)
    then show thesis using e by simp
  next
    case (Inr x)
    show thesis
    proof (cases x)
      case None
      then show thesis using e Inr by simp
    next
      case (Some tot)
      have l: "tot \<le> c_rx_len c - c_rx_off c"
        using e Inr Some by (cases "c_rx_len c - c_rx_off c < tot") simp_all
      then obtain act k1 where r: "run_frame E K srv i c tot k = Some (act, k1)" "after_frame E K srv i act k1 = Some (Go k')"
        using e Inr Some by auto
      show thesis using that [OF c] t Inr Some l r(1) after_frame_Go [OF r(2)] by simp
    qed
  qed
qed

lemma drive_step_progress:
  assumes "drive_step E K srv i k = Some (Go k')"
  shows "rx_left i k' < rx_left i k"
proof -
  obtain c tot act where c: "conn_mut i k = Some c" and t: "frame_total c = Some (Inr (Some tot))"
    and l: "tot \<le> c_rx_len c - c_rx_off c" and r: "run_frame E K srv i c tot k = Some (act, k')"
    by (rule drive_step_Go [OF assms])
  obtain c' where "conn_mut i k' = Some c'" "c_rx_off c' = c_rx_off c + tot" "c_rx_len c' = c_rx_len c"
    using run_frame_conn [OF r] c by (auto simp: conn_mut_Some)
  then show ?thesis using c l frame_total_ge [OF t] by (simp add: rx_left_def)
qed

function drive_loop :: "'w ext \<Rightarrow> 'w kern \<Rightarrow> srv \<Rightarrow> nat \<Rightarrow> 'w wk \<Rightarrow> 'w drive_out option" where
  "drive_loop E K srv i k =
     (case drive_step E K srv i k of
        None \<Rightarrow> None
      | Some (Go k) \<Rightarrow> drive_loop E K srv i k
      | Some r \<Rightarrow> Some r)"
  by pat_completeness auto
termination
  by (relation "measure (\<lambda>(E, K, srv, i, k). rx_left i k)") (auto intro: drive_step_progress)

declare drive_loop.simps [simp del]

definition drive :: "'w ext \<Rightarrow> 'w kern \<Rightarrow> srv \<Rightarrow> nat \<Rightarrow> 'w wk \<Rightarrow> 'w wk option" where
  "drive E K srv i k = do {
     c \<leftarrow> conn_mut i k;
     let k = (case flush_deferred (c_deferred c) (c_tx c) of
                (ds, tx) \<Rightarrow> set_conn i (c\<lparr>c_deferred := ds, c_tx := tx\<rparr>) k);
     r \<leftarrow> drive_loop E K srv i k;
     (case r of
        Return k \<Rightarrow> Some k
      | Go k \<Rightarrow> Some k
      | Leave k \<Rightarrow> do {
          c \<leftarrow> conn_mut i k;
          k \<leftarrow> (if c_tx c \<noteq> [] then start_send i k else Some k);
          maybe_arm_recv E K i k }) }"

section \<open>Completions\<close>

definition on_recv :: "'w ext \<Rightarrow> 'w kern \<Rightarrow> srv \<Rightarrow> nat \<Rightarrow> int \<Rightarrow> 'w wk \<Rightarrow> 'w wk option" where
  "on_recv E K srv i res k = do {
     c \<leftarrow> conn_mut i k;
     let c = c\<lparr>c_recv_inflight := False\<rparr>;
     let k = set_conn i c k;
     if res = R_EINTR then maybe_arm_recv E K i k
     else if res \<le> 0 then close_conn_ring E K i k
     else do {
       let c = c\<lparr>c_rx_len := c_rx_len c + nat res\<rparr>;
       let k = set_conn i c k;
       if c_txm c = Idle then drive E K srv i k else maybe_arm_recv E K i k } }"

definition on_inotify :: "'w ext \<Rightarrow> 'w kern \<Rightarrow> srv \<Rightarrow> nat \<Rightarrow> int \<Rightarrow> 'w wk \<Rightarrow> 'w wk option" where
  "on_inotify E K srv i res k = do {
     c \<leftarrow> conn_mut i k;
     if res = R_EINTR \<or> res = R_EAGAIN then do {
       (c, w, q) \<leftarrow> arm_inotify i (c, k_w k, k_ring k);
       Some (set_conn i c (k\<lparr>k_w := w, k_ring := q\<rparr>)) }
     else if res \<le> 0 then
       Some (set_conn i (c\<lparr>c_inotify_fd := None\<rparr>)
         (case c_inotify_fd c of None \<Rightarrow> k | Some fd \<Rightarrow> k\<lparr>k_w := os_close E fd (k_w k)\<rparr>))
     else do {
       (groups, gone) \<leftarrow> parse_events (c_ibuf c) (nat res) 0 [] [];
       let (ws, fired) = fire_events groups gone (c_watches c);
       let w = (case c_inotify_fd c of
                  None \<Rightarrow> k_w k | Some ifd \<Rightarrow> fold (\<lambda>(wd, _). os_inotify_rm K ifd wd) groups (k_w k));
       c \<leftarrow> each (\<lambda>(x, ev). complete_notify E (wt_pend x) SUCCESS ev) fired (c\<lparr>c_watches := ws\<rparr>);
       (c, w, q) \<leftarrow> arm_inotify i (c, w, k_ring k);
       let k = set_conn i c (k\<lparr>k_w := w, k_ring := q\<rparr>);
       if c_txm c = Idle \<and> c_deferred c \<noteq> [] then drive E K srv i k else Some k } }"

definition finish_send :: "'w ext \<Rightarrow> 'w kern \<Rightarrow> srv \<Rightarrow> nat \<Rightarrow> 'w wk \<Rightarrow> 'w wk option" where
  "finish_send E K srv i k = do {
     c \<leftarrow> conn_mut i k;
     if c_close_after_send c then close_conn_ring E K i k
     else do {
       let c = c\<lparr>c_tx := [], c_tx_off := 0\<rparr>;
       (case c_pending_zc c of
          Some plan \<Rightarrow> start_zc E K srv i plan (set_conn i (c\<lparr>c_pending_zc := None\<rparr>) k)
        | None \<Rightarrow> drive E K srv i (set_conn i (c\<lparr>c_txm := Idle\<rparr>) k)) } }"

definition on_send_notif :: "'w ext \<Rightarrow> 'w kern \<Rightarrow> srv \<Rightarrow> nat \<Rightarrow> 'w wk \<Rightarrow> 'w wk option" where
  "on_send_notif E K srv i k = do {
     c \<leftarrow> conn_mut i k;
     let c = c\<lparr>c_notif_pending := c_notif_pending c - 1\<rparr>;
     let k = set_conn i c k;
     if c_notif_pending c = 0 \<and> c_txm c = Drain then finish_send E K srv i k else Some k }"

text \<open>The end of a zero-copy read: the plan's descriptor is closed and the connection goes on.\<close>

definition zc_done :: "'w ext \<Rightarrow> 'w kern \<Rightarrow> srv \<Rightarrow> nat \<Rightarrow> conn \<Rightarrow> zc \<Rightarrow> 'w wk \<Rightarrow> 'w wk option" where
  "zc_done E K srv i c z k =
     drive E K srv i (set_conn i (c\<lparr>c_zc := None, c_tx := [], c_tx_off := 0, c_txm := Idle\<rparr>)
       (k\<lparr>k_w := os_close E (zc_fd (z_plan z)) (k_w k)\<rparr>))"

definition on_linked_cqe ::
  "'w ext \<Rightarrow> 'w kern \<Rightarrow> srv \<Rightarrow> nat \<Rightarrow> u8 \<Rightarrow> int \<Rightarrow> 'w wk \<Rightarrow> 'w wk option" where
  "on_linked_cqe E K srv i op res k = do {
     c \<leftarrow> conn_mut i k;
     z \<leftarrow> c_zc c;
     let z = z\<lparr>z_chain := (if z_chain z = 0 then 0 else z_chain z - 1),
               z_out_left := (if op = OP_SPLICE_OUT \<and> res > 0
                              then z_out_left z - min (word_of_int res) (z_out_left z) else z_out_left z),
               z_err := (z_err z \<or> res < 0)\<rparr>;
     let c = c\<lparr>c_zc := Some z\<rparr>;
     let k = set_conn i c k;
     if z_chain z > 0 then Some k
     else if z_err z then close_conn_ring E K i k
     else if z_out_left z > 0
     then submit_splice_out i (set_conn i (c\<lparr>c_zc := Some (z\<lparr>z_linked := False\<rparr>), c_txm := ZcOut\<rparr>) k)
     else zc_done E K srv i c z k }"

definition on_send :: "'w ext \<Rightarrow> 'w kern \<Rightarrow> srv \<Rightarrow> nat \<Rightarrow> int \<Rightarrow> 'w wk \<Rightarrow> 'w wk option" where
  "on_send E K srv i res k = do {
     c \<leftarrow> conn_mut i k;
     if (case c_zc c of None \<Rightarrow> False | Some z \<Rightarrow> z_linked z) then on_linked_cqe E K srv i OP_SEND res k
     else if res = R_EINTR then submit_send i (c_txm c = ZcHdr) k
     else if (res = R_ENOMEM \<or> res = R_ENOBUFS) \<and> c_send_is_zc c
     then submit_send i False (set_conn i (c\<lparr>c_copy_next := True\<rparr>) k)
     else if res \<le> 0 then close_conn_ring E K i k
     else do {
       let c = c\<lparr>c_tx_off := c_tx_off c + nat res\<rparr>;
       let k = set_conn i c k;
       let fin = c_tx_off c \<ge> length (c_tx c);
       if c_txm c = ZcHdr
       then (if fin then submit_splice_out i (set_conn i (c\<lparr>c_txm := ZcOut\<rparr>) k) else submit_send i True k)
       else if fin
       then (if c_notif_pending c > 0 then Some (set_conn i (c\<lparr>c_txm := Drain\<rparr>) k) else finish_send E K srv i k)
       else submit_send i False k } }"

text \<open>Emptying the pipe of a read that failed; the read of the pipe returns at most what is asked
  for.\<close>

function drain_pipe :: "'w kern \<Rightarrow> fd \<Rightarrow> nat \<Rightarrow> 'w \<Rightarrow> 'w" where
  "drain_pipe K pipe_r left w =
     (if left = 0 then w
      else (case os_pipe_read K pipe_r (min 16384 left) w of
              (n, w) \<Rightarrow> if n \<le> 0 then w else drain_pipe K pipe_r (left - nat n) w))"
  by pat_completeness auto
termination
  by (relation "measure (\<lambda>(_, _, left, _). left)") auto

declare drain_pipe.simps [simp del]

definition zc_fail :: "'w ext \<Rightarrow> 'w kern \<Rightarrow> nat \<Rightarrow> u32 \<Rightarrow> 'w wk \<Rightarrow> 'w wk option" where
  "zc_fail E K i st k = do {
     c \<leftarrow> conn_mut i k;
     z \<leftarrow> c_zc c;
     k \<leftarrow> (if z_got z > 0 then do {
             (pipe_r, _) \<leftarrow> c_pipe c;
             Some (k\<lparr>k_w := drain_pipe K pipe_r (unat (z_got z)) (k_w k)\<rparr>) }
           else Some k);
     send_read_err E i (z_plan z) st (c\<lparr>c_zc := None\<rparr>) k }"

definition on_splice_in :: "'w ext \<Rightarrow> 'w kern \<Rightarrow> srv \<Rightarrow> nat \<Rightarrow> int \<Rightarrow> 'w wk \<Rightarrow> 'w wk option" where
  "on_splice_in E K srv i res k = do {
     c \<leftarrow> conn_mut i k;
     if (case c_zc c of None \<Rightarrow> False | Some z \<Rightarrow> z_linked z) then on_linked_cqe E K srv i OP_SPLICE_IN res k
     else if res = R_EINTR \<or> res = R_EAGAIN then submit_splice_in i k
     else do {
       z \<leftarrow> c_zc c;
       if res < 0 then zc_fail E K i (from_errno (- res)) k
       else do {
         let z = (if res > 0 then z\<lparr>z_got := z_got z + word_of_int res\<rparr> else z);
         let k = set_conn i (c\<lparr>c_zc := Some z\<rparr>) k;
         if res > 0 \<and> z_got z < z_want z then submit_splice_in i k
         else if z_got z = 0 \<or> z_got z < zc_min_count (z_plan z) then zc_fail E K i END_OF_FILE k
         else do {
           tx \<leftarrow> build_read_resp_prefix (z_plan z) (z_got z);
           submit_send i True (set_conn i (c\<lparr>c_zc := Some (z\<lparr>z_out_left := z_got z\<rparr>), c_tx := tx, c_tx_off := 0,
             c_txm := ZcHdr\<rparr>) k) } } } }"

definition on_splice_out :: "'w ext \<Rightarrow> 'w kern \<Rightarrow> srv \<Rightarrow> nat \<Rightarrow> int \<Rightarrow> 'w wk \<Rightarrow> 'w wk option" where
  "on_splice_out E K srv i res k = do {
     c \<leftarrow> conn_mut i k;
     if (case c_zc c of None \<Rightarrow> False | Some z \<Rightarrow> z_linked z) then on_linked_cqe E K srv i OP_SPLICE_OUT res k
     else if res = R_EINTR \<or> res = R_EAGAIN then submit_splice_out i k
     else if res \<le> 0 then close_conn_ring E K i k
     else do {
       z \<leftarrow> c_zc c;
       let z = z\<lparr>z_out_left := z_out_left z - min (word_of_int res) (z_out_left z)\<rparr>;
       let c = c\<lparr>c_zc := Some z\<rparr>;
       if z_out_left z > 0 then submit_splice_out i (set_conn i c k)
       else zc_done E K srv i c z k } }"

section \<open>Accepting, waking and dispatch\<close>

definition conn_new :: "fd \<Rightarrow> u16 \<Rightarrow> proto_conn \<Rightarrow> conn" where
  "conn_new fd gen proto =
     \<lparr>c_fd = fd, c_gen = gen, c_proto = proto, c_rx = zbytes RX_INITIAL, c_rx_off = 0, c_rx_len = 0,
      c_recv_inflight = False, c_tx = [], c_tx_off = 0, c_txm = Idle, c_pending_zc = None, c_pipe = None,
      c_pipe_cap = 0, c_zc = None, c_inotify_fd = None, c_ibuf = [], c_watches = [], c_deferred = [],
      c_inflight = 0, c_notif_pending = 0, c_send_is_zc = False, c_copy_next = False, c_close_after_send = False,
      c_closing = False, c_inotify_cancelled = False\<rparr>"

text \<open>The slot of a new connection: the top of the free list, or a new one.\<close>

definition take_slot :: "'w wk \<Rightarrow> nat \<times> 'w wk" where
  "take_slot k =
     (case k_free k of
        i # fr \<Rightarrow> (i, k\<lparr>k_free := fr\<rparr>)
      | [] \<Rightarrow> (length (k_conns k), k\<lparr>k_conns := k_conns k @ [None], k_gens := k_gens k @ [1]\<rparr>))"

definition on_accept :: "'w ext \<Rightarrow> 'w kern \<Rightarrow> srv \<Rightarrow> fd \<Rightarrow> 'w wk \<Rightarrow> 'w wk option" where
  "on_accept E K srv fd k =
     (if k_free k = [] \<and> length (k_conns k) \<ge> MAX_CONN_SLOTS then Some (k\<lparr>k_w := os_close E fd (k_w k)\<rparr>)
      else do {
        let k = k\<lparr>k_w := os_nodelay K fd (k_w k), k_seed := k_seed k + 1\<rparr>;
        let (i, k) = take_slot k;
        gen \<leftarrow> idx (k_gens k) i;
        let proto = proto_conn_new (sv_max_read srv) (k_wid k) i gen;
        _ \<leftarrow> idx (k_conns k) i;
        maybe_arm_recv E K i (set_conn i (conn_new fd gen proto) k) })"

definition deliver_break :: "'w ext \<Rightarrow> 'w kern \<Rightarrow> srv \<Rightarrow> break_msg \<Rightarrow> 'w wk \<Rightarrow> 'w wk option" where
  "deliver_break E K srv b k =
     (let i = bm_conn_idx b
      in case conn_mut i k of
           None \<Rightarrow> Some k
         | Some c \<Rightarrow>
             if c_gen c \<noteq> bm_conn_gen b \<or> c_closing c then Some k
             else do {
               let sg = Option.bind (hget (pc_channels (c_proto c)) (bm_session_id b)) ch_sign;
               frame \<leftarrow> build_lease_break E (bm_lease_key b) (bm_cur_state b) (bm_new_state b) (bm_epoch b)
                         (bm_session_id b) sg;
               let k = set_conn i (c\<lparr>c_deferred := c_deferred c @ [frame]\<rparr>) k;
               if c_txm c = Idle then drive E K srv i k else Some k })"

definition on_wake :: "'w ext \<Rightarrow> 'w kern \<Rightarrow> srv \<Rightarrow> 'w wk \<Rightarrow> 'w wk option" where
  "on_wake E K srv k = do {
     mb \<leftarrow> idx (k_mail k) (k_wid k);
     let (breaks, mb) = mb_drain mb;
     k \<leftarrow> each (deliver_break E K srv) breaks (k\<lparr>k_mail := (k_mail k)[k_wid k := mb]\<rparr>);
     arm_wake k }"

definition handle_cqe :: "'w ext \<Rightarrow> 'w kern \<Rightarrow> srv \<Rightarrow> u64 \<Rightarrow> int \<Rightarrow> u32 \<Rightarrow> 'w wk \<Rightarrow> 'w wk option" where
  "handle_cqe E K srv udata res flags k =
     (case ud_parts udata of
        (op, i, gen, _) \<Rightarrow>
          if op = OP_ACCEPT
          then (let k = (if flags AND CQE_F_MORE = 0 then arm_accept k else k)
                in if res < 0 then Some k else on_accept E K srv res k)
          else if op = OP_WAKE then on_wake E K srv k
          else if op = OP_CANCEL then Some k
          else
            (case conn_mut i k of
               None \<Rightarrow> Some k
             | Some c \<Rightarrow>
                 if c_gen c \<noteq> gen then Some k
                 else do {
                   let c = (if op = OP_SEND \<and> flags AND CQE_F_MORE \<noteq> 0
                            then c\<lparr>c_inflight := c_inflight c + 1, c_notif_pending := c_notif_pending c + 1\<rparr> else c);
                   let c = c\<lparr>c_inflight := c_inflight c - 1\<rparr>;
                   let k = set_conn i c k;
                   if c_closing c then (if c_inflight c = 0 then finalize_close E i k else Some k)
                   else if op = OP_RECV then on_recv E K srv i res k
                   else if op = OP_SEND then
                     (if flags AND CQE_F_NOTIF \<noteq> 0 then on_send_notif E K srv i k else on_send E K srv i res k)
                   else if op = OP_SPLICE_IN then on_splice_in E K srv i res k
                   else if op = OP_SPLICE_OUT then on_splice_out E K srv i res k
                   else if op = OP_INOTIFY then on_inotify E K srv i res k
                   else Some k }))"

text \<open>A worker when it starts: nothing but the accept and the mailbox read are armed.\<close>

definition worker_start :: "nat \<Rightarrow> fd \<Rightarrow> bool \<Rightarrow> registry \<Rightarrow> mailbox list \<Rightarrow> lease_table \<Rightarrow> 'w \<Rightarrow> 'w wk option" where
  "worker_start wid listen_fd zc_ok sessions mail leases w =
     arm_wake (arm_accept
       \<lparr>k_sessions = sessions, k_mail = mail, k_leases = leases, k_w = w, k_wid = wid, k_listen = listen_fd,
        k_conns = [], k_gens = [], k_free = [], k_seed = push_bit 20 (word_of_nat wid), k_zc_ok = zc_ok,
        k_ring = []\<rparr>)"

end
