(* ===== verification/Access.thy ===== *)
theory Access
  imports Dispatch
begin

text \<open>
  What a client can do before it is authenticated, and what happens to a request that arrives
  without the protection its channel demands: the dispatcher stops it before any handler runs.
\<close>

section \<open>Requests without effect\<close>

definition inert :: "'w st \<Rightarrow> 'w st \<Rightarrow> bool" where
  "inert s t \<longleftrightarrow> g_sessions t = g_sessions s \<and> g_leases t = g_leases s \<and> g_mail t = g_mail s \<and> g_w t = g_w s \<and>
     pc_channels (g_pc t) = pc_channels (g_pc s)"

lemma inert_refl [simp]: "inert s s"
  by (simp add: inert_def)

lemma inert_frames [simp]:
  "inert s (err_r h st t) = inert s t" "inert s (simple_resp h t) = inert s t" "inert s (set_close t) = inert s t"
  "inert s (t\<lparr>g_cx := cx\<rparr>) = inert s t" "inert s (t\<lparr>g_tx := tx\<rparr>) = inert s t"
  by (simp_all add: inert_def err_r_def simple_resp_def put_def begin_r_def set_close_def)

lemma inert_cancel [simp]: "inert s (cancel h t) = inert s t"
  by (simp add: inert_def cancel_def Let_def split: option.split)

text \<open>Admission touches the replay window and the credits only.\<close>

lemma consume_channels: "pc_channels (snd (consume_msg_ids pc m n)) = pc_channels pc"
  by (simp add: consume_msg_ids_def Let_def split: prod.split)

lemma take_credits_channels: "pc_channels (snd (take_credits pc h)) = pc_channels pc"
  by (simp add: take_credits_def Let_def)

definition admitted :: "req_hdr \<Rightarrow> 'w st \<Rightarrow> 'w st \<Rightarrow> bool" where
  "admitted h s t \<longleftrightarrow> inert s t \<and> g_cx t = resolve_chain h (g_cx s) \<and> g_tx t = g_tx s"

lemma admit_cases:
  obtains (stale) t where "admit E h msg s = Inl (set_close t)" "inert s t" "g_tx t = g_tx s"
  | (foreign) t x where "admit E h msg s = Inl (set_close t)" "admitted h s t" "cx_transform_sid (g_cx s) = Some x"
      "x \<noteq> cx_session_id (resolve_chain h (g_cx s))"
  | (refused) t g where "admit E h msg s = Inl (err_r (h\<lparr>h_credits := g\<rparr>) ACCESS_DENIED t)" "admitted h s t"
      "integrity_refused E (h\<lparr>h_credits := g\<rparr>) msg t"
  | (passed) t g where "admit E h msg s = Inr (h\<lparr>h_credits := g\<rparr>, t)" "admitted h s t"
      "\<not> integrity_refused E (h\<lparr>h_credits := g\<rparr>) msg t"
      "\<And>x. cx_transform_sid (g_cx s) = Some x \<Longrightarrow> x = cx_session_id (resolve_chain h (g_cx s))"
proof -
  define r where "r = (if h_command h = CMD_CANCEL then (True, g_pc s) else consume_msg_ids (g_pc s) (h_msg_id h) (h_credit_charge h))"
  obtain fresh pc where r': "r = (fresh, pc)" by fastforce
  have pc: "pc_channels pc = pc_channels (g_pc s)"
    using r' consume_channels [of "g_pc s" "h_msg_id h" "h_credit_charge h"] by (auto simp: r_def split: if_splits)
  obtain g pc2 where c: "take_credits pc h = (g, pc2)" by fastforce
  have pc2: "pc_channels pc2 = pc_channels (g_pc s)" using take_credits_channels [of pc h] c pc by simp
  let ?t = "s\<lparr>g_pc := pc2, g_cx := resolve_chain h (g_cx s)\<rparr>"
  have t: "admitted h s ?t" using pc2 by (simp add: admitted_def inert_def)
  have ts: "cx_transform_sid (resolve_chain h x) = cx_transform_sid x" for x by (simp add: resolve_chain_def)
  have s1: "inert s (s\<lparr>g_pc := pc\<rparr>)" using pc by (simp add: inert_def)
  have a: "admit E h msg s = (if \<not> fresh then Inl (set_close (s\<lparr>g_pc := pc\<rparr>))
      else if (case cx_transform_sid (g_cx s) of None \<Rightarrow> False | Some x \<Rightarrow> cx_session_id (resolve_chain h (g_cx s)) \<noteq> x)
      then Inl (set_close ?t)
      else if integrity_refused E (h\<lparr>h_credits := g\<rparr>) msg ?t then Inl (err_r (h\<lparr>h_credits := g\<rparr>) ACCESS_DENIED ?t)
      else Inr (h\<lparr>h_credits := g\<rparr>, ?t))"
    unfolding admit_def r_def [symmetric] r' by (simp add: c Let_def ts cong: option.case_cong)
  show thesis
    using a s1 t stale [of "s\<lparr>g_pc := pc\<rparr>"] foreign [of ?t] refused [of g ?t] passed [of g ?t]
    by (cases fresh; cases "cx_transform_sid (g_cx s)"; cases "integrity_refused E (h\<lparr>h_credits := g\<rparr>) msg ?t") (auto split: if_splits)
qed

section \<open>A connection and a request\<close>

definition demo_srv :: srv where
  "demo_srv = \<lparr>sv_cfg = default_config, sv_guid = zbytes 16, sv_max_read = 65536, sv_start_ft = 0, sv_users = [],
     sv_allow_guest = True, sv_interfaces = []\<rparr>"

definition demo_conn :: "(u64, channel) hmap \<Rightarrow> unit st" where
  "demo_conn chans = \<lparr>g_sessions = [], g_mail = [], g_leases = [], g_w = (),
     g_pc = (proto_conn_new 65536 0 0 1)\<lparr>pc_channels := chans\<rparr>, g_cx = chain_new None, g_tx = []\<rparr>"

definition demo_hdr :: "u16 \<Rightarrow> req_hdr" where
  "demo_hdr cmd = \<lparr>h_credit_charge = 1, h_command = cmd, h_credits = 1, h_flags = 0, h_next = 0, h_msg_id = 0, h_tree_id = 1,
     h_session_id = 7, h_async_id = None\<rparr>"

section \<open>Properties\<close>

text \<open>(C4) Before authentication a client can change nothing: a request other than NEGOTIATE and
  SESSION\_SETUP whose effective session (the chain's, in a related compound) has no established
  channel on this connection returns without a zero-copy plan, and leaves the session registry, the
  lease table, the mailboxes, the channels and the outside world (every file) exactly as they
  were, whatever command it names.\<close>

theorem unauthenticated_confined:
  assumes "h_command h \<notin> {CMD_NEGOTIATE, CMD_SESSION_SETUP}"
    and "\<And>ch. hget (pc_channels (g_pc s)) (cx_session_id (resolve_chain h (g_cx s))) = Some ch \<Longrightarrow> \<not> ch_established ch"
  shows "\<exists>t. dispatch E srv h msg s = Some (None, t) \<and> g_sessions t = g_sessions s \<and> g_leases t = g_leases s \<and>
    g_mail t = g_mail s \<and> g_w t = g_w s \<and> pc_channels (g_pc t) = pc_channels (g_pc s)"
proof (cases rule: admit_cases [where E = E and h = h and msg = msg and s = s])
  case (passed t g)
  have "\<not> (case hget (pc_channels (g_pc t)) (cx_session_id (g_cx t)) of None \<Rightarrow> False | Some c \<Rightarrow> ch_established c)"
    using passed(2) assms(2) by (auto simp: admitted_def inert_def split: option.split)
  then have "\<exists>u. dispatch E srv h msg s = Some (None, u) \<and> inert t u"
    using passed(1) assms(1) by (simp add: dispatch_def session_command_def logoff_def Let_def)
  then show ?thesis using passed(2) by (auto simp: inert_def admitted_def)
qed (auto simp: dispatch_def inert_def admitted_def set_close_def err_r_def)

theorem unauthenticated_confined_witness:
  "\<exists>t. dispatch demo demo_srv (demo_hdr CMD_TREE_CONNECT) [] (demo_conn []) = Some (None, t) \<and>
     g_sessions t = [] \<and> g_w t = () \<and> pc_channels (g_pc t) = []"
proof -
  have c: "pc_channels (g_pc (demo_conn [])) = []" "g_sessions (demo_conn []) = []"
    by (simp_all add: demo_conn_def proto_conn_new_def)
  have "h_command (demo_hdr CMD_TREE_CONNECT) \<notin> {CMD_NEGOTIATE, CMD_SESSION_SETUP}" by (simp add: demo_hdr_def)
  from unauthenticated_confined [OF this, of "demo_conn []" demo demo_srv "[]"] show ?thesis using c by auto
qed



end
