(* ===== verification/Invariant.thy ===== *)
theory Invariant
  imports Access
begin

text \<open>
  The well-formedness invariant of the server and connection state, and the contract every
  request handler keeps: it returns, leaves the state well formed, and only appends to the
  response buffer, either nothing or at least a header.
\<close>

section \<open>Well-formed state\<close>

definition file_ok :: "srv \<Rightarrow> open_file \<Rightarrow> bool" where
  "file_ok srv f \<longleftrightarrow> unat (of_share_idx f) < length (c_shares (sv_cfg srv))"

definition handles_ok :: "srv \<Rightarrow> handle_table \<Rightarrow> bool" where
  "handles_ok srv t \<longleftrightarrow> ht_ok t \<and> (\<forall>fid f. ht_lookup t fid = Some f \<longrightarrow> file_ok srv f)"

definition tree_ok :: "srv \<Rightarrow> tree \<Rightarrow> bool" where
  "tree_ok srv t \<longleftrightarrow> t_ipc t \<or> unat (t_share_idx t) < length (c_shares (sv_cfg srv))"

definition trees_ok :: "srv \<Rightarrow> (u32, tree) hmap \<Rightarrow> bool" where
  "trees_ok srv m \<longleftrightarrow> hmap_ok m \<and> (\<forall>k t. hget m k = Some t \<longrightarrow> tree_ok srv t)"

definition sess_ok :: "srv \<Rightarrow> session \<Rightarrow> bool" where
  "sess_ok srv ss \<longleftrightarrow> length (ss_key ss) = 16 \<and> handles_ok srv (ss_handles ss) \<and> trees_ok srv (ss_trees ss)"

definition reg_ok :: "srv \<Rightarrow> registry \<Rightarrow> bool" where
  "reg_ok srv m \<longleftrightarrow> hmap_ok m \<and> (\<forall>k ss. hget m k = Some ss \<longrightarrow> sess_ok srv ss)"

definition enc_ok :: "enc_ctx \<Rightarrow> bool" where
  "enc_ok e \<longleftrightarrow> length (ec_c2s e) = 32 \<and> length (ec_s2c e) = 32"

definition chan_ok :: "channel \<Rightarrow> bool" where
  "chan_ok ch \<longleftrightarrow> length (ch_preauth ch) = 64 \<and>
     (\<forall>sc. ch_sign ch = Some sc \<longrightarrow> length (sc_key sc) = 16) \<and>
     (\<forall>e. ch_enc ch = Some e \<longrightarrow> enc_ok e)"

definition chans_ok :: "(u64, channel) hmap \<Rightarrow> bool" where
  "chans_ok m \<longleftrightarrow> hmap_ok m \<and> (\<forall>k ch. hget m k = Some ch \<longrightarrow> chan_ok ch)"

definition pc_ok :: "proto_conn \<Rightarrow> bool" where
  "pc_ok pc \<longleftrightarrow> chans_ok (pc_channels pc) \<and> msg_ok pc \<and> credits_ok pc \<and> length (pc_preauth_neg pc) = 64"

definition st_ok :: "srv \<Rightarrow> 'w st \<Rightarrow> bool" where
  "st_ok srv s \<longleftrightarrow> reg_ok srv (g_sessions s) \<and> pc_ok (g_pc s) \<and> lt_ok (g_leases s)"

text \<open>What the configuration guarantees of the immutable part: every access-list entry can be
  parsed, share indices fit 32 bits, and the server id and interface addresses have their
  lengths.\<close>

definition srv_ok :: "srv \<Rightarrow> bool" where
  "srv_ok srv \<longleftrightarrow> (\<forall>sh \<in> set (c_shares (sv_cfg srv)). list_ok (sv_cfg srv) sh) \<and>
     length (c_shares (sv_cfg srv)) \<le> 2 ^ 32 \<and> length (sv_guid srv) = 16 \<and>
     list_all (\<lambda>i. ip_ok (if_addr i)) (sv_interfaces srv)"

text \<open>What is assumed of the host: reads and writes return, random bytes are as many as asked for
  and, while fewer than \<open>SESSION_ROOM\<close> sessions exist, eventually give a fresh session id, and the
  crypto primitives have their output lengths.\<close>

definition SESSION_ROOM :: nat where "SESSION_ROOM = 2 ^ 63"

definition host_ok :: "'w ext \<Rightarrow> bool" where
  "host_ok E \<longleftrightarrow> crypto_ok E \<and>
     (\<forall>fd n off w. pread E fd n off w \<noteq> None) \<and>
     (\<forall>fd bs off w. pwrite_all E fd bs off w \<noteq> None) \<and>
     (\<forall>n w. length (fst (os_urandom E n w)) = n) \<and>
     (\<forall>m w. length m < SESSION_ROOM \<longrightarrow> fresh_id E m w \<noteq> None)"

section \<open>A host\<close>

text \<open>The assumption can hold: a host whose random source counts.\<close>

definition demo_host :: "u64 ext" where
  "demo_host = demo_ext\<lparr>os_urandom := (\<lambda>n w. (take n (le64 w @ zbytes n), w + 1))\<rparr>"

lemma draws_demo_host: "draws demo_host n w = w + word_of_nat n"
  by (induction n arbitrary: w) (simp_all add: demo_host_def)

lemma drawn_demo_host: "drawn demo_host n w = w + word_of_nat n"
  unfolding drawn_def draws_demo_host by (simp add: demo_host_def)

lemma good_id_exists:
  assumes "length m < SESSION_ROOM"
  shows "\<exists>sid. good_id m sid"
proof -
  let ?U = "{0, U64_MAX} \<union> fst ` set m"
  have "card ?U \<le> 2 + length m"
    by (rule order_trans [OF card_Un_le]) (simp add: card_insert_if order_trans [OF card_image_le card_length])
  also have "\<dots> < card (UNIV :: u64 set)" using assms by (simp add: SESSION_ROOM_def card_word)
  finally have "?U \<noteq> UNIV" by force
  then obtain sid where "sid \<notin> ?U" by blast
  then have "good_id m sid" by (simp add: good_id_def map_of_eq_None_iff)
  then show ?thesis by blast
qed

lemma host_ok_demo: "host_ok demo_host"
proof -
  have "crypto_ok demo_host" by (simp add: crypto_ok_def demo_host_def demo_ext_def)
  moreover have "pread demo_host fd n off w \<noteq> None" for fd n off w
    by (subst pread.simps) (simp add: demo_host_def demo_ext_def)
  moreover have "pwrite_all demo_host fd bs off w \<noteq> None" for fd bs off w
    by (subst pwrite_all.simps, subst pwrite_all.simps) (simp add: demo_host_def demo_ext_def)
  moreover have "length (fst (os_urandom demo_host n w)) = n" for n w by (simp add: demo_host_def)
  moreover have "fresh_id demo_host m w \<noteq> None" if m: "length m < SESSION_ROOM" for m w
  proof -
    obtain sid where "good_id m sid" using good_id_exists [OF m] by blast
    then have "good_id m (drawn demo_host (unat (sid - w)) w)" by (simp add: drawn_demo_host)
    then show ?thesis using fresh_id_returns by fastforce
  qed
  ultimately show ?thesis by (simp add: host_ok_def)
qed

section \<open>Maps\<close>

lemma handles_okI:
  "ht_ok t' \<Longrightarrow> (\<And>fid f. ht_lookup t' fid = Some f \<Longrightarrow> file_ok srv f) \<Longrightarrow> handles_ok srv t'"
  by (simp add: handles_ok_def)

lemma trees_ok_hput [intro]: "trees_ok srv m \<Longrightarrow> tree_ok srv t \<Longrightarrow> trees_ok srv (hput k t m)"
  by (auto simp: trees_ok_def)

lemma trees_ok_hdel [intro]: "trees_ok srv m \<Longrightarrow> trees_ok srv (hdel k m)"
  by (auto simp: trees_ok_def)

lemma reg_ok_hput [intro]: "reg_ok srv m \<Longrightarrow> sess_ok srv ss \<Longrightarrow> reg_ok srv (hput k ss m)"
  by (auto simp: reg_ok_def)

lemma reg_ok_hset [intro]: "reg_ok srv m \<Longrightarrow> sess_ok srv ss \<Longrightarrow> reg_ok srv (hset k ss m)"
  by (auto simp: hset_def)

lemma reg_ok_hdel [intro]: "reg_ok srv m \<Longrightarrow> reg_ok srv (hdel k m)"
  by (auto simp: reg_ok_def)

lemma chans_ok_hput [intro]: "chans_ok m \<Longrightarrow> chan_ok ch \<Longrightarrow> chans_ok (hput k ch m)"
  by (auto simp: chans_ok_def)

lemma chans_ok_hdel [intro]: "chans_ok m \<Longrightarrow> chans_ok (hdel k m)"
  by (auto simp: chans_ok_def)

lemma sess_ok_new: "sess_ok srv session_new"
  by (simp add: sess_ok_def session_new_def handles_ok_def trees_ok_def)

lemma chan_ok_default: "chan_ok channel_default"
  by (simp add: chan_ok_def channel_default_def)

lemma pc_ok_new: "pc_ok (proto_conn_new a b c d)"
  using msg_ok_new [of a b c d]
  by (simp add: pc_ok_def chans_ok_def credits_ok_def proto_conn_new_def)

text \<open>A server with no shares, and a connection to it.\<close>

lemma srv_ok_demo: "srv_ok demo_srv"
  by (simp add: srv_ok_def demo_srv_def default_config_def)

definition demo_st :: "u64 st" where
  "demo_st = \<lparr>g_sessions = [], g_mail = [\<lparr>mb_efd = -1, mb_count = 0, mb_queue = []\<rparr>], g_leases = [], g_w = 0,
     g_pc = proto_conn_new 65536 0 0 1, g_cx = chain_new None, g_tx = []\<rparr>"

lemma st_ok_demo: "st_ok demo_srv demo_st"
  using pc_ok_new by (simp add: st_ok_def demo_st_def reg_ok_def)

text \<open>The connection state's invariant only reads these fields.\<close>

lemma msg_ok_cong:
  "pc_msg_low p = pc_msg_low q \<Longrightarrow> pc_msg_seen p = pc_msg_seen q \<Longrightarrow> msg_ok p = msg_ok q"
  by (simp add: msg_ok_def)

lemma credits_ok_cong: "pc_credits_out p = pc_credits_out q \<Longrightarrow> credits_ok p = credits_ok q"
  by (simp add: credits_ok_def)

lemma pc_ok_updates [simp]:
  "pc_ok (pc\<lparr>pc_close := x\<rparr>) = pc_ok pc"
  "pc_ok (pc\<lparr>pc_notify_active := a, pc_notify_done := d\<rparr>) = pc_ok pc"
  "pc_ok (pc\<lparr>pc_next_async_id := i, pc_notify_new := nn, pc_notify_active := a\<rparr>) = pc_ok pc"
  "pc_ok (pc\<lparr>pc_server_caps := v\<rparr>) = pc_ok pc"
  "pc_ok (pc\<lparr>pc_dialect := dl, pc_cipher := c, pc_negotiated := ng, pc_client_neg := cn\<rparr>) = pc_ok pc"
  by (simp_all add: pc_ok_def msg_ok_def credits_ok_def)

lemma pc_ok_channels:
  "pc_ok pc \<Longrightarrow> chans_ok m \<Longrightarrow> pc_ok (pc\<lparr>pc_channels := m\<rparr>)"
  by (simp add: pc_ok_def msg_ok_def credits_ok_def)

section \<open>The contract of a handler\<close>

definition resp_ext :: "bytes \<Rightarrow> bytes \<Rightarrow> bool" where
  "resp_ext a b \<longleftrightarrow> (\<exists>c. b = a @ c \<and> (c = [] \<or> 64 \<le> length c))"

text \<open>State changes before the response is written.\<close>

definition quiet :: "srv \<Rightarrow> 'w st \<Rightarrow> 'w st \<Rightarrow> bool" where
  "quiet srv s t \<longleftrightarrow> st_ok srv t \<and> g_tx t = g_tx s \<and> cx_transform_sid (g_cx t) = cx_transform_sid (g_cx s) \<and>
     length (g_mail t) = length (g_mail s) \<and> length (g_sessions t) \<le> length (g_sessions s)"

definition step_ok :: "srv \<Rightarrow> 'w st \<Rightarrow> 'w st \<Rightarrow> bool" where
  "step_ok srv s t \<longleftrightarrow> st_ok srv t \<and> resp_ext (g_tx s) (g_tx t) \<and>
     cx_transform_sid (g_cx t) = cx_transform_sid (g_cx s) \<and> length (g_mail t) = length (g_mail s) \<and>
     length (g_sessions t) \<le> length (g_sessions s)"

lemma st_ok_frames [simp]:
  "st_ok srv (put b s) = st_ok srv s" "st_ok srv (begin_r h st s) = st_ok srv s"
  "st_ok srv (err_r h st s) = st_ok srv s" "st_ok srv (simple_resp h s) = st_ok srv s"
  "st_ok srv (s\<lparr>g_tx := tx\<rparr>) = st_ok srv s" "st_ok srv (s\<lparr>g_w := w\<rparr>) = st_ok srv s"
  "st_ok srv (s\<lparr>g_cx := cx\<rparr>) = st_ok srv s" "st_ok srv (set_close s) = st_ok srv s"
  by (simp_all add: st_ok_def put_def begin_r_def err_r_def simple_resp_def set_close_def)

lemma cx_frames [simp]:
  "g_cx (put b s) = g_cx s" "g_cx (begin_r h st s) = g_cx s" "g_cx (err_r h st s) = g_cx s"
  "g_cx (simple_resp h s) = g_cx s" "g_cx (set_close s) = g_cx s" "g_cx (set_sess ss s) = g_cx s"
  "g_cx (notify_cleanup fid s) = g_cx s" "g_cx (drop_file E f s) = g_cx s"
  by (simp_all add: put_def begin_r_def err_r_def simple_resp_def set_close_def set_sess_def
      notify_cleanup_def drop_file_def split: prod.split)

lemma tx_frames [simp]:
  "g_tx (set_close s) = g_tx s" "g_tx (set_sess ss s) = g_tx s"
  "g_tx (notify_cleanup fid s) = g_tx s" "g_tx (drop_file E f s) = g_tx s"
  by (simp_all add: set_close_def set_sess_def notify_cleanup_def drop_file_def split: prod.split)

lemma mail_frames [simp]:
  "g_mail (put b s) = g_mail s" "g_mail (begin_r h st s) = g_mail s" "g_mail (err_r h st s) = g_mail s"
  "g_mail (simple_resp h s) = g_mail s" "g_mail (set_close s) = g_mail s" "g_mail (set_sess ss s) = g_mail s"
  "g_mail (notify_cleanup fid s) = g_mail s" "g_mail (drop_file E f s) = g_mail s"
  by (simp_all add: put_def begin_r_def err_r_def simple_resp_def set_close_def set_sess_def
      notify_cleanup_def drop_file_def split: prod.split)

lemma sessions_frames [simp]:
  "g_sessions (put b s) = g_sessions s" "g_sessions (begin_r h st s) = g_sessions s"
  "g_sessions (err_r h st s) = g_sessions s" "g_sessions (simple_resp h s) = g_sessions s"
  "g_sessions (set_close s) = g_sessions s" "length (g_sessions (set_sess ss s)) = length (g_sessions s)"
  "g_sessions (notify_cleanup fid s) = g_sessions s" "g_sessions (drop_file E f s) = g_sessions s"
  "g_sessions (break_leases k e s) = g_sessions s"
  by (simp_all add: put_def begin_r_def err_r_def simple_resp_def set_close_def set_sess_def
      notify_cleanup_def drop_file_def break_leases_def split: prod.split)

lemma length_post_breaks [simp]: "length (fold post_break bs m) = length m"
  by (induction bs arbitrary: m) (simp_all add: post_break_def)

lemma length_break_leases [simp]: "length (g_mail (break_leases k e s)) = length (g_mail s)"
  by (simp add: break_leases_def split: prod.split)

lemma resp_ext_refl [simp]: "resp_ext a a"
  by (simp add: resp_ext_def)

lemma length_err_resp_ext [simp]:
  "resp_ext (g_tx s) (g_tx (err_r h st s))"
  "resp_ext (g_tx s) (g_tx (put b (begin_r h st s)))"
  "resp_ext (g_tx s) (g_tx (simple_resp h s))"
  by (auto simp: resp_ext_def err_r_def err_resp_def err_body_def begin_resp_def put_def begin_r_def
      simple_resp_def)

lemma quiet_refl: "st_ok srv s \<Longrightarrow> quiet srv s s"
  by (simp add: quiet_def)

lemma quiet_trans: "quiet srv s t \<Longrightarrow> quiet srv t u \<Longrightarrow> quiet srv s u"
  by (simp add: quiet_def)

lemma quiet_step: "quiet srv s t \<Longrightarrow> step_ok srv t u \<Longrightarrow> step_ok srv s u"
  by (simp add: quiet_def step_ok_def)

lemma quiet_is_step: "quiet srv s t \<Longrightarrow> step_ok srv s t"
  by (simp add: quiet_def step_ok_def)

lemma step_err: "quiet srv s t \<Longrightarrow> step_ok srv s (err_r h st t)"
  using length_err_resp_ext(1) [of t h st] by (simp add: quiet_def step_ok_def)

lemma step_put: "quiet srv s t \<Longrightarrow> step_ok srv s (put b (begin_r h st t))"
  using length_err_resp_ext(2) [of t b h st] by (simp add: quiet_def step_ok_def)

lemma step_simple: "quiet srv s t \<Longrightarrow> step_ok srv s (simple_resp h t)"
  using length_err_resp_ext(3) [of t h] by (simp add: quiet_def step_ok_def)

lemma quiet_close: "quiet srv s t \<Longrightarrow> quiet srv s (set_close t)"
  by (simp add: quiet_def)

lemma quiet_w: "quiet srv s t \<Longrightarrow> quiet srv s (t\<lparr>g_w := w\<rparr>)"
  by (simp add: quiet_def)

lemma quiet_cx:
  "quiet srv s t \<Longrightarrow> cx_transform_sid cx = cx_transform_sid (g_cx t) \<Longrightarrow> quiet srv s (t\<lparr>g_cx := cx\<rparr>)"
  by (simp add: quiet_def)

lemma quiet_set_sess: "quiet srv s t \<Longrightarrow> sess_ok srv ss \<Longrightarrow> quiet srv s (set_sess ss t)"
  by (auto simp: quiet_def st_ok_def set_sess_def)

lemma quiet_notify: "quiet srv s t \<Longrightarrow> quiet srv s (notify_cleanup fid t)"
  by (simp add: quiet_def st_ok_def notify_cleanup_def split: prod.split)

lemma quiet_leases: "quiet srv s t \<Longrightarrow> lt_ok m \<Longrightarrow> quiet srv s (t\<lparr>g_leases := m\<rparr>)"
  by (simp add: quiet_def st_ok_def)

lemma lt_ok_break_leases: "lt_ok (g_leases s) \<Longrightarrow> lt_ok (g_leases (break_leases k e s))"
  using lt.break_ok [of "g_leases s" k e] by (auto simp: break_leases_def split: prod.split)

lemma quiet_break: "quiet srv s t \<Longrightarrow> quiet srv s (break_leases k e t)"
  using lt_ok_break_leases [of t k e] by (simp add: quiet_def st_ok_def)

lemma quiet_breaks: "quiet srv s t \<Longrightarrow> quiet srv s (fold (\<lambda>k. break_leases k e) ks t)"
  by (induction ks arbitrary: t) (simp_all add: quiet_break)

lemma lt_ok_release_lease: "lt_ok m \<Longrightarrow> lt_ok (release_lease f m)"
  using lt.release_ok by (simp add: release_lease_def split: option.split)

lemma quiet_finish_close: "quiet srv s t \<Longrightarrow> quiet srv s (snd (finish_close E f t))"
proof -
  assume q: "quiet srv s t"
  then have q1: "quiet srv s (t\<lparr>g_leases := release_lease f (g_leases t)\<rparr>)"
    by (intro quiet_leases lt_ok_release_lease) (simp_all add: quiet_def st_ok_def)
  show ?thesis
    by (auto simp: finish_close_def Let_def intro!: q1 quiet_w quiet_break split: sum.split prod.split unit.split)
qed

lemma quiet_drop: "quiet srv s t \<Longrightarrow> quiet srv s (drop_file E f t)"
  by (simp add: drop_file_def quiet_w)

lemma quiet_close_file: "quiet srv s t \<Longrightarrow> quiet srv s (close_file E f t)"
  unfolding close_file_def by (intro quiet_drop quiet_finish_close)

lemma quiet_close_files: "quiet srv s t \<Longrightarrow> quiet srv s (fold (close_file E) fs t)"
  by (induction fs arbitrary: t) (simp_all add: quiet_close_file)

lemma step_drop: "step_ok srv s t \<Longrightarrow> step_ok srv s (drop_file E f t)"
  by (simp add: drop_file_def step_ok_def)

lemmas quiet_rules = quiet_w quiet_cx quiet_set_sess quiet_notify quiet_leases quiet_break quiet_breaks
  quiet_finish_close quiet_drop quiet_close_file quiet_close_files quiet_close

lemmas step_rules = step_err step_put step_simple quiet_is_step

end
