(* ===== verification/Handlers_Ok.thy ===== *)
theory Handlers_Ok
  imports Invariant
begin

text \<open>
  Every request handler keeps the contract of \<open>Invariant\<close>.
\<close>

section \<open>Handle tables\<close>

lemma handles_ok_insert:
  assumes "handles_ok srv t" and "ht_len t < 2 ^ 32" and "file_ok srv f"
  shows "\<exists>fid t'. ht_insert f t = Some (fid, t') \<and> handles_ok srv t'"
proof -
  from assms obtain fid t' where i: "ht_insert f t = Some (fid, t')" "ht_ok t'"
    "ht_lookup t' = (ht_lookup t)(fid \<mapsto> f)"
    using ht.ins_ok [of t f] by (auto simp: handles_ok_def)
  moreover have "handles_ok srv t'"
    using assms i by (auto simp: handles_ok_def split: if_splits)
  ultimately show ?thesis by blast
qed

lemma ht_get_lookup: "ht_get t fid tr = Some f \<Longrightarrow> ht_lookup t fid = Some f \<and> of_tree_id f = tr"
  by (auto simp: ht_get_def split: option.splits if_splits)

lemma handles_ok_get: "handles_ok srv t \<Longrightarrow> ht_get t fid tr = Some f \<Longrightarrow> file_ok srv f"
  using ht_get_lookup unfolding handles_ok_def by blast

lemma handles_ok_set:
  assumes "handles_ok srv t" and "ht_get t fid tr = Some f0" and "file_ok srv f"
  shows "handles_ok srv (ht_set fid f t)"
  using assms ht.upd_ok [of t fid f] ht_get_lookup [OF assms(2)]
  by (auto simp: handles_ok_def split: if_splits)

lemma handles_ok_remove:
  assumes "handles_ok srv t" and "ht_remove fid tr t = (fo, t')"
  shows "handles_ok srv t'"
proof (cases "\<exists>f. ht_lookup t fid = Some f \<and> of_tree_id f = tr")
  case True
  with assms show ?thesis
    using ht.rem_hit [of t fid] by (fastforce simp: handles_ok_def split: if_splits)
next
  case False
  with assms show ?thesis
    using ht.rem_miss [of t fid tr] by (auto simp: handles_ok_def)
qed

lemma sess_okD:
  assumes "sess_ok srv ss"
  shows "handles_ok srv (ss_handles ss)" "trees_ok srv (ss_trees ss)" "length (ss_key ss) = 16"
  using assms by (auto simp: sess_ok_def)

lemma sess_ok_handles: "sess_ok srv ss \<Longrightarrow> handles_ok srv t \<Longrightarrow> sess_ok srv (ss\<lparr>ss_handles := t\<rparr>)"
  by (simp add: sess_ok_def)

section \<open>CREATE, CLOSE, FLUSH, READ, WRITE\<close>

lemma create_checks_room:
  "create_checks E req n ro p rel w = Inr r \<Longrightarrow> n < MAX_OPENS_PER_SESSION"
  by (simp add: create_checks_def split: if_splits)

lemma quiet_grant:
  assumes "quiet srv s t"
  shows "quiet srv s (case lo of None \<Rightarrow> t
    | Some l \<Rightarrow> t\<lparr>g_leases := lt_grant k (g l) (g_leases t)\<rparr>)"
  using assms lt.grant_ok by (auto simp: quiet_def st_ok_def split: option.split)

lemma create_finish_ok:
  assumes "quiet srv s t" and "sess_ok srv ss" and "ht_len (ss_handles ss) < MAX_OPENS_PER_SESSION"
    and "unat share_idx < length (c_shares (sv_cfg srv))"
  shows "\<exists>u. create_finish srv ss h req share_idx cid a p rel op m t = Some u \<and> step_ok srv s u"
proof -
  obtain fd is_dir writable action where op: "op = (fd, is_dir, writable, action)" by (cases op)
  obtain wid ci cg where cid: "cid = (wid, ci, cg)" by (cases cid)
  define t1 where "t1 = (if action = CREATE_ACTION_OVERWRITTEN
      then break_leases (share_idx, m_ino m) (map_option lr_key (cr_lease req)) t else t)"
  have q1: "quiet srv s t1" using assms(1) by (simp add: t1_def quiet_break)
  define grant where "grant = grants_lease srv a is_dir (cr_lease req)"
  define f where "f = \<lparr>of_fd = fd, of_path = p, of_rel = rel, of_leaf = leaf_of rel, of_share_idx = share_idx,
        of_tree_id = cx_tree_id (g_cx t1), of_is_dir = is_dir, of_writable = writable,
        of_delete_on_close = wants_delete req, of_dir = None,
        of_oplock_ino = (if grant then Some (m_ino m) else None),
        of_lease_key = map_option lr_key (cr_lease req),
        of_lease_granted = granted_state grant (cr_lease req)\<rparr>"
  obtain fid ht where i: "ht_insert f (ss_handles ss) = Some (fid, ht)" and ok: "handles_ok srv ht"
    using handles_ok_insert [OF sess_okD(1) [OF assms(2)], of f] assms(3,4) by (auto simp: f_def file_ok_def)
  define t2 where "t2 = (set_sess (ss\<lparr>ss_handles := ht\<rparr>) t1)\<lparr>g_cx := (g_cx t1)\<lparr>cx_last_fid := Some fid\<rparr>\<rparr>"
  have q2: "quiet srv s t2"
    unfolding t2_def by (intro quiet_cx quiet_set_sess q1 sess_ok_handles assms(2) ok) simp
  show ?thesis
    unfolding create_finish_def op cid prod.case Let_def t1_def [symmetric] grant_def [symmetric] f_def [symmetric] i
    by (auto intro!: step_put quiet_grant q2 [unfolded t2_def])
qed

lemma create_ok:
  assumes "st_ok srv s" and "sess_ok srv ss" and "unat (t_share_idx tree) < length (c_shares (sv_cfg srv))"
  shows "\<exists>t. create E srv ss h msg share tree cid a s = Some t \<and> step_ok srv s t"
  unfolding create_def
  by (auto simp: dest!: create_checks_room intro!: step_err quiet_w quiet_refl assms create_finish_ok
      split: option.split sum.split prod.split)

lemma close_ok:
  assumes "st_ok srv s" and "sess_ok srv ss"
  shows "step_ok srv s (close E ss h body s)"
proof -
  have r: "sess_ok srv (ss\<lparr>ss_handles := snd (ht_remove fid tr (ss_handles ss))\<rparr>)" for fid tr
    using handles_ok_remove [OF sess_okD(1) [OF assms(2)] surjective_pairing] assms(2)
    by (intro sess_ok_handles)
  show ?thesis
    unfolding close_def Let_def case_prod_beta
    by (auto intro!: step_drop step_err step_put quiet_finish_close quiet_set_sess quiet_notify quiet_refl assms(1) r
        split: option.split)
qed

lemma flush_ok: "st_ok srv s \<Longrightarrow> step_ok srv s (flush E ss h body s)"
  unfolding flush_def
  by (auto intro!: step_err step_simple quiet_w quiet_refl split: option.split sum.split prod.split unit.split)

lemma host_okD:
  assumes "host_ok E"
  shows "crypto_ok E" "pread E fd n off w \<noteq> None" "pwrite_all E fd bs off w \<noteq> None"
    "length (fst (os_urandom E n w)) = n" "length m < SESSION_ROOM \<Longrightarrow> fresh_id E m w \<noteq> None"
  using assms by (simp_all add: host_ok_def)

lemma step_w: "st_ok srv s \<Longrightarrow> step_ok srv s (s\<lparr>g_w := w\<rparr>)"
  by (simp add: step_ok_def)

lemma read_buffered_ok:
  assumes "host_ok E" and "quiet srv s t"
  shows "\<exists>u. read_buffered E h dup len off mc t = Some u \<and> step_ok srv s u"
  unfolding read_buffered_def
  by (auto simp: host_okD(2) [OF assms(1)] Let_def simp del: bind_Some_iff
      intro!: step_err step_put quiet_w assms(2) split: sum.split bind_split)

lemma read_ok:
  assumes "host_ok E" and "st_ok srv s"
  shows "\<exists>z t. read E ss h body s = Some (z, t) \<and> step_ok srv s t"
proof -
  have b: "\<exists>z u. map_option (Pair None) (read_buffered E h dup len off mc t) = Some (z, u) \<and> step_ok srv s u"
    if "quiet srv s t" for dup len off mc t
    using read_buffered_ok [OF assms(1) that] by (auto simp del: bind_Some_iff)
  note q = quiet_refl [OF assms(2)]
  show ?thesis
    unfolding read_def Let_def
    by (auto simp del: bind_Some_iff map_option_eq_Some intro!: b step_err step_w [OF assms(2)] quiet_w q
        split: option.split sum.split prod.split)
qed

lemma write_ok:
  assumes "host_ok E" and "st_ok srv s"
  shows "\<exists>t. write_handler E ss h msg tree s = Some t \<and> step_ok srv s t"
  unfolding write_handler_def Let_def
  by (auto simp: host_okD(3) [OF assms(1)] simp del: bind_Some_iff
      intro!: step_err step_put quiet_w quiet_break quiet_refl assms(2)
      split: option.split sum.split prod.split bind_split)

section \<open>QUERY\_DIRECTORY, QUERY\_INFO, SET\_INFO\<close>

lemma length_put_dir_entry: "put_dir_entry cls e = Some raw \<Longrightarrow> 8 \<le> length raw"
  by (auto simp: put_dir_entry_def Let_def split: if_splits)

lemma length_stamp_entry: "8 \<le> length e \<Longrightarrow> 8 \<le> length (stamp_entry e)"
  by (simp add: stamp_entry_def Let_def)

lemma dir_fill_last:
  "(fl_emitted a \<noteq> 0 \<longrightarrow> fl_last a + 4 \<le> length (fl_data a)) \<Longrightarrow>
     fl_emitted (dir_fill cls single n es a) \<noteq> 0 \<longrightarrow>
       fl_last (dir_fill cls single n es a) + 4 \<le> length (fl_data (dir_fill cls single n es a))"
proof (induction es arbitrary: a)
  case Nil
  then show ?case by simp
next
  case (Cons e es)
  show ?case
  proof (cases "put_dir_entry cls e")
    case None
    with Cons.prems show ?thesis by simp
  next
    case (Some raw)
    have "8 \<le> length (stamp_entry raw)"
      using Some by (intro length_stamp_entry length_put_dir_entry)
    with Some Cons show ?thesis by (cases single) (simp_all add: Let_def)
  qed
qed

lemma list_directory_ok:
  assumes "st_ok srv s" and "sess_ok srv ss" and "ht_get (ss_handles ss) (qd_fid q) tr = Some f"
  shows "\<exists>t. list_directory ss h q f d s = Some t \<and> step_ok srv s t"
proof -
  have k: "quiet srv s (set_sess (ss\<lparr>ss_handles := ht_set (qd_fid q) (f\<lparr>of_dir := Some d'\<rparr>) (ss_handles ss)\<rparr>) s)"
    for d'
    using handles_ok_get [OF sess_okD(1) [OF assms(2)] assms(3)] assms
    by (intro quiet_set_sess quiet_refl sess_ok_handles handles_ok_set [where tr = tr] sess_okD)
      (simp_all add: file_ok_def)
  note last = dir_fill_last [of "\<lparr>fl_ok = True, fl_data = [], fl_last = 0, fl_emitted = 0\<rparr>", simplified]
  show ?thesis
    unfolding list_directory_def Let_def info_resp_def using last
    by (auto simp: copy_at_def intro!: step_err step_put k)
qed

lemma query_directory_ok:
  assumes "st_ok srv s" and "sess_ok srv ss"
  shows "\<exists>t. query_directory E ss h msg s = Some t \<and> step_ok srv s t"
  unfolding query_directory_def
  by (auto intro!: step_err quiet_refl assms(1) list_directory_ok [OF assms] split: option.split sum.split)

lemma query_info_ok:
  assumes "st_ok srv s" and "sess_ok srv ss"
  shows "\<exists>t. query_info E srv ss h body s = Some t \<and> step_ok srv s t"
proof -
  have f: "fs_info E srv g cls w \<noteq> None" if "ht_get (ss_handles ss) fid tr = Some g" for fid tr g cls w
    using handles_ok_get [OF sess_okD(1) [OF assms(2)] that]
    by (simp add: fs_info_def file_ok_def idx_def Let_def)
  show ?thesis
    unfolding query_info_def info_resp_def
    by (auto simp: f simp del: bind_Some_iff intro!: step_err step_put quiet_refl assms(1)
        split: option.split sum.split bind_split)
qed

lemma set_disposition_share: "of_share_idx (snd (set_disposition E f d w)) = of_share_idx f"
  by (simp add: set_disposition_def split: list.split option.split)

lemma set_rename_share: "of_share_idx (snd (snd (fst (set_rename E f d root w)))) = of_share_idx f"
  by (simp add: set_rename_def Let_def split: option.split prod.split sum.split unit.split)

lemma apply_set_info_share: "of_share_idx (snd (snd (fst (apply_set_info E f cls d root w)))) = of_share_idx f"
  by (simp add: apply_set_info_def Let_def case_prod_beta set_disposition_share set_rename_share
      split: option.split sum.split unit.split)

lemma set_info_ok:
  assumes "st_ok srv s" and "sess_ok srv ss"
  shows "step_ok srv s (set_info E ss h msg share ro s)"
proof -
  have k: "sess_ok srv (ss\<lparr>ss_handles := ht_set fid f' (ss_handles ss)\<rparr>)"
    if g: "ht_get (ss_handles ss) fid tr = Some f" and a: "apply_set_info E f cls d root w = ((st, b, f'), w')"
    for fid tr f f' cls d root w st b w'
    using handles_ok_get [OF sess_okD(1) [OF assms(2)] g] apply_set_info_share [of E f cls d root w] a assms(2) g
    by (intro sess_ok_handles handles_ok_set sess_okD) (simp_all add: file_ok_def)
  show ?thesis
    unfolding set_info_def Let_def
    by (auto intro!: step_err step_put quiet_breaks quiet_set_sess quiet_w quiet_refl assms(1) k
        split: option.split prod.split)
qed

section \<open>LOCK, CHANGE\_NOTIFY, IOCTL, CANCEL, LOGOFF\<close>

lemma lock_ok: "st_ok srv s \<Longrightarrow> step_ok srv s (lock E ss h body s)"
  unfolding lock_def
  by (auto intro!: step_err step_put quiet_w quiet_refl split: option.split prod.split)

lemma change_notify_ok:
  assumes "st_ok srv s"
  shows "step_ok srv s (change_notify ss h body s)"
proof -
  have "step_ok srv s (pend_notify h flags ol fid flt p s)" for flags ol fid flt p
    using assms
    by (auto simp: pend_notify_def Let_def step_ok_def st_ok_def resp_ext_def err_body_def begin_resp_async_def)
  then show ?thesis
    unfolding change_notify_def by (auto intro!: step_err quiet_refl assms split: option.split)
qed

lemma encode_interface_total:
  "list_all (\<lambda>i. ip_ok (if_addr i)) ifs \<Longrightarrow> encode_interface_info ifs \<noteq> None"
  using patch_iface_entries [of ifs "[]"] by (simp add: encode_interface_info_def iface_entries_eq)

lemma ioctl_ok:
  assumes "srv_ok srv" and "st_ok srv s"
  shows "\<exists>t. ioctl srv h msg s = Some t \<and> step_ok srv s t"
proof -
  have "encode_interface_info (filter (\<lambda>i. \<not> if_loopback i) (sv_interfaces srv)) \<noteq> None"
    using assms(1) by (intro encode_interface_total) (auto simp: srv_ok_def list_all_iff)
  moreover have "step_ok srv s (set_close s)" using assms(2) by (simp add: step_ok_def)
  ultimately show ?thesis
    unfolding ioctl_def
    by (auto simp del: bind_Some_iff intro!: step_err step_put quiet_refl assms(2) split: option.split bind_split)
qed

lemma cancel_ok: "st_ok srv s \<Longrightarrow> step_ok srv s (cancel h s)"
  by (simp add: cancel_def step_ok_def st_ok_def Let_def split: option.split)

lemma st_ok_sessions: "st_ok srv s \<Longrightarrow> reg_ok srv m \<Longrightarrow> st_ok srv (s\<lparr>g_sessions := m\<rparr>)"
  by (simp add: st_ok_def)

lemma st_ok_channels: "st_ok srv s \<Longrightarrow> chans_ok m \<Longrightarrow> st_ok srv (s\<lparr>g_pc := (g_pc s)\<lparr>pc_channels := m\<rparr>\<rparr>)"
  by (simp add: st_ok_def pc_ok_channels)

lemma quiet_sessions: "quiet srv s t \<Longrightarrow> reg_ok srv m \<Longrightarrow> length m \<le> length (g_sessions t) \<Longrightarrow> quiet srv s (t\<lparr>g_sessions := m\<rparr>)"
  by (simp add: quiet_def st_ok_def)

lemma quiet_reg: "quiet srv s t \<Longrightarrow> reg_ok srv (g_sessions t)"
  by (simp add: quiet_def st_ok_def)

lemma end_session_quiet: "quiet srv s t \<Longrightarrow> quiet srv s (end_session E sid t)"
  unfolding end_session_def reg_remove_def
  by (auto intro!: quiet_close_files quiet_sessions length_hdel_le dest: quiet_reg split: option.split)

end
