(* ===== verification/Setup_Ok.thy ===== *)
theory Setup_Ok
  imports Handlers_Ok
begin

text \<open>
  The session, tree and connection set-up handlers keep the contract of \<open>Invariant\<close>.
\<close>

section \<open>Sessions and trees\<close>

lemma quiet_channels:
  "quiet srv s t \<Longrightarrow> chans_ok m \<Longrightarrow> quiet srv s (t\<lparr>g_pc := (g_pc t)\<lparr>pc_channels := m\<rparr>\<rparr>)"
  by (simp add: quiet_def st_ok_channels)

lemma quiet_chans: "quiet srv s t \<Longrightarrow> chans_ok (pc_channels (g_pc t))"
  by (simp add: quiet_def st_ok_def pc_ok_def)

lemma st_ok_sess: "st_ok srv s \<Longrightarrow> hget (g_sessions s) sid = Some ss \<Longrightarrow> sess_ok srv ss"
  by (simp add: st_ok_def reg_ok_def)

lemma st_ok_chan: "st_ok srv s \<Longrightarrow> hget (pc_channels (g_pc s)) sid = Some ch \<Longrightarrow> chan_ok ch"
  by (simp add: st_ok_def pc_ok_def chans_ok_def)

lemma quiet_drop_channel:
  assumes "quiet srv s t" and "sess_ok srv ss"
  shows "quiet srv s (snd (drop_channel sid ss t))"
  using assms by (auto simp: drop_channel_def Let_def sess_ok_def intro!: quiet_sessions reg_ok_hset dest: quiet_reg)

lemma logoff_ok:
  assumes "st_ok srv s"
  shows "step_ok srv s (logoff E h s)"
proof -
  have q: "quiet srv s (s\<lparr>g_pc := (g_pc s)\<lparr>pc_channels := hdel sid (pc_channels (g_pc s))\<rparr>\<rparr>)" for sid
    using assms by (intro quiet_channels quiet_refl chans_ok_hdel quiet_chans [of srv s])
  show ?thesis
    unfolding logoff_def Let_def reg_get_def case_prod_beta
    using assms
    by (auto intro!: step_err step_simple end_session_quiet quiet_drop_channel q quiet_refl
        dest: st_ok_sess split: option.split)
qed

lemma disconnect_loop_ok:
  "quiet srv s t \<Longrightarrow> handles_ok srv ht \<Longrightarrow> disconnect_loop E tid fids ht t = (ht', t') \<Longrightarrow>
     quiet srv s t' \<and> handles_ok srv ht'"
proof (induction fids arbitrary: ht t)
  case Nil
  then show ?case by simp
next
  case (Cons fid fids)
  obtain fo ht1 where r: "ht_remove fid tid ht = (fo, ht1)" by fastforce
  have h: "handles_ok srv ht1" by (rule handles_ok_remove [OF Cons.prems(2) r])
  have q: "quiet srv s (notify_cleanup fid (case fo of None \<Rightarrow> t | Some f \<Rightarrow> close_file E f t))"
    using Cons.prems(1) by (auto intro!: quiet_notify quiet_close_file split: option.split)
  from Cons.IH [OF q h] Cons.prems(3) r show ?case by (simp add: Let_def)
qed

lemma tree_disconnect_ok:
  assumes "st_ok srv s" and "sess_ok srv ss"
  shows "step_ok srv s (tree_disconnect E ss h s)"
proof -
  let ?tid = "cx_tree_id (g_cx s)"
  obtain ht t where d: "disconnect_loop E ?tid (ids_in_tree (ss_handles ss) ?tid) (ss_handles ss) s = (ht, t)"
    by fastforce
  have "quiet srv s t" "handles_ok srv ht"
    using disconnect_loop_ok [OF quiet_refl [OF assms(1)] sess_okD(1) [OF assms(2)] d] by simp_all
  with d show ?thesis
    using assms(2)
    by (auto simp: tree_disconnect_def Let_def sess_ok_def intro!: step_simple quiet_set_sess)
qed

lemma position_lt: "position P xs = Some i \<Longrightarrow> i < length xs"
  by (induction xs arbitrary: i) (auto split: if_splits)

lemma check_total: "list_ok cfg sh \<Longrightarrow> check cfg sh who \<noteq> None"
  by (auto simp: check_def list_ok_def any_matches_eq simp del: bind_Some_iff split: bind_split)

lemma connect_tree_ok:
  assumes "srv_ok srv"
  shows "\<exists>r. connect_tree srv ss p = Some r \<and> (\<forall>t. r = Inr t \<longrightarrow> tree_ok srv t)"
proof -
  let ?shares = "c_shares (sv_cfg srv)"
  have "\<exists>r. (case position P ?shares of None \<Rightarrow> Some (Inl e)
      | Some i \<Rightarrow> do { share \<leftarrow> idx ?shares (unat (word_of_nat i :: u32)); acc \<leftarrow> check (sv_cfg srv) share who;
          Some (case acc of Denied \<Rightarrow> Inl e'
            | ReadOnly \<Rightarrow> Inr \<lparr>t_share_idx = word_of_nat i, t_ipc = False, t_read_only = True\<rparr>
            | ReadWrite \<Rightarrow> Inr \<lparr>t_share_idx = word_of_nat i, t_ipc = False, t_read_only = False\<rparr>) }) = Some r \<and>
      (\<forall>t. r = Inr t \<longrightarrow> tree_ok srv t)" for P e e' who
  proof (cases "position P ?shares")
    case None
    then show ?thesis by simp
  next
    case (Some i)
    have i: "i < length ?shares" by (rule position_lt [OF Some])
    have u: "unat (word_of_nat i :: u32) = i" using i assms by (simp add: srv_ok_def unat_of_nat)
    have "?shares ! i \<in> set ?shares" using i by simp
    then have "check (sv_cfg srv) (?shares ! i) who \<noteq> None"
      using assms by (intro check_total) (simp add: srv_ok_def)
    then obtain acc where "check (sv_cfg srv) (?shares ! i) who = Some acc" by blast
    with Some i u show ?thesis
      by (cases acc) (simp_all add: idx_def tree_ok_def)
  qed
  then show ?thesis
    unfolding connect_tree_def Let_def by (auto simp: tree_ok_def)
qed

lemma tree_connect_ok:
  assumes "srv_ok srv" and "st_ok srv s" and "sess_ok srv ss"
  shows "\<exists>t. tree_connect srv ss h msg s = Some t \<and> step_ok srv s t"
proof (cases "parse_tree_connect msg")
  case None
  then show ?thesis by (auto simp: tree_connect_def intro!: step_err quiet_refl assms)
next
  case (Some p)
  obtain r where r: "connect_tree srv ss p = Some r" and ok: "\<And>t. r = Inr t \<Longrightarrow> tree_ok srv t"
    using connect_tree_ok [OF assms(1)] by blast
  have "sess_ok srv (ss\<lparr>ss_next_tree_id := tid, ss_trees := hput tid t (ss_trees ss)\<rparr>)" if "r = Inr t" for tid t
    using ok [OF that] assms(3) by (auto simp: sess_ok_def)
  with Some r show ?thesis
    using assms(2)
    by (auto simp: tree_connect_def Let_def intro!: step_err step_put quiet_cx quiet_set_sess quiet_refl
        split: sum.split)
qed

section \<open>NEGOTIATE\<close>

lemma copy_at_ext:
  assumes "start \<le> off" and "off + length ys \<le> length (pre @ c)" and "length pre = start"
  shows "\<exists>c'. copy_at (pre @ c) off ys = Some (pre @ c') \<and> length c' = length c"
proof -
  have "copy_at (pre @ c) off ys = Some (pre @ (take (off - start) c @ ys @ drop (off - start + length ys) c))"
    using assms by (simp add: copy_at_def)
  moreover have "length (take (off - start) c @ ys @ drop (off - start + length ys) c) = length c"
    using assms by simp
  ultimately show ?thesis by blast
qed

lemma pad8_ext: "\<exists>k. pad8 (pre @ c) base = pre @ c @ zbytes k"
  using pad8_prefix [of "pre @ c" base] by auto

lemma negotiate_contexts_ok:
  assumes "128 \<le> length c"
  shows "\<exists>c'. negotiate_contexts salt cipher (length pre) (pre @ c) = Some (pre @ c') \<and> 64 \<le> length c'"
proof -
  obtain k where k: "pad8 (pre @ c) (length pre) = pre @ c @ zbytes k" using pad8_ext by blast
  define c1 where "c1 = c @ zbytes k @ le16 1 @ le16 38 @ le32 0 @ le16 1 @ le16 32 @ le16 1 @ salt"
  obtain k2 where k2: "pad8 (pre @ c1) (length pre) = pre @ c1 @ zbytes k2" using pad8_ext by blast
  define c2 where "c2 = (if cipher \<noteq> 0 then c1 @ zbytes k2 @ le16 2 @ le16 4 @ le32 0 @ le16 1 @ le16 cipher else c1)"
  define count :: u16 where "count = (if cipher \<noteq> 0 then 2 else 1)"
  have l: "128 \<le> length c2" using assms by (simp add: c2_def c1_def)
  have e: "negotiate_contexts salt cipher (length pre) (pre @ c) =
      patch32 (pre @ c2) (length pre + 64 + 60) (word_of_nat (length (c @ zbytes k))) \<bind>
      (\<lambda>tx. copy_at tx (length pre + 64 + 6) (le16 count))"
    using k2 unfolding negotiate_contexts_def k c1_def c2_def count_def by (simp add: Let_def)
  obtain c3 where c3: "patch32 (pre @ c2) (length pre + 64 + 60) (word_of_nat (length (c @ zbytes k))) = Some (pre @ c3)"
      "length c3 = length c2"
    using copy_at_ext [of "length pre" "length pre + 64 + 60" "le32 (word_of_nat (length (c @ zbytes k)))" pre c2] l
    by (auto simp: patch32_def)
  obtain c4 where "copy_at (pre @ c3) (length pre + 64 + 6) (le16 count) = Some (pre @ c4)" "length c4 = length c3"
    using copy_at_ext [of "length pre" "length pre + 64 + 6" "le16 count" pre c3] l c3(2) by auto
  with c3 l show ?thesis unfolding e by auto
qed

lemma negotiate_body_ok:
  assumes "srv_ok srv" and "quiet srv s t"
  shows "\<exists>u. negotiate_body E srv d c (length (g_tx t)) (t\<lparr>g_tx := begin_resp (g_tx t) h SUCCESS False 0 0\<rparr>) = Some u \<and>
    step_ok srv s u"
proof -
  let ?t = "t\<lparr>g_tx := begin_resp (g_tx t) h SUCCESS False 0 0\<rparr>"
  define b where "b = drop (length (g_tx t)) (g_tx ?t) @ negotiate_fixed E srv d ?t"
  have tx: "g_tx (put (negotiate_fixed E srv d ?t) ?t) = g_tx t @ b"
    by (simp add: b_def put_def begin_resp_def)
  have l: "128 \<le> length b" using assms(1)
    by (simp add: b_def begin_resp_def negotiate_fixed_def srv_ok_def)
  have ok: "st_ok srv (t\<lparr>g_tx := x, g_pc := (g_pc t)\<lparr>pc_server_caps := v\<rparr>\<rparr>) = st_ok srv t"
    "st_ok srv (t\<lparr>g_pc := (g_pc t)\<lparr>pc_server_caps := v\<rparr>\<rparr>) = st_ok srv t" for x v
    by (simp_all add: st_ok_def)
  obtain c' where c': "negotiate_contexts (fst (os_urandom E 32 (g_w t))) c (length (g_tx t)) (g_tx t @ b) = Some (g_tx t @ c')"
      "64 \<le> length c'"
    using negotiate_contexts_ok [OF l] by blast
  show ?thesis
    using assms(2) c' l tx
    by (auto simp: negotiate_body_def Let_def step_ok_def quiet_def ok resp_ext_def case_prod_beta put_def)
qed

lemma negotiate_ok:
  assumes "srv_ok srv" and "st_ok srv s"
  shows "\<exists>t. negotiate E srv h msg s = Some t \<and> step_ok srv s t"
proof -
  have q: "quiet srv s (s\<lparr>g_pc := (g_pc s)\<lparr>pc_dialect := dl, pc_cipher := c, pc_negotiated := ng, pc_client_neg := cn\<rparr>\<rparr>)"
    for dl c ng cn
    using assms(2) by (simp add: quiet_def st_ok_def)
  have n: "\<exists>u. negotiate_body E srv d c (length (g_tx s))
      (s\<lparr>g_pc := (g_pc s)\<lparr>pc_dialect := dl, pc_cipher := ci, pc_negotiated := ng, pc_client_neg := cn\<rparr>,
         g_tx := begin_resp (g_tx s) h SUCCESS False 0 0\<rparr>) = Some u \<and> step_ok srv s u" for d c dl ci ng cn
    using negotiate_body_ok [OF assms(1) q] by simp
  have e: "\<exists>t. Some (err_r h e s) = Some t \<and> step_ok srv s t" for e
    using assms(2) by (simp add: step_err quiet_refl)
  show ?thesis
    unfolding negotiate_def Let_def
    using assms(2) n e
    by (auto simp: case_prod_beta simp del: option.inject intro: quiet_is_step quiet_close quiet_refl
        split: option.split prod.split)
qed

section \<open>SESSION\_SETUP\<close>

lemma quiet_put_channel: "quiet srv s t \<Longrightarrow> chan_ok ch \<Longrightarrow> quiet srv s (put_channel sid ch t)"
  using quiet_channels [of srv s t "hput sid ch (pc_channels (g_pc t))"] quiet_chans [of srv s t]
  by (auto simp: put_channel_def)

lemma quiet_del_channel: "quiet srv s t \<Longrightarrow> quiet srv s (del_channel sid t)"
  using quiet_channels [of srv s t "hdel sid (pc_channels (g_pc t))"] quiet_chans [of srv s t]
  by (auto simp: del_channel_def)

lemma quiet_put_session: "quiet srv s t \<Longrightarrow> sess_ok srv ss \<Longrightarrow> quiet srv s (put_session sid ss t)"
  by (auto simp: put_session_def intro!: quiet_sessions dest: quiet_reg)

lemma put_session_pc [simp]: "g_pc (put_session sid ss s) = g_pc s"
  by (simp add: put_session_def)

lemma quiet_set_sid: "quiet srv s t \<Longrightarrow> quiet srv s (set_sid sid t)"
  by (simp add: set_sid_def quiet_cx)

lemma step_ss_resp: "quiet srv s t \<Longrightarrow> step_ok srv s (ss_resp h st sid fl b t)"
  by (simp add: ss_resp_def quiet_def step_ok_def resp_ext_def begin_resp_def)

lemma step_refuse: "quiet srv s t \<Longrightarrow> step_ok srv s (refuse h st sid t)"
  by (simp add: refuse_def step_err quiet_del_channel)

lemma step_drop_setup: "quiet srv s t \<Longrightarrow> step_ok srv s (drop_setup h st sid t)"
  using quiet_reg [OF quiet_del_channel, of srv s t sid]
  by (auto simp: drop_setup_def Let_def reg_remove_def intro!: step_err quiet_sessions quiet_del_channel length_hdel_le)

lemmas setup_rules = quiet_put_channel quiet_put_session quiet_set_sid quiet_w quiet_refl
  step_ss_resp step_refuse step_drop_setup step_err

text \<open>The contract of a handler that may add one session.\<close>

definition grow_ok :: "srv \<Rightarrow> 'w st \<Rightarrow> 'w st \<Rightarrow> bool" where
  "grow_ok srv s t \<longleftrightarrow> st_ok srv t \<and> resp_ext (g_tx s) (g_tx t) \<and>
     cx_transform_sid (g_cx t) = cx_transform_sid (g_cx s) \<and> length (g_mail t) = length (g_mail s) \<and>
     length (g_sessions t) \<le> Suc (length (g_sessions s))"

lemma step_grow: "step_ok srv s t \<Longrightarrow> grow_ok srv s t"
  by (simp add: step_ok_def grow_ok_def)

lemma quiet_grow: "quiet srv s t \<Longrightarrow> grow_ok srv t u \<Longrightarrow> grow_ok srv s u"
  by (simp add: quiet_def grow_ok_def)

lemma created_grow:
  "step_ok srv (s\<lparr>g_sessions := hput sid ss (g_sessions s), g_w := w\<rparr>) u \<Longrightarrow> grow_ok srv s u"
  by (auto simp: step_ok_def grow_ok_def length_hput split: if_splits)

lemma reg_create_ok:
  assumes "host_ok E" and "reg_ok srv m" and "length m < SESSION_ROOM"
  shows "\<exists>sid w'. reg_create E m w = Some (sid, hput sid session_new m, w') \<and>
    reg_ok srv (hput sid session_new m)"
proof -
  obtain sid w' where "fresh_id E m w = Some (sid, w')" using host_okD(5) [OF assms(1,3)] by fastforce
  then show ?thesis using assms(2) sess_ok_new by (auto simp: reg_create_def)
qed

lemma hash_preauth_length:
  "crypto_ok E \<Longrightarrow> length pre = 64 \<Longrightarrow> length (hash_preauth E d pre msg) = 64"
  by (simp add: hash_preauth_def crypto_okD)

lemma keyed_channel_ok:
  assumes "crypto_ok E" and "chan_ok ch" and "length key = 16"
  shows "\<exists>ch' fl. keyed_channel E srv pc key sr ch = Some (ch', fl) \<and> chan_ok ch'"
proof -
  have k: "length (sc_key (derive_sign_ctx E d key p)) = 16" for d p
    using assms(1,3) by (simp add: derive_sign_ctx_def kdf128_def crypto_okD)
  obtain c s where "smb311_encryption_keys E (pc_cipher pc) key (ch_preauth ch) = Some (c, s)" "length c = 32" "length s = 32"
    using encryption_keys_total [OF assms(1)] by blast
  with k assms(2) show ?thesis
    by (simp add: keyed_channel_def Let_def enc_ctx_of_def chan_ok_def enc_ok_def)
qed

lemma ntlm_bind_ok:
  assumes "host_ok E" and "quiet srv s t" and "sess_ok srv ss" and "chan_ok ch"
  shows "\<exists>u. ntlm_bind E srv h sid sr blob auth chal ss ch t = Some u \<and> step_ok srv s u"
proof -
  have c: "crypto_ok E" by (rule host_okD(1) [OF assms(1)])
  have "verify_ntlmv2 E nt a ch \<noteq> None" for nt a ch
    by (rule verify_ntlmv2_key [OF c, of nt a ch]) simp
  then have "bind_ok E srv ss auth chal \<noteq> None"
    by (simp add: bind_ok_def del: not_None_eq split: option.split)
  then obtain ok where ok: "bind_ok E srv ss auth chal = Some ok" by blast
  have "length (ss_key ss) = 16" using assms(3) by (simp add: sess_ok_def)
  then obtain ch' fl where k: "keyed_channel E srv (g_pc t) (ss_key ss) sr ch = Some (ch', fl)" "chan_ok ch'"
    using keyed_channel_ok [OF c assms(4)] by blast
  have "sess_ok srv (ss\<lparr>ss_channels := n\<rparr>)" for n using assms(3) by (simp add: sess_ok_def)
  then show ?thesis using assms(2) k unfolding ntlm_bind_def ok by (auto intro!: setup_rules)
qed

lemma ntlm_verdict_ok:
  assumes "crypto_ok E"
  shows "\<exists>v. ntlm_verdict E srv auth chal = Some v \<and> (\<forall>k u. v = UserV k u \<longrightarrow> length k = 16)"
proof -
  have r: "\<exists>v. map_option (\<lambda>r. case r of Some key \<Rightarrow> UserV key u | None \<Rightarrow> Reject) (verify_ntlmv2 E nt a chal) = Some v \<and>
      (\<forall>k u. v = UserV k u \<longrightarrow> length k = 16)" for nt a u
    by (rule verify_ntlmv2_key [OF assms, of nt a chal]) (auto split: option.split)
  show ?thesis
    unfolding ntlm_verdict_def using r by (simp split: option.split)
qed

lemma ntlm_first_auth_ok:
  assumes "host_ok E" and "quiet srv s t" and "sess_ok srv ss" and "chan_ok ch"
  shows "\<exists>u. ntlm_first_auth E srv h sid sr blob auth chal ss ch t = Some u \<and> step_ok srv s u"
proof -
  have c: "crypto_ok E" by (rule host_okD(1) [OF assms(1)])
  obtain v where v: "ntlm_verdict E srv auth chal = Some v" and key: "\<And>k u. v = UserV k u \<Longrightarrow> length k = 16"
    using ntlm_verdict_ok [OF c] by blast
  have ss: "sess_ok srv (ss\<lparr>ss_key := k, ss_established := e, ss_guest := g, ss_signing_required := q, ss_user := u,
      ss_channels := n\<rparr>)" if "length k = 16" for k e g q u n
    using that assms(3) by (simp add: sess_ok_def)
  have gs: "sess_ok srv (ss\<lparr>ss_established := e, ss_guest := g, ss_channels := n\<rparr>)" for e g n
    using assms(3) by (simp add: sess_ok_def)
  have ch: "chan_ok (ch\<lparr>ch_established := e\<rparr>)" for e using assms(4) by (simp add: chan_ok_def)
  show ?thesis
  proof (cases v)
    case (UserV k u)
    obtain ch' fl where "keyed_channel E srv (g_pc t) k sr ch = Some (ch', fl)" "chan_ok ch'"
      using keyed_channel_ok [OF c assms(4) key [OF UserV]] by blast
    then show ?thesis
      using assms(2) ss [OF key [OF UserV]] UserV unfolding ntlm_first_auth_def v by (auto intro!: setup_rules)
  qed (use assms(2) gs ch in \<open>auto simp: ntlm_first_auth_def v intro!: setup_rules\<close>)
qed

lemma ntlm_authenticate_leg_ok:
  assumes "host_ok E" and "st_ok srv s"
  shows "\<exists>u. ntlm_authenticate_leg E srv h msg blob sp sr s = Some u \<and> step_ok srv s u"
proof (cases "hget (pc_channels (g_pc s)) (h_session_id h)")
  case None
  then show ?thesis
    using assms(2) by (auto simp: ntlm_authenticate_leg_def Let_def set_sid_def intro!: setup_rules quiet_cx)
next
  case (Some ch)
  let ?sid = "h_session_id h"
  let ?p = "hash_preauth E (pc_dialect (g_pc s)) (ch_preauth ch) msg"
  have "chan_ok ch" by (rule st_ok_chan [OF assms(2) Some])
  then have l: "length ?p = 64" using host_okD(1) [OF assms(1)] by (simp add: chan_ok_def hash_preauth_length)
  have c: "chan_ok (ch\<lparr>ch_preauth := ?p\<rparr>)" "chan_ok (ch\<lparr>ch_preauth := ?p, ch_pending := x\<rparr>)" for x
    using \<open>chan_ok ch\<close> l by (simp_all add: chan_ok_def)
  have q: "quiet srv s (put_channel ?sid (ch\<lparr>ch_preauth := ?p, ch_pending := x\<rparr>) (set_sid ?sid s))" for x
    using assms(2) c by (intro setup_rules)
  have reg: "reg_get (g_sessions (put_channel ?sid c (set_sid ?sid s))) ?sid = hget (g_sessions s) ?sid" for c
    by (simp add: reg_get_def put_channel_def set_sid_def)
  have d: "g_pc (set_sid ?sid s) = g_pc s" by (simp add: set_sid_def)
  show ?thesis
    unfolding ntlm_authenticate_leg_def Let_def d
    using assms(2) Some c q ntlm_bind_ok [OF assms(1) q _ c(2)] ntlm_first_auth_ok [OF assms(1) q _ c(2)]
    by (auto simp: reg intro!: setup_rules dest: st_ok_sess split: option.split)
qed

lemma setup_sid_ok:
  assumes "host_ok E" and "st_ok srv s" and "length (g_sessions s) < SESSION_ROOM"
  shows "\<exists>r. setup_sid E srv h b s = Some r \<and>
    (\<forall>sid t. r = Inr (sid, t) \<longrightarrow> st_ok srv t \<and> g_pc t = g_pc s \<and> (\<forall>u. step_ok srv t u \<longrightarrow> grow_ok srv s u))"
proof -
  have r: "reg_ok srv (g_sessions s)" using assms(2) by (simp add: st_ok_def)
  obtain sid w where cr: "reg_create E (g_sessions s) (g_w s) = Some (sid, hput sid session_new (g_sessions s), w)"
      "reg_ok srv (hput sid session_new (g_sessions s))"
    using reg_create_ok [OF assms(1) r assms(3)] by blast
  let ?t = "s\<lparr>g_sessions := hput sid session_new (g_sessions s), g_w := w\<rparr>"
  have "st_ok srv ?t" using st_ok_sessions [OF assms(2) cr(2)] by simp
  then show ?thesis
    using assms(2) cr(1) by (auto simp: setup_sid_def intro!: quiet_refl intro: step_grow created_grow split: option.split)
qed

lemma ntlm_challenge_leg_ok:
  assumes "host_ok E" and "st_ok srv s" and "length (g_sessions s) < SESSION_ROOM"
  shows "\<exists>u. ntlm_challenge_leg E srv h msg sp b s = Some u \<and> grow_ok srv s u"
proof -
  obtain r where r: "setup_sid E srv h b s = Some r"
    and q: "\<And>sid t. r = Inr (sid, t) \<Longrightarrow> st_ok srv t \<and> g_pc t = g_pc s"
    and g: "\<And>sid t u. r = Inr (sid, t) \<Longrightarrow> step_ok srv t u \<Longrightarrow> grow_ok srv s u"
    using setup_sid_ok [OF assms, of h b] by blast
  have "chan_ok (channel_default\<lparr>ch_pending := p, ch_preauth := hash_preauth E d (pc_preauth_neg (g_pc s)) msg\<rparr>)" for p d
    using assms by (simp add: chan_ok_def channel_default_def hash_preauth_length host_okD st_ok_def pc_ok_def)
  then show ?thesis
    unfolding ntlm_challenge_leg_def r
    using assms(2) q
    by (auto simp: Let_def set_sid_def intro!: step_grow [OF step_err] g setup_rules quiet_cx split: sum.split prod.split)
qed

lemma ntlm_other_leg_ok:
  assumes "host_ok E" and "st_ok srv s" and "length (g_sessions s) < SESSION_ROOM"
  shows "\<exists>u. ntlm_other_leg E srv h s = Some u \<and> grow_ok srv s u"
proof -
  have r: "reg_ok srv (g_sessions s)" using assms(2) by (simp add: st_ok_def)
  obtain sid w where cr: "reg_create E (g_sessions s) (g_w s) = Some (sid, hput sid session_new (g_sessions s), w)"
      "reg_ok srv (hput sid session_new (g_sessions s))"
    using reg_create_ok [OF assms(1) r assms(3)] by blast
  have "quiet srv (s\<lparr>g_sessions := hput sid session_new (g_sessions s), g_w := w\<rparr>)
      (s\<lparr>g_sessions := hput sid session_new (g_sessions s), g_w := w\<rparr>)"
    using st_ok_sessions [OF assms(2) cr(2)] by (intro quiet_refl) simp
  moreover have "sess_ok srv (session_new\<lparr>ss_established := e, ss_guest := g, ss_channels := n\<rparr>)" for e g n
    using sess_ok_new by (simp add: sess_ok_def)
  moreover have "chan_ok (channel_default\<lparr>ch_established := e, ch_preauth := pc_preauth_neg (g_pc s)\<rparr>)" for e
    using assms by (simp add: chan_ok_def channel_default_def st_ok_def pc_ok_def)
  ultimately show ?thesis
    using assms(2) cr
    by (auto simp: ntlm_other_leg_def Let_def reg_get_def simp del: hget_hset
        intro!: created_grow step_ss_resp quiet_set_sid quiet_put_channel quiet_put_session step_grow [OF step_err] quiet_refl)
qed

lemma ntlm_session_setup_ok:
  assumes "host_ok E" and "st_ok srv s" and "length (g_sessions s) < SESSION_ROOM"
  shows "\<exists>u. ntlm_session_setup E srv h msg s = Some u \<and> grow_ok srv s u"
proof -
  have "\<exists>u. ntlm_authenticate_leg E srv h msg blob sp sr s = Some u \<and> grow_ok srv s u" for blob sp sr
    using ntlm_authenticate_leg_ok [OF assms(1,2)] step_grow by blast
  then show ?thesis
    using assms ntlm_challenge_leg_ok ntlm_other_leg_ok
    by (auto simp: ntlm_session_setup_def Let_def intro!: step_grow [OF step_err] quiet_refl
        split: option.split token.split)
qed

lemma session_setup_ok:
  assumes "host_ok E" and "st_ok srv s" and "length (g_sessions s) < SESSION_ROOM"
  shows "\<exists>u. session_setup E srv h msg s = Some u \<and> grow_ok srv s u"
  using assms ntlm_session_setup_ok [OF assms]
  by (auto simp: session_setup_def Let_def intro!: step_grow [OF step_err] quiet_refl split: option.split)

end
