(* ===== verification/Dispatch_Ok.thy ===== *)
theory Dispatch_Ok
  imports Setup_Ok
begin

text \<open>
  The dispatcher keeps the contract of \<open>Invariant\<close>, and a whole frame is processed without a
  panic: every slice and in-place write of the compound loop, the signing pass, the pre-auth
  pass and the sealing of the response is in range.
\<close>

section \<open>Dispatch\<close>

lemma consume_frame:
  assumes "pc_ok pc" and "consume_msg_ids pc mid c = (ok, pc')"
  shows "pc_ok pc'"
proof -
  have "msg_ok pc'" using consume_spec(1) [OF _ assms(2)] assms(1) by (simp add: pc_ok_def)
  then show ?thesis
    using assms by (auto simp: pc_ok_def consume_msg_ids_def Let_def credits_ok_def split: if_splits prod.splits)
qed

lemma take_credits_frame:
  assumes "pc_ok pc" and "take_credits pc h = (g, pc')"
  shows "pc_ok pc'"
proof -
  have c: "credits_ok pc" using assms(1) by (simp add: pc_ok_def)
  obtain out g where "take_credits pc h = (word_of_int g, pc\<lparr>pc_credits_out := out + g\<rparr>)" "0 \<le> out" "1 \<le> g" "g \<le> 512 - out"
    by (rule take_credits_grant [OF c])
  with assms show ?thesis by (auto simp: pc_ok_def msg_ok_def credits_ok_def)
qed

lemma resolve_chain_sid [simp]: "cx_transform_sid (resolve_chain h c) = cx_transform_sid c"
  by (simp add: resolve_chain_def)

lemma quiet_pc: "quiet srv s t \<Longrightarrow> pc_ok pc \<Longrightarrow> quiet srv s (t\<lparr>g_pc := pc\<rparr>)"
  by (simp add: quiet_def st_ok_def)

lemma admit_ok:
  assumes "st_ok srv s"
  shows "case admit E h msg s of Inl t \<Rightarrow> step_ok srv s t | Inr (h', t) \<Rightarrow> quiet srv s t"
proof -
  have pc: "pc_ok (g_pc s)" using assms by (simp add: st_ok_def)
  obtain fresh pc1 where c: "(if h_command h = CMD_CANCEL then (True, g_pc s)
      else consume_msg_ids (g_pc s) (h_msg_id h) (h_credit_charge h)) = (fresh, pc1)" by fastforce
  have p1: "pc_ok pc1" using c pc consume_frame by (auto split: if_splits)
  obtain g pc2 where t: "take_credits pc1 h = (g, pc2)" by fastforce
  have "pc_ok pc2" by (rule take_credits_frame [OF p1 t])
  with p1 t show ?thesis
    unfolding admit_def c
    by (auto simp: Let_def intro!: quiet_is_step step_err quiet_close quiet_cx quiet_pc quiet_refl assms
        split: if_splits)
qed

definition plan_ok :: "srv \<Rightarrow> 'w st \<Rightarrow> (zc_plan option \<times> 'w st) option \<Rightarrow> bool" where
  "plan_ok srv s r \<longleftrightarrow> (\<exists>z t. r = Some (z, t) \<and> grow_ok srv s t)"

lemma plan_okI [intro]: "step_ok srv s t \<Longrightarrow> plan_ok srv s (Some (z, t))"
  by (simp add: plan_ok_def step_grow)

lemma plan_ok_map: "\<exists>t. r = Some t \<and> step_ok srv s t \<Longrightarrow> plan_ok srv s (map_option (Pair z) r)"
  by (auto simp: plan_ok_def step_grow)

lemma plan_ok_grow: "\<exists>t. r = Some t \<and> grow_ok srv s t \<Longrightarrow> plan_ok srv s (map_option (Pair z) r)"
  by (auto simp: plan_ok_def)

lemma disk_command_ok:
  assumes "srv_ok srv" and "host_ok E" and "st_ok srv s" and "sess_ok srv ss"
    and "unat (t_share_idx tree) < length (c_shares (sv_cfg srv))"
  shows "plan_ok srv s (disk_command E srv ss tree h msg s)"
proof -
  have r: "plan_ok srv s (read E ss h b s)" for b
    using read_ok [OF assms(2,3)] step_grow by (fastforce simp: plan_ok_def)
  have share: "idx (c_shares (sv_cfg srv)) (unat (t_share_idx tree)) = Some (c_shares (sv_cfg srv) ! unat (t_share_idx tree))"
    using assms(5) by (simp add: idx_def)
  show ?thesis
    unfolding disk_command_def share Let_def
    by (simp add: r del: split_paired_Ex not_None_eq map_option_eq_Some)
      (auto simp del: split_paired_Ex intro!: plan_ok_map create_ok close_ok flush_ok write_ok query_directory_ok
        query_info_ok set_info_ok ioctl_ok lock_ok change_notify_ok step_err quiet_refl assms)
qed

lemma session_command_ok:
  assumes "srv_ok srv" and "host_ok E" and "st_ok srv s"
  shows "plan_ok srv s (session_command E srv h msg s)"
proof (cases "hget (g_sessions s) (cx_session_id (g_cx s))")
  case None
  then show ?thesis
    by (auto simp: session_command_def Let_def reg_get_def intro!: step_err quiet_refl assms)
next
  case (Some ss)
  have ss: "sess_ok srv ss" by (rule st_ok_sess [OF assms(3) Some])
  have "tree_ok srv t" if "hget (ss_trees ss) k = Some t" for k t
    using ss that by (simp add: sess_ok_def trees_ok_def)
  then have d: "plan_ok srv s (disk_command E srv ss t h msg s)" if "hget (ss_trees ss) k = Some t" "\<not> t_ipc t" for k t
    using that by (intro disk_command_ok assms ss) (auto simp: tree_ok_def)
  show ?thesis
    unfolding session_command_def Let_def
    by (auto simp: Some reg_get_def intro!: step_err quiet_refl assms plan_ok_map tree_connect_ok ss tree_disconnect_ok
        ioctl_ok d split: option.split)
qed

lemma plan_ok_quiet: "quiet srv s t \<Longrightarrow> plan_ok srv t r \<Longrightarrow> plan_ok srv s r"
  by (auto simp: plan_ok_def intro: quiet_grow)

lemma dispatch_ok:
  assumes "srv_ok srv" and "host_ok E" and "st_ok srv s" and "length (g_sessions s) < SESSION_ROOM"
  shows "plan_ok srv s (dispatch E srv h msg s)"
proof (cases "admit E h msg s")
  case (Inl t)
  then show ?thesis using admit_ok [OF assms(3), of E h msg] by (auto simp: dispatch_def)
next
  case (Inr r)
  obtain h' t where r: "r = (h', t)" by fastforce
  have q: "quiet srv s t" using admit_ok [OF assms(3), of E h msg] Inr r by simp
  then have t: "st_ok srv t" "length (g_sessions t) < SESSION_ROOM" using assms(4) by (simp_all add: quiet_def)
  have "plan_ok srv t (dispatch E srv h msg s)"
    unfolding dispatch_def Inr r
    by (auto intro!: plan_ok_map [OF negotiate_ok] plan_ok_grow [OF session_setup_ok] step_simple quiet_refl cancel_ok
        logoff_ok session_command_ok assms t)
  then show ?thesis by (rule plan_ok_quiet [OF q])
qed

section \<open>The compound loop\<close>

text \<open>Response records in a buffer of \<open>n\<close> bytes: they start at \<open>lo\<close> or later and each has room for
  its header.\<close>

fun recs_fit :: "nat \<Rightarrow> resp_rec list \<Rightarrow> nat \<Rightarrow> bool" where
  "recs_fit lo [] n = (lo \<le> n)"
| "recs_fit lo (r # rs) n = (lo \<le> rr_start r \<and> recs_fit (rr_start r + 64) rs n)"

lemma recs_fit_mono: "recs_fit lo rs n \<Longrightarrow> n \<le> m \<Longrightarrow> recs_fit lo rs m"
  by (induction rs arbitrary: lo) auto

lemma recs_fit_snoc: "recs_fit lo rs n \<Longrightarrow> n \<le> rr_start r \<Longrightarrow> rr_start r + 64 \<le> m \<Longrightarrow> recs_fit lo (rs @ [r]) m"
  by (induction rs arbitrary: lo) auto

lemma recs_fit_le: "recs_fit lo rs n \<Longrightarrow> lo \<le> n"
  by (induction rs arbitrary: lo) fastforce+

lemma rec_end_bounds: "recs_fit lo rs (length tx) \<Longrightarrow> lo \<le> rec_end rs tx \<and> rec_end rs tx \<le> length tx"
  using recs_fit_le by (cases rs) (fastforce simp: rec_end_def)+

text \<open>The number of mailboxes, and a bound on the number of sessions.\<close>

definition fits :: "nat \<times> nat \<Rightarrow> 'w st \<Rightarrow> bool" where
  "fits n s \<longleftrightarrow> length (g_mail s) = fst n \<and> length (g_sessions s) \<le> snd n"

lemma fits_frames [simp]:
  "fits n (set_close s) = fits n s" "fits n (s\<lparr>g_tx := tx\<rparr>) = fits n s" "fits n (s\<lparr>g_pc := pc\<rparr>) = fits n s"
  "fits n (truncate_tx b s) = fits n s" "fits n (s\<lparr>g_w := w\<rparr>) = fits n s"
  by (simp_all add: fits_def set_close_def truncate_tx_def)

text \<open>The loop invariant: \<open>out\<close> is what the buffer held before the frame.\<close>

definition lp_ok :: "srv \<Rightarrow> bytes \<Rightarrow> bytes \<Rightarrow> u64 option \<Rightarrow> nat \<times> nat \<Rightarrow> 'w lp \<Rightarrow> bool" where
  "lp_ok srv frame out ts n l \<longleftrightarrow>
     st_ok srv (lp_s l) \<and> cx_transform_sid (g_cx (lp_s l)) = ts \<and> fits n (lp_s l) \<and>
     take (length out) (g_tx (lp_s l)) = out \<and>
     recs_fit (length out + 4) (lp_recs l) (length (g_tx (lp_s l))) \<and>
     (\<forall>r \<in> set (lp_recs l). rr_req_off r \<le> rr_req_end r \<and> rr_req_end r \<le> length frame) \<and>
     (\<forall>p. lp_prev l = Some p \<longrightarrow> length out + 4 \<le> p \<and> p + 64 \<le> length (g_tx (lp_s l)))"

lemma lp_okD:
  assumes "lp_ok srv frame out ts n l"
  shows "st_ok srv (lp_s l)" and "cx_transform_sid (g_cx (lp_s l)) = ts"
    and "take (length out) (g_tx (lp_s l)) = out"
    and "recs_fit (length out + 4) (lp_recs l) (length (g_tx (lp_s l)))"
    and "\<And>p. lp_prev l = Some p \<Longrightarrow> length out + 4 \<le> p \<and> p + 64 \<le> length (g_tx (lp_s l))"
    and "fits n (lp_s l)"
  using assms by (simp_all add: lp_ok_def)

lemma lp_ok_length: "lp_ok srv frame out ts n l \<Longrightarrow> length out + 4 \<le> length (g_tx (lp_s l))"
  by (auto simp: lp_ok_def dest: recs_fit_le)

lemma lp_ok_close: "lp_ok srv frame out ts n l \<Longrightarrow> lp_ok srv frame out ts n (l\<lparr>lp_s := set_close (lp_s l)\<rparr>)"
  by (simp add: lp_ok_def)

lemma lp_ok_off [simp]: "lp_ok srv frame out ts n (l\<lparr>lp_off := o'\<rparr>) = lp_ok srv frame out ts n l"
  by (simp add: lp_ok_def)

lemma lp_ok_mono: "lp_ok srv frame out ts (m, b) l \<Longrightarrow> b \<le> b' \<Longrightarrow> lp_ok srv frame out ts (m, b') l"
  by (simp add: lp_ok_def fits_def)

lemma copy_at_take: "copy_at xs off ys = Some zs \<Longrightarrow> n \<le> off \<Longrightarrow> take n zs = take n xs"
  by (auto simp: copy_at_def split: if_splits)

lemma link_prev_ok:
  assumes "lp_ok srv frame out ts n l"
  shows "\<exists>tx. link_prev (length out) (lp_prev l) (g_tx (lp_s l)) = Some tx \<and>
    take (length out) tx = out \<and> length (g_tx (lp_s l)) \<le> length tx"
proof (cases "lp_prev l")
  case None
  then show ?thesis using lp_okD(3) [OF assms] by (simp add: link_prev_def)
next
  case (Some p)
  let ?tx = "pad8 (g_tx (lp_s l)) (length out + 4)"
  obtain k where k: "?tx = g_tx (lp_s l) @ zbytes k" using pad8_prefix by blast
  have p: "length out + 4 \<le> p" "p + 64 \<le> length (g_tx (lp_s l))" using lp_okD(5) [OF assms Some] by simp_all
  then have "patch32 ?tx (p + 20) v \<noteq> None" for v by (simp add: k patch32_def copy_at_def)
  then obtain tx where c: "patch32 ?tx (p + 20) (word_of_nat (length ?tx - p)) = Some tx" by blast
  have "take (length out) tx = take (length out) ?tx" "length tx = length ?tx"
    using copy_at_take [OF c [unfolded patch32_def]] copy_at_length [OF c [unfolded patch32_def]] p by simp_all
  moreover have "take (length out) ?tx = out" using lp_okD(3) [OF assms] lp_ok_length [OF assms] by (simp add: k)
  ultimately show ?thesis using Some c by (simp add: link_prev_def k)
qed

text \<open>A member's dispatch on the linked buffer.\<close>

lemma lp_ok_step:
  assumes l: "lp_ok srv frame out ts (m, b) l" and tx: "take (length out) tx = out" "length (g_tx (lp_s l)) \<le> length tx"
    and st: "grow_ok srv ((lp_s l)\<lparr>g_tx := tx, g_cx := (g_cx (lp_s l))\<lparr>cx_single := sg\<rparr>\<rparr>) s"
    and r: "rr_start r = length tx" "rr_req_off r \<le> rr_req_end r" "rr_req_end r \<le> length frame"
  shows "lp_ok srv frame out ts (m, Suc b)
    (if length (g_tx s) > length tx
     then l\<lparr>lp_s := s, lp_plan := z, lp_prev := Some (length tx), lp_recs := lp_recs l @ [r]\<rparr>
     else l\<lparr>lp_s := s, lp_plan := z\<rparr>)"
proof -
  obtain c where c: "g_tx s = tx @ c" "c = [] \<or> 64 \<le> length c" using st by (auto simp: grow_ok_def resp_ext_def)
  have o: "length out + 4 \<le> length tx" using lp_ok_length [OF l] tx(2) by simp
  have s: "st_ok srv s" "cx_transform_sid (g_cx s) = ts" "fits (m, Suc b) s"
    using st lp_okD(2,6) [OF l] by (simp_all add: grow_ok_def fits_def)
  have t: "take (length out) (g_tx s) = out" using tx(1) o by (simp add: c(1))
  have f: "recs_fit (length out + 4) (lp_recs l) (length tx)" by (rule recs_fit_mono [OF lp_okD(4) [OF l] tx(2)])
  show ?thesis
  proof (cases "c = []")
    case True
    then show ?thesis using l s t f tx(2) o c(1) by (auto simp: lp_ok_def)
  next
    case False
    then have n: "64 \<le> length c" using c(2) by simp
    then have "recs_fit (length out + 4) (lp_recs l @ [r]) (length (g_tx s))"
      using recs_fit_snoc [OF f, of r] r(1) by (simp add: c(1))
    then show ?thesis using l s t n r(2,3) o False by (auto simp: lp_ok_def c(1))
  qed
qed

lemma compound_member_ok:
  assumes "srv_ok srv" and "host_ok E" and l: "lp_ok srv frame out ts (m, b) l" and "b < SESSION_ROOM"
  shows "\<exists>r. compound_member E srv frame (length out) h l = Some r \<and>
    (case r of Inl l' \<Rightarrow> lp_ok srv frame out ts (m, Suc b) l'
     | Inr l' \<Rightarrow> lp_ok srv frame out ts (m, Suc b) l' \<and> lp_off l' \<le> length frame)"
proof -
  let ?off = "lp_off l"
  define e where "e = (if h_next h > 0 then min (?off + unat (h_next h)) (length frame) else length frame)"
  obtain tx where tx: "link_prev (length out) (lp_prev l) (g_tx (lp_s l)) = Some tx"
      "take (length out) tx = out" "length (g_tx (lp_s l)) \<le> length tx"
    using link_prev_ok [OF l] by blast
  let ?s = "(lp_s l)\<lparr>g_tx := tx, g_cx := (g_cx (lp_s l))\<lparr>cx_single := (?off = 0 \<and> h_next h = 0)\<rparr>\<rparr>"
  let ?msg = "take (e - ?off) (drop ?off frame)"
  have "st_ok srv ?s" "length (g_sessions ?s) < SESSION_ROOM"
    using lp_okD(1,6) [OF l] assms(4) by (simp_all add: fits_def)
  then obtain z s where d: "dispatch E srv h ?msg ?s = Some (z, s)" and st: "grow_ok srv ?s s"
    using dispatch_ok [OF assms(1,2)] unfolding plan_ok_def by blast
  show ?thesis
  proof (cases "e < ?off + HDR_LEN")
    case True
    then show ?thesis using lp_ok_mono [OF l, of "Suc b"] unfolding compound_member_def Let_def e_def [symmetric] by simp
  next
    case False
    define r where "r = \<lparr>rr_cmd = h_command h, rr_start = length tx, rr_req_off = ?off, rr_req_end = e,
      rr_sess_id = cx_session_id (g_cx s), rr_sign = logoff_sign h ?s\<rparr>"
    define z' where "z' = (case z of None \<Rightarrow> lp_plan l | Some _ \<Rightarrow> z)"
    define l' where "l' = (if length (g_tx s) > length tx
      then l\<lparr>lp_s := s, lp_plan := z', lp_prev := Some (length tx), lp_recs := lp_recs l @ [r]\<rparr>
      else l\<lparr>lp_s := s, lp_plan := z'\<rparr>)"
    have "e \<le> length frame" by (simp add: e_def)
    then have l': "lp_ok srv frame out ts (m, Suc b) l'"
      unfolding l'_def using False by (intro lp_ok_step [OF l tx(2,3) st]) (simp_all add: r_def)
    have "compound_member E srv frame (length out) h l =
      (if h_next h = 0 then Some (Inl l')
       else if ?off + unat (h_next h) + HDR_LEN > length frame then Some (Inl (l'\<lparr>lp_off := ?off + unat (h_next h)\<rparr>))
       else Some (Inr (l'\<lparr>lp_off := ?off + unat (h_next h)\<rparr>)))"
      using False tx(1) d unfolding compound_member_def Let_def e_def [symmetric] l'_def r_def z'_def by simp
    then show ?thesis using l' by simp
  qed
qed

lemma compound_loop_ok:
  assumes "srv_ok srv" and "host_ok E"
  shows "lp_ok srv frame out ts (m, b) l \<Longrightarrow> lp_off l \<le> length frame \<Longrightarrow> b + room \<le> SESSION_ROOM \<Longrightarrow>
    \<exists>l'. compound_loop E srv frame (length out) room l = Some l' \<and> lp_ok srv frame out ts (m, b + room) l'"
proof (induction room arbitrary: b l)
  case 0
  then show ?case
    by (subst compound_loop.simps) (auto simp: slice_from_def lp_ok_close split: option.split)
next
  case (Suc n)
  have up: "lp_ok srv frame out ts (m, b + Suc n) l" by (rule lp_ok_mono [OF Suc.prems(1)]) simp
  show ?case
  proof (cases "parse_hdr (drop (lp_off l) frame)")
    case None
    then show ?thesis using Suc.prems(2) up by (subst compound_loop.simps) (simp add: slice_from_def)
  next
    case (Some h)
    obtain r where r: "compound_member E srv frame (length out) h l = Some r"
      and ok: "case r of Inl l' \<Rightarrow> lp_ok srv frame out ts (m, Suc b) l'
        | Inr l' \<Rightarrow> lp_ok srv frame out ts (m, Suc b) l' \<and> lp_off l' \<le> length frame"
      using compound_member_ok [OF assms Suc.prems(1), of h] Suc.prems(3) by auto
    have s: "slice_from frame (lp_off l) = Some (drop (lp_off l) frame)" using Suc.prems(2) by (simp add: slice_from_def)
    have "lp_ok srv frame out ts (m, b + Suc n) l'" if "lp_ok srv frame out ts (m, Suc b) l'" for l'
      by (rule lp_ok_mono [OF that]) simp
    then show ?thesis
      using Suc.prems(3) up Suc.IH [of "Suc b"] ok r
      by (subst compound_loop.simps) (auto simp: s Some lp_ok_close split: sum.splits)
  qed
qed

section \<open>The passes over the responses\<close>

lemma sign_in_place_ok:
  assumes "crypto_ok E" and "st + 64 \<le> fin" and "fin \<le> length tx"
  shows "\<exists>tx'. sign_in_place E tx st fin sc = Some tx' \<and> length tx' = length tx \<and> take st tx' = take st tx"
proof -
  define fl where "fl = le32 (u32_le (take 4 (drop (st + 16) tx)) OR FLAG_SIGNED)"
  have g: "slice_get tx (st + 16) (st + 16 + 4) = Some (take 4 (drop (st + 16) tx))"
    using assms by (simp add: slice_get_def)
  obtain t1 where t1: "copy_at tx (st + 16) fl = Some t1" using assms by (simp add: copy_at_def fl_def)
  have l1: "length t1 = length tx" by (rule copy_at_length [OF t1])
  have m: "slice_get t1 st fin = Some (take (fin - st) (drop st t1))" using assms l1 by (simp add: slice_get_def)
  define sg where "sg = smb2_signature E (sc_alg sc) (sc_key sc) (take (fin - st) (drop st t1))"
  have "length sg = 16" by (simp add: sg_def smb2_signature_length assms(1))
  then obtain t2 where t2: "copy_at t1 (st + 48) sg = Some t2" using assms l1 by (simp add: copy_at_def)
  have "sign_in_place E tx st fin sc = Some t2"
    unfolding sign_in_place_def g using t1 t2 m by (simp add: fl_def sg_def)
  moreover have "take st t2 = take st tx" using copy_at_take [OF t2, of st] copy_at_take [OF t1, of st] by simp
  ultimately show ?thesis using copy_at_length [OF t2] l1 by simp
qed

lemma sign_pass_ok:
  assumes "crypto_ok E"
  shows "recs_fit lo rs (length tx) \<Longrightarrow>
    \<exists>tx'. sign_pass E pc rs tx = Some tx' \<and> length tx' = length tx \<and> take lo tx' = take lo tx"
proof (induction rs arbitrary: lo tx)
  case Nil
  then show ?case by simp
next
  case (Cons r rs)
  then have lo: "lo \<le> rr_start r" and f: "recs_fit (rr_start r + 64) rs (length tx)" by simp_all
  have e: "rr_start r + 64 \<le> rec_end rs tx" "rec_end rs tx \<le> length tx" using rec_end_bounds [OF f] by simp_all
  obtain t where t: "(case rec_key pc r of None \<Rightarrow> Some tx | Some sc \<Rightarrow> sign_in_place E tx (rr_start r) (rec_end rs tx) sc) = Some t"
      "length t = length tx" "take (rr_start r) t = take (rr_start r) tx"
    using sign_in_place_ok [OF assms e] by (cases "rec_key pc r") auto
  obtain t' where t': "sign_pass E pc rs t = Some t'" "length t' = length t" "take (rr_start r + 64) t' = take (rr_start r + 64) t"
    using Cons.IH [of "rr_start r + 64" t] f t(2) by auto
  have "take lo t' = take lo (take (rr_start r + 64) t')" "take lo t = take lo (take (rr_start r + 64) t)"
    "take lo t = take lo (take (rr_start r) t)" "take lo tx = take lo (take (rr_start r) tx)"
    using lo by (simp_all add: min_def)
  then have "take lo t' = take lo tx" using t(3) t'(3) by metis
  then show ?case using t t' by simp
qed

lemma chans_ok_get: "pc_ok pc \<Longrightarrow> hget (pc_channels pc) k = Some ch \<Longrightarrow> chan_ok ch"
  by (simp add: pc_ok_def chans_ok_def)

lemma pc_ok_put: "pc_ok pc \<Longrightarrow> chan_ok ch \<Longrightarrow> pc_ok (pc\<lparr>pc_channels := hput k ch (pc_channels pc)\<rparr>)"
  using chans_ok_hput [of "pc_channels pc" ch k] by (simp add: pc_ok_def msg_ok_def credits_ok_def)

lemma preauth_step_ok:
  assumes "crypto_ok E" and "pc_ok pc" and "rr_start r + 64 \<le> fin" and "fin \<le> length tx"
    and "rr_req_off r \<le> rr_req_end r" and "rr_req_end r \<le> length frame"
  shows "\<exists>pc'. preauth_step E frame tx r fin pc = Some pc' \<and> pc_ok pc'"
proof -
  have n: "pc_ok (pc\<lparr>pc_preauth_neg := cr_sha512 E m\<rparr>)" for m
    using assms(1,2) by (simp add: pc_ok_def msg_ok_def credits_ok_def crypto_okD)
  have ch: "chan_ok (ch\<lparr>ch_preauth := cr_sha512 E m\<rparr>)" if "hget (pc_channels pc) k = Some ch" for k ch m
    using assms(1,2) that by (auto simp: pc_ok_def chans_ok_def chan_ok_def crypto_okD)
  have c: "pc_ok (pc\<lparr>pc_channels := hput k (ch\<lparr>ch_preauth := cr_sha512 E m\<rparr>) (pc_channels pc)\<rparr>)"
    if "hget (pc_channels pc) k = Some ch" for k ch m
    by (rule pc_ok_put [OF assms(2) ch [OF that]])
  show ?thesis
    using assms n c by (auto simp: preauth_step_def slice_get_def split: option.split)
qed

lemma preauth_pass_ok:
  assumes "crypto_ok E"
  shows "pc_ok pc \<Longrightarrow> recs_fit lo rs (length tx) \<Longrightarrow>
    \<forall>r \<in> set rs. rr_req_off r \<le> rr_req_end r \<and> rr_req_end r \<le> length frame \<Longrightarrow>
    \<exists>pc'. preauth_pass E frame tx rs pc = Some pc' \<and> pc_ok pc'"
proof (induction rs arbitrary: lo pc)
  case Nil
  then show ?case by simp
next
  case (Cons r rs)
  then have f: "recs_fit (rr_start r + 64) rs (length tx)" by simp
  obtain pc' where "preauth_step E frame tx r (rec_end rs tx) pc = Some pc'" "pc_ok pc'"
    using preauth_step_ok [OF assms Cons.prems(1), of r "rec_end rs tx" tx frame] rec_end_bounds [OF f] Cons.prems(3)
    by auto
  then show ?case using Cons.IH [OF _ f] Cons.prems(3) by simp
qed

section \<open>Frames\<close>

text \<open>What processing a frame promises: it returns, the state is well formed, the bytes queued before
  it are kept, and what it appends is nothing or one frame whose header holds its length.\<close>

definition framed :: "bytes \<Rightarrow> bool" where
  "framed c \<longleftrightarrow> c = [] \<or> (\<exists>body. c = nbt_bytes (word_of_nat (length body)) @ body)"

definition framed_st :: "srv \<Rightarrow> bytes \<Rightarrow> nat \<times> nat \<Rightarrow> 'w st \<Rightarrow> bool" where
  "framed_st srv out n t \<longleftrightarrow> st_ok srv t \<and> fits n t \<and> (\<exists>c. g_tx t = out @ c \<and> framed c)"

definition frame_ok :: "srv \<Rightarrow> bytes \<Rightarrow> nat \<times> nat \<Rightarrow> (frame_action \<times> 'w st) option \<Rightarrow> bool" where
  "frame_ok srv out n r \<longleftrightarrow> (\<exists>act t. r = Some (act, t) \<and> framed_st srv out n t)"

lemma framed_Nil [simp]: "framed []"
  by (simp add: framed_def)

lemma framed_same: "st_ok srv t \<Longrightarrow> fits n t \<Longrightarrow> g_tx t = out \<Longrightarrow> framed_st srv out n t"
  by (auto simp: framed_st_def)

lemma frame_truncate:
  assumes "st_ok srv t" and "fits n t" and "take (length out) (g_tx t) = out"
  shows "frame_ok srv out n (Some (act, truncate_tx (length out) t))"
  using assms by (auto simp: truncate_tx_def frame_ok_def intro: framed_same)

lemma finish_nbt_framed:
  assumes "take (length out) tx = out" and "length out + 4 \<le> length tx"
  shows "\<exists>c. finish_nbt_with tx (length out) (word_of_nat (length tx - length out - 4)) = Some (out @ c) \<and> framed c"
proof -
  define body where "body = drop (length out + 4) tx"
  have "length body = length tx - length out - 4" by (simp add: body_def)
  then have "finish_nbt_with tx (length out) (word_of_nat (length tx - length out - 4)) =
      Some (out @ nbt_bytes (word_of_nat (length body)) @ body)"
    using assms by (simp add: finish_nbt_with_def copy_at_def body_def)
  then show ?thesis by (auto simp: framed_def)
qed

lemma finish_frame_ok:
  assumes "st_ok srv t" and "fits n t" and "take (length out) (g_tx t) = out"
    and "length out + 4 \<le> length (g_tx t)"
  shows "\<exists>u. finish_frame (length out) t = Some u \<and> framed_st srv out n u"
  using finish_nbt_framed [OF assms(3,4)] assms(1,2) by (auto simp: finish_frame_def framed_st_def)

lemma process_smb1_ok:
  assumes "srv_ok srv" and "st_ok srv s" and "g_tx s = out @ zbytes 4" and "fits n s"
  shows "frame_ok srv out n (process_smb1 E srv frame ts (length out) s)"
proof -
  have l: "35 \<le> length frame" if "smb1_negotiate_dialects frame = Some ds" for ds
    using that by (auto simp: smb1_negotiate_dialects_def split: if_splits)
  have r: "\<exists>c. smb1_negotiate_refuse frame (g_tx s) = Some (out @ zbytes 4 @ c)" if "smb1_negotiate_dialects frame = Some ds" for ds
    using l [OF that] assms(3) by (simp add: smb1_negotiate_refuse_def slice_get_def)
  obtain u where u: "negotiate_resp_smb1_wildcard E srv s = Some u" "step_ok srv s u"
    using negotiate_body_ok [OF assms(1) quiet_refl [OF assms(2)]] unfolding negotiate_resp_smb1_wildcard_def by blast
  then obtain c where c: "g_tx u = out @ zbytes 4 @ c" using assms(3) by (auto simp: step_ok_def resp_ext_def)
  have u': "\<exists>v. finish_frame (length out) u = Some v \<and> framed_st srv out n v"
    using u(2) c assms(4) by (intro finish_frame_ok) (simp_all add: step_ok_def fits_def)
  have s': "\<exists>v. finish_frame (length out) (s\<lparr>g_tx := out @ zbytes 4 @ c\<rparr>) = Some v \<and> framed_st srv out n v" for c
    using assms(2,4) by (intro finish_frame_ok) simp_all
  have tr: "frame_ok srv out n (Some (a, truncate_tx (length out) s))" for a
    by (rule frame_truncate [OF assms(2,4)]) (simp add: assms(3))
  have a: "frame_ok srv out n (do { tx \<leftarrow> smb1_negotiate_refuse frame (g_tx s);
      s \<leftarrow> finish_frame (length out) (s\<lparr>g_tx := tx\<rparr>); Some (act, s) })"
    if d: "smb1_negotiate_dialects frame = Some ds" for ds act
  proof -
    obtain c where c: "smb1_negotiate_refuse frame (g_tx s) = Some (out @ zbytes 4 @ c)" using r [OF d] by blast
    then show ?thesis using s' [of c] by (auto simp: frame_ok_def)
  qed
  have b: "frame_ok srv out n (do { s \<leftarrow> negotiate_resp_smb1_wildcard E srv s;
      s \<leftarrow> finish_frame (length out) s; Some (act, s) })" for act
    using u(1) u' by (auto simp: frame_ok_def)
  show ?thesis by (simp add: process_smb1_def tr a b split: option.split)
qed

lemma finish_compound_ok:
  assumes "crypto_ok E" and l: "lp_ok srv frame out ts n l"
  shows "frame_ok srv out n (finish_compound E frame enc (length out) l)"
proof -
  let ?s = "lp_s l" and ?lo = "length out + 4"
  have f: "recs_fit ?lo (lp_recs l) (length (g_tx ?s))" by (rule lp_okD(4) [OF l])
  have pc: "pc_ok (g_pc ?s)" using lp_okD(1) [OF l] by (simp add: st_ok_def)
  obtain tx where tx: "(if enc then Some (g_tx ?s) else sign_pass E (g_pc ?s) (lp_recs l) (g_tx ?s)) = Some tx"
      "length tx = length (g_tx ?s)" "take ?lo tx = take ?lo (g_tx ?s)"
    using sign_pass_ok [OF assms(1) f, of "g_pc ?s"] by (cases enc) auto
  have out: "take (length out) tx = out"
    using arg_cong [OF tx(3), of "take (length out)"] lp_okD(3) [OF l] by (simp add: min_def)
  have "\<forall>r \<in> set (lp_recs l). rr_req_off r \<le> rr_req_end r \<and> rr_req_end r \<le> length frame"
    using l by (simp add: lp_ok_def)
  then obtain pc' where pc': "(if pc_dialect (g_pc ?s) = 0x0311 then preauth_pass E frame tx (lp_recs l) (g_pc ?s)
      else Some (g_pc ?s)) = Some pc'" "pc_ok pc'"
    using preauth_pass_ok [OF assms(1) pc, of ?lo "lp_recs l" tx frame] f tx(2) pc
    by (cases "pc_dialect (g_pc ?s) = 0x0311") auto
  let ?t = "?s\<lparr>g_tx := tx, g_pc := pc'\<rparr>"
  have t: "st_ok srv ?t" "fits n ?t" "take (length out) (g_tx ?t) = out" "?lo \<le> length (g_tx ?t)"
    using lp_okD(1,6) [OF l] pc'(2) out lp_ok_length [OF l] tx(2) by (simp_all add: st_ok_def)
  obtain u where u: "finish_frame (length out) ?t = Some u" "framed_st srv out n u"
    using finish_frame_ok [OF t] by blast
  then have ua: "frame_ok srv out n (Some (a, u))" for a by (simp add: frame_ok_def)
  have tr: "frame_ok srv out n (Some (a, truncate_tx (length out) ?t))" for a
    by (rule frame_truncate [OF t(1-3)])
  show ?thesis
    unfolding finish_compound_def Let_def tx(1)
    using lp_okD(1,3,6) [OF l] u(1) ua pc'(1) tr
    by (auto intro!: frame_truncate simp: tx(1) split: option.split)
qed

text \<open>A frame's requests add at most one session each.\<close>

definition after_fits :: "'w st \<Rightarrow> nat \<times> nat" where
  "after_fits s = (length (g_mail s), length (g_sessions s) + MAX_COMPOUND)"

lemma after_fits_frames [simp]:
  "after_fits (s\<lparr>g_tx := tx\<rparr>) = after_fits s" "after_fits (s\<lparr>g_pc := pc\<rparr>) = after_fits s"
  "after_fits (s\<lparr>g_cx := cx\<rparr>) = after_fits s" "fits (after_fits s) s"
  by (simp_all add: after_fits_def fits_def)

lemma process_plain_ok:
  assumes "srv_ok srv" and "host_ok E" and "st_ok srv s" and "length (g_sessions s) + MAX_COMPOUND \<le> SESSION_ROOM"
  shows "frame_ok srv (g_tx s) (after_fits s) (process_plain E srv frame ts s)"
proof -
  let ?s = "s\<lparr>g_tx := g_tx s @ zbytes 4, g_cx := chain_new ts\<rparr>"
  let ?l = "\<lparr>lp_off = 0, lp_prev = None, lp_plan = None, lp_recs = [], lp_s = ?s\<rparr>"
  have s: "st_ok srv ?s" using assms(3) by simp
  have "lp_ok srv frame (g_tx s) ts (length (g_mail s), length (g_sessions s)) ?l"
    using s by (simp add: lp_ok_def chain_new_def fits_def)
  then obtain l where l: "compound_loop E srv frame (length (g_tx s)) MAX_COMPOUND ?l = Some l"
      "lp_ok srv frame (g_tx s) ts (after_fits s) l"
    using compound_loop_ok [OF assms(1,2) _ _ assms(4)] unfolding after_fits_def by fastforce
  have "frame_ok srv (g_tx s) (after_fits s) (process_smb1 E srv frame ts (length (g_tx s)) ?s)"
    by (intro process_smb1_ok assms(1) s) (simp_all add: fits_def after_fits_def)
  then show ?thesis
    using finish_compound_ok [OF host_okD(1) [OF assms(2)] l(2)] l(1) by (simp add: process_plain_def Let_def)
qed

lemma set_encrypting_ok:
  assumes "pc_ok pc"
  shows "pc_ok (set_encrypting sid pc)"
proof -
  have "chan_ok (c\<lparr>ch_encrypt := True\<rparr>)" if "hget (pc_channels pc) sid = Some c" for c
    using chans_ok_get [OF assms that] by (simp add: chan_ok_def)
  then show ?thesis
    using assms by (auto simp: set_encrypting_def intro: pc_ok_put split: option.split)
qed

lemma save_nonce_ok:
  assumes "pc_ok pc" and "enc_ok enc"
  shows "pc_ok (save_nonce sid enc pc)"
proof -
  have "chan_ok (c\<lparr>ch_enc := Some enc\<rparr>)" if "hget (pc_channels pc) sid = Some c" for c
    using chans_ok_get [OF assms(1) that] assms(2) by (simp add: chan_ok_def)
  then show ?thesis
    using assms by (auto simp: save_nonce_def intro: pc_ok_put split: option.split)
qed

lemma wrap_transform_ok:
  assumes "crypto_ok E" and "enc_ok enc"
  shows "\<exists>enc' c. wrap_transform E plain enc sid tx = Some (enc', tx @ c) \<and> enc_ok enc' \<and> framed c"
proof -
  define ctr where "ctr = ec_nonce_ctr enc + 1"
  define aad where "aad = transform_aad ctr (length plain) sid"
  obtain ct tag where a: "cr_aead_seal E (ec_cipher enc) (take (cipher_key_len (ec_cipher enc)) (ec_s2c enc))
      (take (cipher_nonce_len (ec_cipher enc)) (le64 ctr @ zbytes 8)) aad plain = (ct, tag)" by fastforce
  then have tag: "length tag = 16" using crypto_okD(6) [OF assms(1)] by (metis snd_conv)
  let ?c = "zbytes 4 @ TRANSFORM_PROTO @ zbytes 16 @ aad @ ct"
  obtain c1 where c1: "copy_at (tx @ ?c) (length tx + 8) tag = Some (tx @ c1)" "length c1 = length ?c"
    using copy_at_ext [of "length tx" "length tx + 8" tag tx ?c] tag by auto
  obtain c2 where c2: "finish_nbt_with (tx @ c1) (length tx) (word_of_nat (length (tx @ c1) - length tx - 4)) = Some (tx @ c2)"
      "framed c2"
    using finish_nbt_framed [of tx "tx @ c1"] c1(2) by auto
  have "wrap_transform E plain enc sid tx = Some (enc\<lparr>ec_nonce_ctr := ctr\<rparr>, tx @ c2)"
    using a c1(1) c2(1) unfolding wrap_transform_def Let_def ctr_def [symmetric] aad_def [symmetric] by simp
  then show ?thesis using assms(2) c2(2) by (auto simp: enc_ok_def)
qed

lemma seal_response_ok:
  assumes "crypto_ok E" and "st_ok srv s" and "enc_ok enc" and "fits n s"
  shows "\<exists>t. seal_response E sid enc out s = Some t \<and> framed_st srv out n t"
proof -
  have pc: "pc_ok (g_pc s)" using assms(2) by (simp add: st_ok_def)
  define e where "e = (case Option.bind (hget (pc_channels (g_pc s)) sid) ch_enc of None \<Rightarrow> enc | Some e \<Rightarrow> e)"
  have "enc_ok e"
    using assms(3) chans_ok_get [OF pc] by (auto simp: e_def chan_ok_def split: option.split)
  then obtain e' c where w: "wrap_transform E (drop 4 (g_tx s)) e sid out = Some (e', out @ c)" "enc_ok e'" "framed c"
    using wrap_transform_ok [OF assms(1)] by blast
  have "st_ok srv (s\<lparr>g_tx := x, g_pc := save_nonce sid e' (g_pc s)\<rparr>)" for x
    using assms(2) save_nonce_ok [OF pc w(2)] by (simp add: st_ok_def)
  then show ?thesis
    using assms(2,4) w(1,3) by (auto simp: seal_response_def Let_def e_def [symmetric] framed_st_def)
qed

lemma process_frame_ok:
  assumes "srv_ok srv" and "host_ok E" and "st_ok srv s" and "length (g_sessions s) + MAX_COMPOUND \<le> SESSION_ROOM"
  shows "frame_ok srv (g_tx s) (after_fits s) (process_frame E srv frame s)"
proof -
  let ?n = "after_fits s"
  have c: "crypto_ok E" by (rule host_okD(1) [OF assms(2)])
  have pc: "pc_ok (g_pc s)" using assms(3) by (simp add: st_ok_def)
  let ?sid = "u64_le (take 8 (drop 44 frame))"
  let ?s = "s\<lparr>g_pc := set_encrypting ?sid (g_pc s), g_tx := []\<rparr>"
  have "st_ok srv ?s" using assms(3) set_encrypting_ok [OF pc] by (simp add: st_ok_def)
  then have p: "\<exists>act t. process_plain E srv plain (Some ?sid) ?s = Some (act, t) \<and> st_ok srv t \<and> fits ?n t" for plain
    using process_plain_ok [OF assms(1,2), of ?s] assms(4) by (fastforce simp: frame_ok_def framed_st_def)
  have seal: "frame_ok srv (g_tx s) ?n (seal_response E ?sid enc (g_tx s) t \<bind> (\<lambda>s. Some (act, s)))"
    if "enc_ok enc" "st_ok srv t" "fits ?n t" for enc t act
    using seal_response_ok [OF c that(2,1,3), of ?sid "g_tx s"] by (auto simp: frame_ok_def)
  have e: "enc_ok enc" if "Option.bind (hget (pc_channels (g_pc s)) ?sid) ch_enc = Some enc" for enc
    using that chans_ok_get [OF pc] by (auto simp: chan_ok_def)
  have close: "frame_ok srv (g_tx s) ?n (Some (a, s))" for a
    using assms(3) by (simp add: frame_ok_def framed_same)
  have inner: "frame_ok srv (g_tx s) ?n (process_frame E srv frame s)"
    if i: "is_transform frame" "\<not> length frame < TRANSFORM_HDR_LEN"
      and b: "Option.bind (hget (pc_channels (g_pc s)) ?sid) ch_enc = Some enc" and d: "decrypt_transform E frame enc = Some plain"
    for enc plain
  proof -
    obtain act t where t: "process_plain E srv plain (Some ?sid) ?s = Some (act, t)" "st_ok srv t" "fits ?n t"
      using p by blast
    have "frame_ok srv (g_tx s) ?n (Some (a, t\<lparr>g_tx := g_tx s\<rparr>))" for a
      using t(2,3) by (simp add: frame_ok_def framed_same)
    then show ?thesis
      using t i b d seal [OF e [OF b]] unfolding process_frame_def Let_def by (auto split: frame_action.split)
  qed
  show ?thesis
    using inner process_plain_ok [OF assms] close
    by (cases "Option.bind (hget (pc_channels (g_pc s)) ?sid) ch_enc")
      (auto simp: process_frame_def Let_def simp del: bind_eq_Some_conv bind_eq_None_conv bind_Some_iff split: option.split)
qed

section \<open>Properties\<close>



end
