(* ===== verification/Async_Ok.thy ===== *)
theory Async_Ok
  imports Dispatch_Ok
begin

text \<open>
  The messages the reactor sends outside of \<open>process_frame\<close> (completed notifications, lease
  breaks, the headers of zero-copy reads) are built without a panic and are single frames; and
  tearing a connection down keeps the server state well formed.
\<close>

section \<open>Notifications\<close>

fun starts_fit :: "nat list \<Rightarrow> nat \<Rightarrow> bool" where
  "starts_fit [] n = True"
| "starts_fit (a # as) n = (a + 12 \<le> n \<and> starts_fit as n)"

lemma starts_fit_iff: "starts_fit as n \<longleftrightarrow> (\<forall>a \<in> set as. a + 12 \<le> n)"
  by (induction as) auto

lemma notify_entries_fit:
  "starts_fit starts (length d) \<Longrightarrow> notify_entries es d starts = (d', starts') \<Longrightarrow> starts_fit starts' (length d')"
proof (induction es d starts arbitrary: d' starts' rule: notify_entries.induct)
  case (2 action name es d starts)
  let ?d = "pad4 d @ le32 0 @ le32 action @ le32 (word_of_nat (length (utf16le name))) @ utf16le name"
  have "starts_fit (starts @ [length (pad4 d)]) (length ?d)"
    using "2.prems"(1) by (auto simp: starts_fit_iff pad4_def)
  then show ?case using "2.IH" [OF refl refl] "2.prems"(2) by (simp add: Let_def)
qed simp

lemma patch_entries_total: "starts_fit as (length d) \<Longrightarrow> patch_entries as d \<noteq> None"
proof (induction as d rule: patch_entries.induct)
  case (1 a b ss d)
  then have a: "a + length (le32 (word_of_nat (b - a))) \<le> length d" by simp
  then show ?case
    using "1.IH" "1.prems" copy_at_length [OF copy_at_Some [OF a]]
    by (simp del: bind_Some_iff not_None_eq copy_at_Some add: copy_at_Some [OF a])
qed simp_all

lemma notify_data_total: "notify_data st events \<noteq> None"
  using notify_entries_fit [of "[]" "[]" events] patch_entries_total
  by (auto simp: notify_data_def split: prod.split)

lemma finish_nbt_0:
  "4 \<le> length tx \<Longrightarrow> \<exists>c. finish_nbt_with tx 0 (word_of_nat (length tx - 4)) = Some c \<and> framed c"
  using finish_nbt_framed [of "[]" tx] by simp

lemma sign_opt_ok:
  assumes "crypto_ok E" and "68 \<le> length tx"
  shows "\<exists>t. (case sg of None \<Rightarrow> Some tx | Some sc \<Rightarrow> sign_in_place E tx 4 (length tx) sc) = Some t \<and>
    length t = length tx"
  using sign_in_place_ok [OF assms(1), of 4 "length tx" tx] assms(2) by (cases sg) auto

lemma finalize_async_ok:
  assumes "crypto_ok E" and "68 \<le> length tx"
  shows "\<exists>c. finalize_async E pc m tx 4 = Some c \<and> framed c"
proof -
  let ?signed = "if am_want_sign m
      then (case Option.bind (hget (pc_channels pc) (am_session_id m)) ch_sign of
              None \<Rightarrow> Some tx | Some sc \<Rightarrow> sign_in_place E tx 4 (length tx) sc)
      else Some tx"
  obtain t where t: "?signed = Some t" "length t = length tx"
    using sign_opt_ok [OF assms, of "Option.bind (hget (pc_channels pc) (am_session_id m)) ch_sign"]
    by (cases "am_want_sign m") auto
  show ?thesis
    unfolding finalize_async_def t(1) using finish_nbt_0 [of t] t(2) assms(2) by simp
qed

lemma build_notify_final_ok:
  assumes "crypto_ok E" and "pc_ok pc"
  shows "\<exists>pc' b. build_notify_final E pc m st events n = Some (pc', b) \<and> pc_ok pc' \<and> framed b"
proof -
  obtain data where d: "notify_data st events = Some data" using notify_data_total by blast
  have "68 \<le> length (begin_resp_async (zbytes 4) m x y z @ w)" for x y z w by (simp add: begin_resp_async_def)
  then obtain tx where tx: "(if st = SUCCESS \<and> events \<noteq> [] \<and> length data \<le> unat n
      then finalize_async E pc m (begin_resp_async (zbytes 4) m st 0 CMD_CHANGE_NOTIFY
             @ le16 9 @ le16 72 @ le32 (word_of_nat (length data)) @ data) 4
      else finalize_async E pc m (err_body (begin_resp_async (zbytes 4) m
             (if st = SUCCESS then NOTIFY_ENUM_DIR else st) 0 CMD_CHANGE_NOTIFY)) 4) = Some tx" "framed tx"
    using finalize_async_ok [OF assms(1), of _ pc m] unfolding err_body_def by (metis (no_types, lifting))
  have enc: "\<exists>e' b. wrap_transform E (drop 4 tx) e (am_session_id m) [] = Some (e', b) \<and> enc_ok e' \<and> framed b"
    if "enc_ok e" for e
    using wrap_transform_ok [OF assms(1) that, of "drop 4 tx" "am_session_id m" "[]"] by auto
  have put: "pc_ok (pc\<lparr>pc_channels := hput (am_session_id m) (ch\<lparr>ch_enc := Some e\<rparr>) (pc_channels pc)\<rparr>)"
    if "hget (pc_channels pc) (am_session_id m) = Some ch" "enc_ok e" for ch e
    using that chans_ok_get [OF assms(2)] by (intro pc_ok_put assms(2)) (auto simp: chan_ok_def)
  show ?thesis
  proof (cases "hget (pc_channels pc) (am_session_id m)")
    case None
    then show ?thesis using d tx assms(2) by (simp add: build_notify_final_def)
  next
    case (Some ch)
    show ?thesis
    proof (cases "ch_encrypt ch \<and> ch_enc ch \<noteq> None")
      case True
      then obtain e where e: "ch_enc ch = Some e" by blast
      then have "enc_ok e" using chans_ok_get [OF assms(2) Some] by (simp add: chan_ok_def)
      then obtain e' b where "wrap_transform E (drop 4 tx) e (am_session_id m) [] = Some (e', b)" "enc_ok e'" "framed b"
        using enc by blast
      then show ?thesis using d tx(1) Some True e put [OF Some] by (simp add: build_notify_final_def)
    next
      case False
      then show ?thesis using d tx assms(2) Some
        by (cases "ch_encrypt ch"; cases "ch_enc ch") (simp_all add: build_notify_final_def)
    qed
  qed
qed

section \<open>Lease breaks and reads\<close>

lemma build_lease_break_ok:
  assumes "crypto_ok E"
  shows "\<exists>b. build_lease_break E key cur new ep sid sg = Some b \<and> framed b"
proof -
  define tx where "tx = zbytes 4 @ smb2_proto @ le16 64 @ le16 0 @ le32 0 @ le16 CMD_OPLOCK_BREAK @ le16 0 @
    le32 FLAG_RESPONSE @ le32 0 @ le64 U64_MAX @ le32 0 @ le32 0 @ le64 sid @ zbytes 16 @
    le16 44 @ le16 ep @ le32 0 @ key @ le32 cur @ le32 new @ le32 0 @ le32 0 @ le32 0"
  have l: "68 \<le> length tx" by (simp add: tx_def)
  obtain t where t: "(case sg of None \<Rightarrow> Some tx | Some sc \<Rightarrow> sign_in_place E tx 4 (length tx) sc) = Some t"
      "length t = length tx"
    using sign_opt_ok [OF assms l] by blast
  show ?thesis
    unfolding build_lease_break_def Let_def tx_def [symmetric] t(1) using finish_nbt_0 [of t] t(2) l by simp
qed

lemma build_read_err_ok: "\<exists>b. build_read_err p st = Some b \<and> framed b \<and> b \<noteq> []"
proof -
  have "4 \<le> length (err_body (begin_resp (zbytes 4) (read_plan_hdr p) st False (zc_tree_id p) (zc_session_id p)))"
    by (simp add: err_body_def begin_resp_def)
  from finish_nbt_0 [OF this] obtain c where c: "build_read_err p st = Some c" "framed c"
    by (auto simp: build_read_err_def Let_def)
  then have "c \<noteq> []"
    by (auto simp: build_read_err_def Let_def finish_nbt_with_def copy_at_def nbt_bytes_def split: if_splits)
  with c show ?thesis by blast
qed

lemma build_read_resp_prefix_ok:
  "\<exists>b. build_read_resp_prefix p n = Some (nbt_bytes (word_of_nat (length b) + n) @ b) \<and> length b = 80"
proof -
  define b where "b = drop 4 (begin_resp (zbytes 4) (read_plan_hdr p) SUCCESS False (zc_tree_id p) (zc_session_id p)
               @ le16 17 @ [80, 0] @ le32 n @ le32 0 @ le32 0)"
  have "length b = 80" by (simp add: b_def begin_resp_def)
  then show ?thesis
    by (intro exI [of _ b])
      (simp add: build_read_resp_prefix_def Let_def finish_nbt_with_def copy_at_def b_def begin_resp_def)
qed

section \<open>Teardown\<close>

lemma quiet_sess: "quiet srv s t \<Longrightarrow> hget (g_sessions t) sid = Some ss \<Longrightarrow> sess_ok srv ss"
  using quiet_reg by (fastforce simp: reg_ok_def)

lemma quiet_teardown_channel: "quiet srv s t \<Longrightarrow> quiet srv s (teardown_channel E sc t)"
  unfolding teardown_channel_def reg_get_def case_prod_beta
  by (auto intro!: end_session_quiet quiet_drop_channel quiet_sess split: option.split)

lemma quiet_teardown_fold: "quiet srv s t \<Longrightarrow> quiet srv s (fold (teardown_channel E) cs t)"
  by (induction cs arbitrary: t) (simp_all add: quiet_teardown_channel)

lemma teardown_conn_ok:
  assumes "st_ok srv s"
  shows "quiet srv s (teardown_conn E s)"
  unfolding teardown_conn_def
  using assms by (intro quiet_teardown_fold quiet_channels quiet_refl) (simp_all add: chans_ok_def)

end
