(* ===== verification/Uring_Inv.thy ===== *)
theory Uring_Inv
  imports Uring Async_Ok
begin

text \<open>
  The invariant of a worker of \<open>Uring\<close>: which entries are outstanding for a connection in which
  state, that the buffers they point into are the connection's and in range, and how slots,
  generations and the free list fit together; with the rules by which the reactor's functions
  are followed through it.
\<close>

section \<open>User data\<close>

lemma masks: "(0xFFFFFF :: u64) = mask 24" "(0xFFFF :: u64) = mask 16"
  by (simp_all add: mask_eq_exp_minus_1)

lemma ud_fields:
  fixes op :: u8 and x :: u64 and gen slot :: u16
  defines "v \<equiv> (push_bit 56 (ucast op) OR push_bit 32 (x AND 0xFFFFFF)) OR (push_bit 16 (ucast gen) OR ucast slot)"
  shows "ucast (drop_bit 56 v) = op" "drop_bit 32 v AND 0xFFFFFF = x AND 0xFFFFFF"
    "ucast (drop_bit 16 v) = gen" "ucast (v AND 0xFFFF) = slot"
  unfolding v_def masks by (rule bit_word_eqI, auto simp: bit_simps dest: bit_imp_le_length)+

lemma ud_parts_ud:
  assumes "i < 2 ^ 24"
  shows "ud_parts (ud op i gen slot) = (op, i, gen, slot)"
proof -
  have "unat (word_of_nat i AND 0xFFFFFF :: u64) = i"
    using assms unfolding masks
    by (simp add: take_bit_eq_mask [symmetric] unsigned_take_bit_eq unat_of_nat take_bit_nat_eq_self)
  then show ?thesis unfolding ud_def ud_parts_def ud_fields by simp
qed

section \<open>Outstanding entries\<close>

fun conn_op :: "uop \<Rightarrow> u8 option" where
  "conn_op (URecv _ _ _) = Some OP_RECV"
| "conn_op (USend _ _ _ _) = Some OP_SEND"
| "conn_op (USendZc _ _ _) = Some OP_SEND"
| "conn_op UNotif = Some OP_SEND"
| "conn_op (USpliceIn _ _ _ _) = Some OP_SPLICE_IN"
| "conn_op (USpliceOut _ _ _) = Some OP_SPLICE_OUT"
| "conn_op (UReadInotify _ _) = Some OP_INOTIFY"
| "conn_op _ = None"

fun is_recv :: "uop \<Rightarrow> bool" where
  "is_recv (URecv _ _ _) = True" | "is_recv _ = False"

fun is_inot :: "uop \<Rightarrow> bool" where
  "is_inot (UReadInotify _ _) = True" | "is_inot _ = False"

fun is_tx :: "uop \<Rightarrow> bool" where
  "is_tx (USend _ _ _ _) = True" | "is_tx (USendZc _ _ _) = True" | "is_tx (USpliceIn _ _ _ _) = True"
| "is_tx (USpliceOut _ _ _) = True" | "is_tx _ = False"

definition slot_of :: "sqe \<Rightarrow> nat" where
  "slot_of e = fst (snd (ud_parts (q_ud e)))"

text \<open>The operations outstanding for a slot.\<close>

definition ents :: "nat \<Rightarrow> sqe list \<Rightarrow> uop list" where
  "ents i q = map q_op (filter (\<lambda>e. conn_op (q_op e) \<noteq> None \<and> slot_of e = i) q)"

text \<open>An entry's buffer lies in the connection's.\<close>

fun buf_ok :: "conn \<Rightarrow> uop \<Rightarrow> bool" where
  "buf_ok c (URecv _ off n) \<longleftrightarrow> off + n \<le> length (c_rx c)"
| "buf_ok c (USend _ off n _) \<longleftrightarrow> off + n \<le> length (c_tx c)"
| "buf_ok c (USendZc _ off n) \<longleftrightarrow> off + n \<le> length (c_tx c)"
| "buf_ok c (UReadInotify _ n) \<longleftrightarrow> n \<le> length (c_ibuf c)"
| "buf_ok c _ \<longleftrightarrow> True"

section \<open>A connection\<close>

text \<open>What holds of every connection: all its outstanding operations are counted, and their buffers
  are there.\<close>

definition base_ok :: "conn \<Rightarrow> uop list \<Rightarrow> bool" where
  "base_ok c es \<longleftrightarrow> c_inflight c = length es \<and> (\<forall>u \<in> set es. buf_ok c u) \<and> pc_ok (c_proto c)"

definition RX_CAP :: nat where "RX_CAP = MAX_FRAME + 4 + RX_MIN_ROOM"

definition recv_part :: "conn \<Rightarrow> uop list \<Rightarrow> bool" where
  "recv_part c es \<longleftrightarrow> c_rx_off c \<le> c_rx_len c \<and> c_rx_len c \<le> length (c_rx c) \<and> length (c_rx c) \<le> RX_CAP \<and>
     filter is_recv es =
       (if c_recv_inflight c then [URecv (c_fd c) (c_rx_len c) (length (c_rx c) - c_rx_len c)] else [])"

definition inot_part :: "conn \<Rightarrow> uop list \<Rightarrow> bool" where
  "inot_part c es \<longleftrightarrow> filter is_inot es =
     (case c_inotify_fd c of None \<Rightarrow> [] | Some ifd \<Rightarrow> [UReadInotify ifd (length (c_ibuf c))])"

definition notif_part :: "conn \<Rightarrow> uop list \<Rightarrow> bool" where
  "notif_part c es \<longleftrightarrow> length (filter (\<lambda>u. u = UNotif) es) = c_notif_pending c"

text \<open>The transmit side: its state fixes the entries it has outstanding.\<close>

definition zc_live :: "conn \<Rightarrow> zc \<Rightarrow> fd \<Rightarrow> fd \<Rightarrow> bool" where
  "zc_live c z r w \<longleftrightarrow> c_zc c = Some z \<and> c_pipe c = Some (r, w) \<and> c_notif_pending c = 0 \<and> c_pending_zc c = None"

definition chain_op :: "conn \<Rightarrow> zc \<Rightarrow> fd \<Rightarrow> fd \<Rightarrow> uop \<Rightarrow> bool" where
  "chain_op c z r w u \<longleftrightarrow>
     u \<in> {USpliceIn (zc_fd (z_plan z)) (zc_offset (z_plan z)) w (z_want z),
          USend (c_fd c) 0 (length (c_tx c)) True, USpliceOut r (c_fd c) (z_want z)}"

definition tx_part :: "conn \<Rightarrow> uop list \<Rightarrow> bool" where
  "tx_part c ts \<longleftrightarrow>
     (case c_txm c of
        Idle \<Rightarrow> ts = [] \<and> c_notif_pending c = 0 \<and> c_zc c = None \<and> c_pending_zc c = None \<and> c_tx c = [] \<and> c_tx_off c = 0
      | Send \<Rightarrow> c_zc c = None \<and> c_tx_off c < length (c_tx c) \<and>
          (ts = [USend (c_fd c) (c_tx_off c) (length (c_tx c) - c_tx_off c) False] \<or>
           ts = [USendZc (c_fd c) (c_tx_off c) (length (c_tx c) - c_tx_off c)])
      | Drain \<Rightarrow> c_zc c = None \<and> ts = [] \<and> 0 < c_notif_pending c
      | ZcIn \<Rightarrow> (\<exists>z r w. zc_live c z r w \<and> \<not> z_linked z \<and> c_tx c = [] \<and> c_tx_off c = 0 \<and>
          ts = [USpliceIn (zc_fd (z_plan z)) (zc_offset (z_plan z) + ucast (z_got z)) w (z_want z - z_got z)])
      | ZcHdr \<Rightarrow> (\<exists>z r w. zc_live c z r w \<and> \<not> z_linked z \<and> 0 < z_out_left z \<and> c_tx_off c < length (c_tx c) \<and> \<not> c_send_is_zc c \<and>
          ts = [USend (c_fd c) (c_tx_off c) (length (c_tx c) - c_tx_off c) True])
      | ZcOut \<Rightarrow> (\<exists>z r w. zc_live c z r w \<and>
          (if z_linked z then 0 < z_chain z \<and> length ts = unat (z_chain z) \<and> (\<forall>u \<in> set ts. chain_op c z r w u)
           else 0 < z_out_left z \<and> ts = [USpliceOut r (c_fd c) (z_out_left z)])))"

definition tx_free :: "conn \<Rightarrow> uop list \<Rightarrow> bool" where
  "tx_free c es \<longleftrightarrow> base_ok c es \<and> \<not> c_closing c \<and> recv_part c es \<and> inot_part c es \<and> notif_part c es"

text \<open>A connection that is closing only waits for its entries.\<close>

definition conn_inv :: "conn \<Rightarrow> uop list \<Rightarrow> bool" where
  "conn_inv c es \<longleftrightarrow> (if c_closing c then base_ok c es \<and> es \<noteq> [] else tx_free c es \<and> tx_part c (filter is_tx es))"

section \<open>A worker\<close>

definition shared_ok :: "srv \<Rightarrow> nat \<Rightarrow> 'w wk \<Rightarrow> bool" where
  "shared_ok srv N k \<longleftrightarrow> reg_ok srv (k_sessions k) \<and> lt_ok (k_leases k) \<and> k_wid k < length (k_mail k) \<and>
     length (k_sessions k) \<le> N"

definition slots_ok :: "'w wk \<Rightarrow> bool" where
  "slots_ok k \<longleftrightarrow> length (k_gens k) = length (k_conns k) \<and> length (k_conns k) \<le> MAX_CONN_SLOTS \<and>
     distinct (k_free k) \<and> set (k_free k) = {i. i < length (k_conns k) \<and> k_conns k ! i = None} \<and>
     (\<forall>i c. conn_mut i k = Some c \<longrightarrow> c_gen c = k_gens k ! i)"

text \<open>Every outstanding entry of a connection names a slot that holds a connection, and its
  generation.\<close>

definition entry_ok :: "'w wk \<Rightarrow> sqe \<Rightarrow> bool" where
  "entry_ok k e \<longleftrightarrow>
     (case conn_op (q_op e) of
        None \<Rightarrow> fst (ud_parts (q_ud e)) \<in> {OP_ACCEPT, OP_WAKE, OP_CANCEL}
      | Some op \<Rightarrow> (\<exists>i c. conn_mut i k = Some c \<and> q_ud e = ud op i (c_gen c) 0))"

text \<open>Everything but the connection in slot \<open>i\<close>.\<close>

definition slot_pre :: "srv \<Rightarrow> nat \<Rightarrow> nat \<Rightarrow> conn \<Rightarrow> uop list \<Rightarrow> 'w wk \<Rightarrow> bool" where
  "slot_pre srv N i c es k \<longleftrightarrow> shared_ok srv N k \<and> slots_ok k \<and> (\<forall>e \<in> set (k_ring k). entry_ok k e) \<and>
     conn_mut i k = Some c \<and> ents i (k_ring k) = es \<and>
     (\<forall>j d. j \<noteq> i \<longrightarrow> conn_mut j k = Some d \<longrightarrow> conn_inv d (ents j (k_ring k)))"

definition wk_inv :: "srv \<Rightarrow> nat \<Rightarrow> 'w wk \<Rightarrow> bool" where
  "wk_inv srv N k \<longleftrightarrow> shared_ok srv N k \<and> slots_ok k \<and> (\<forall>e \<in> set (k_ring k). entry_ok k e) \<and>
     (\<forall>j d. conn_mut j k = Some d \<longrightarrow> conn_inv d (ents j (k_ring k)))"

section \<open>Rules\<close>

lemma wk_inv_pre:
  assumes "wk_inv srv N k" and "conn_mut i k = Some c"
  shows "slot_pre srv N i c (ents i (k_ring k)) k" and "conn_inv c (ents i (k_ring k))"
  using assms by (auto simp: wk_inv_def slot_pre_def)

lemma wk_inv_mono: "wk_inv srv N k \<Longrightarrow> N \<le> M \<Longrightarrow> wk_inv srv M k"
  by (simp add: wk_inv_def shared_ok_def)

lemma slot_pre_inv:
  assumes "slot_pre srv N i c es k" and "conn_inv c es"
  shows "wk_inv srv N k"
  unfolding wk_inv_def
proof (intro conjI allI impI)
  fix j d
  assume "conn_mut j k = Some d"
  then show "conn_inv d (ents j (k_ring k))" using assms by (cases "j = i") (auto simp: slot_pre_def)
qed (use assms in \<open>auto simp: slot_pre_def\<close>)

lemma conn_mut_lt: "conn_mut i k = Some c \<Longrightarrow> i < length (k_conns k)"
  by (simp add: conn_mut_Some)

lemma conn_mut_set_conn:
  "i < length (k_conns k) \<Longrightarrow> conn_mut j (set_conn i c k) = (if j = i then Some c else conn_mut j k)"
  by (auto simp: conn_mut_def set_conn_def idx_def)

lemma set_conn_fields [simp]:
  "k_ring (set_conn i c k) = k_ring k" "k_w (set_conn i c k) = k_w k" "k_gens (set_conn i c k) = k_gens k"
  "k_free (set_conn i c k) = k_free k" "k_wid (set_conn i c k) = k_wid k" "k_mail (set_conn i c k) = k_mail k"
  "k_sessions (set_conn i c k) = k_sessions k" "k_leases (set_conn i c k) = k_leases k"
  "k_zc_ok (set_conn i c k) = k_zc_ok k" "length (k_conns (set_conn i c k)) = length (k_conns k)"
  by (simp_all add: set_conn_def)

lemma slots_ok_lt: "slots_ok k \<Longrightarrow> conn_mut i k = Some c \<Longrightarrow> i < 2 ^ 24"
  by (auto simp: slots_ok_def MAX_CONN_SLOTS_def dest: conn_mut_lt)

lemma slots_ok_set:
  assumes "slots_ok k" and "conn_mut i k = Some c" and "c_gen c' = c_gen c"
  shows "slots_ok (set_conn i c' k)"
proof -
  have i: "i < length (k_conns k)" "k_conns k ! i = Some c" using assms(2) by (auto simp: conn_mut_Some)
  have "{j. j < length (k_conns k) \<and> (k_conns k)[i := Some c'] ! j = None} =
      {j. j < length (k_conns k) \<and> k_conns k ! j = None}"
    using i by (auto simp: nth_list_update)
  moreover have "c_gen d = k_gens k ! j" if "conn_mut j (set_conn i c' k) = Some d" for j d
    using that assms i by (auto simp: conn_mut_set_conn slots_ok_def split: if_splits)
  ultimately show ?thesis using assms(1) unfolding slots_ok_def by (simp add: set_conn_def)
qed

lemma entry_ok_set:
  assumes "conn_mut i k = Some c" and "c_gen c' = c_gen c" and "entry_ok k e"
  shows "entry_ok (set_conn i c' k) e"
proof (cases "conn_op (q_op e)")
  case None
  then show ?thesis using assms(3) by (simp add: entry_ok_def)
next
  case (Some op)
  then obtain j d where j: "conn_mut j k = Some d" "q_ud e = ud op j (c_gen d) 0" using assms(3) by (auto simp: entry_ok_def)
  have "\<exists>d'. conn_mut j (set_conn i c' k) = Some d' \<and> c_gen d' = c_gen d"
    using assms(1,2) j(1) by (auto simp: conn_mut_set_conn conn_mut_lt)
  then show ?thesis using j(2) Some unfolding entry_ok_def by force
qed

lemma slot_pre_set:
  assumes "slot_pre srv N i c es k" and "c_gen c' = c_gen c"
  shows "slot_pre srv N i c' es (set_conn i c' k)"
proof -
  have c: "conn_mut i k = Some c" using assms(1) by (simp add: slot_pre_def)
  show ?thesis
    using assms entry_ok_set [OF c assms(2)] slots_ok_set [OF _ c assms(2)] conn_mut_lt [OF c]
    by (auto simp: slot_pre_def conn_mut_set_conn shared_ok_def)
qed

lemma slot_pre_conn: "slot_pre srv N i c es k \<Longrightarrow> conn_mut i k = Some c"
  by (simp add: slot_pre_def)

text \<open>\<open>slot_pre\<close> does not look at the rest of the state.\<close>

lemma conn_mut_ring [simp]: "conn_mut i (k\<lparr>k_ring := q\<rparr>) = conn_mut i k" "conn_mut i (k\<lparr>k_w := w\<rparr>) = conn_mut i k"
  "conn_mut i (put_shared s k) = conn_mut i k" "conn_mut i (k\<lparr>k_mail := m\<rparr>) = conn_mut i k"
  by (simp_all add: conn_mut_def put_shared_def)

lemma entry_ok_cong: "k_conns k' = k_conns k \<Longrightarrow> entry_ok k' e = entry_ok k e"
  by (simp add: entry_ok_def conn_mut_def cong: option.case_cong)

lemma slot_pre_w [simp]: "slot_pre srv N i c es (k\<lparr>k_w := w\<rparr>) = slot_pre srv N i c es k"
  by (simp add: slot_pre_def shared_ok_def slots_ok_def entry_ok_cong [of "k\<lparr>k_w := w\<rparr>" k])

lemma slot_pre_shared:
  assumes "slot_pre srv N i c es k" and "reg_ok srv (g_sessions s)" and "lt_ok (g_leases s)"
    and "length (g_mail s) = length (k_mail k)" and "length (g_sessions s) \<le> M"
  shows "slot_pre srv M i c es (put_shared s k)"
proof -
  have e: "entry_ok (put_shared s k) x = entry_ok k x" for x by (rule entry_ok_cong) (simp add: put_shared_def)
  have "k_ring (put_shared s k) = k_ring k" by (simp add: put_shared_def)
  moreover have "slots_ok (put_shared s k) = slots_ok k" unfolding slots_ok_def conn_mut_ring by (simp add: put_shared_def)
  moreover have "shared_ok srv M (put_shared s k)" using assms by (simp add: slot_pre_def shared_ok_def put_shared_def)
  ultimately show ?thesis using assms(1) unfolding slot_pre_def by (simp add: e)
qed

lemma slot_of_ud: "i < 2 ^ 24 \<Longrightarrow> slot_of \<lparr>q_op = u, q_link = l, q_ud = ud op i g 0\<rparr> = i"
  by (simp add: slot_of_def ud_parts_ud)

lemma ents_append: "ents i (q @ q') = ents i q @ ents i q'"
  by (simp add: ents_def)

lemma slot_pre_ring:
  assumes "slot_pre srv N i c es k" and "conn_op u = Some op"
  shows "slot_pre srv N i c (es @ [u]) (k\<lparr>k_ring := k_ring k @ [\<lparr>q_op = u, q_link = l, q_ud = ud op i (c_gen c) 0\<rparr>]\<rparr>)"
    (is "slot_pre srv N i c _ (k\<lparr>k_ring := _ @ [?e]\<rparr>)")
proof -
  have c: "conn_mut i k = Some c" "slots_ok k" using assms(1) by (simp_all add: slot_pre_def)
  have sl: "slot_of ?e = i" by (rule slot_of_ud [OF slots_ok_lt [OF c(2,1)]])
  have en: "ents j [?e] = (if j = i then [u] else [])" for j using sl assms(2) by (simp add: ents_def)
  have "entry_ok k ?e" using assms(2) c(1) by (auto simp: entry_ok_def)
  then show ?thesis
    using assms(1) unfolding slot_pre_def
    by (auto simp: ents_append en shared_ok_def slots_ok_def entry_ok_cong [of "k\<lparr>k_ring := _\<rparr>" k])
qed

lemma slot_pre_ring_other:
  assumes "slot_pre srv N i c es k" and "conn_op u = None" and "fst (ud_parts v) \<in> {OP_ACCEPT, OP_WAKE, OP_CANCEL}"
  shows "slot_pre srv N i c es (k\<lparr>k_ring := k_ring k @ [\<lparr>q_op = u, q_link = l, q_ud = v\<rparr>]\<rparr>)"
proof -
  have en: "ents j [\<lparr>q_op = u, q_link = l, q_ud = v\<rparr>] = []" for j using assms(2) by (simp add: ents_def)
  have "entry_ok k \<lparr>q_op = u, q_link = l, q_ud = v\<rparr>" using assms(2,3) by (auto simp: entry_ok_def)
  then show ?thesis
    using assms(1) unfolding slot_pre_def
    by (auto simp: ents_append en shared_ok_def slots_ok_def entry_ok_cong [of "k\<lparr>k_ring := _\<rparr>" k])
qed

lemma sq_push_conn_ok:
  assumes "slot_pre srv N i c es k" and "conn_op u = Some op"
  shows "\<exists>k'. sq_push_conn i \<lparr>q_op = u, q_link = l, q_ud = ud op i (c_gen c) 0\<rparr> k = Some k' \<and>
    slot_pre srv N i (c\<lparr>c_inflight := c_inflight c + 1\<rparr>) (es @ [u]) k'"
  using slot_pre_ring [OF slot_pre_set [OF assms(1), of "c\<lparr>c_inflight := c_inflight c + 1\<rparr>"] assms(2), of l]
    slot_pre_conn [OF assms(1)]
  by (simp add: sq_push_conn_def sq_push_def)

section \<open>Closing\<close>

lemma release_conn_ok: "lt_ok m \<Longrightarrow> lt_ok (release_conn w i n m)"
  using release_conn_spec by blast

lemma finalize_close_ok:
  assumes "slot_pre srv N i c [] k" and "pc_ok (c_proto c)"
  shows "\<exists>k'. finalize_close E i k = Some k' \<and> wk_inv srv N k'"
proof -
  have c: "conn_mut i k = Some c" and sl: "slots_ok k" and sh: "shared_ok srv N k"
    and en: "ents i (k_ring k) = []" and re: "\<And>e. e \<in> set (k_ring k) \<Longrightarrow> entry_ok k e"
    and others: "\<And>j d. j \<noteq> i \<Longrightarrow> conn_mut j k = Some d \<Longrightarrow> conn_inv d (ents j (k_ring k))"
    using assms(1) by (auto simp: slot_pre_def)
  have i: "i < length (k_conns k)" "k_conns k ! i = Some c" "i < length (k_gens k)"
    using c sl by (auto simp: conn_mut_Some slots_ok_def)
  let ?k1 = "k\<lparr>k_conns := (k_conns k)[i := None]\<rparr>"
  define s where "s = teardown_conn E (st_of c ?k1)"
  have "st_ok srv (st_of c ?k1)" using sh assms(2) by (simp add: st_ok_def st_of_def shared_ok_def)
  then have q: "quiet srv (st_of c ?k1) s" unfolding s_def by (rule teardown_conn_ok)
  define k' where "k' = (put_shared s ?k1)\<lparr>k_w := drop_conn E c (g_w s),
    k_leases := release_conn (k_wid k) i (k_gens k ! i) (g_leases s),
    k_gens := (k_gens k)[i := max (k_gens k ! i + 1) 1], k_free := i # k_free k\<rparr>"
  have f: "finalize_close E i k = Some k'"
    using i by (simp add: finalize_close_def idx_def s_def k'_def put_shared_def Let_def)
  have conns: "k_conns k' = (k_conns k)[i := None]" "k_ring k' = k_ring k" "length (k_conns k') = length (k_conns k)"
    by (simp_all add: k'_def put_shared_def)
  have cm: "conn_mut j k' = (if j = i then None else conn_mut j k)" for j
    using i(1) by (auto simp: conn_mut_def conns idx_def)
  have "shared_ok srv N k'"
    using sh q by (auto simp: shared_ok_def k'_def put_shared_def quiet_def st_ok_def st_of_def intro: release_conn_ok)
  moreover have "slots_ok k'"
  proof -
    have "set (i # k_free k) = {j. j < length (k_conns k) \<and> (k_conns k)[i := None] ! j = None}" "i \<notin> set (k_free k)"
      using sl i by (auto simp: slots_ok_def nth_list_update)
    moreover have "c_gen d = k_gens k' ! j" if "conn_mut j k' = Some d" for j d
    proof -
      have "j \<noteq> i" "conn_mut j k = Some d" using that by (auto simp: cm split: if_splits)
      then show ?thesis using sl by (simp add: slots_ok_def k'_def)
    qed
    ultimately show ?thesis using sl unfolding slots_ok_def conns(3) by (simp add: k'_def put_shared_def)
  qed
  moreover have "entry_ok k' e" if e: "e \<in> set (k_ring k)" for e
  proof (cases "conn_op (q_op e)")
    case None
    then show ?thesis using re [OF e] by (simp add: entry_ok_def)
  next
    case (Some op)
    then obtain j d where j: "conn_mut j k = Some d" "q_ud e = ud op j (c_gen d) 0" using re [OF e] by (auto simp: entry_ok_def)
    have "slot_of e = j" by (simp add: slot_of_def j(2) ud_parts_ud [OF slots_ok_lt [OF sl j(1)]])
    then have "j \<noteq> i" using en e Some by (auto simp: ents_def filter_empty_conv)
    then show ?thesis using Some j by (auto simp: entry_ok_def cm)
  qed
  ultimately show ?thesis using f others by (auto simp: wk_inv_def conns cm split: if_splits)
qed

lemma base_ok_cong:
  "c_inflight c' = c_inflight c \<Longrightarrow> c_rx c' = c_rx c \<Longrightarrow> c_tx c' = c_tx c \<Longrightarrow> c_ibuf c' = c_ibuf c \<Longrightarrow>
     c_proto c' = c_proto c \<Longrightarrow> base_ok c' es = base_ok c es"
proof -
  assume *: "c_inflight c' = c_inflight c" "c_rx c' = c_rx c" "c_tx c' = c_tx c" "c_ibuf c' = c_ibuf c" "c_proto c' = c_proto c"
  have "buf_ok c' u = buf_ok c u" for u using * by (cases u) simp_all
  then show ?thesis using * by (simp add: base_ok_def)
qed

lemma close_conn_ring_ok:
  assumes "slot_pre srv N i c es k" and "base_ok c es"
  shows "\<exists>k'. close_conn_ring E K i k = Some k' \<and> wk_inv srv N k'"
proof -
  define cancel where "cancel = (c_inotify_fd c \<noteq> None \<and> \<not> c_inotify_cancelled c)"
  define c1 where "c1 = (if cancel then c\<lparr>c_closing := True, c_inotify_cancelled := True\<rparr> else c\<lparr>c_closing := True\<rparr>)"
  define k1 where "k1 = (if cancel
    then sq_push \<lparr>q_op = UCancel (ud OP_INOTIFY i (c_gen c) 0), q_link = False, q_ud = ud OP_CANCEL 0xFFFFFF 0 0\<rparr> (set_conn i c1 k)
    else set_conn i c1 k)"
  have c1: "c_gen c1 = c_gen c" "c_closing c1" "base_ok c1 es" "c_inflight c1 = c_inflight c" "c_proto c1 = c_proto c" "c_fd c1 = c_fd c"
    using assms(2) base_ok_cong [of c1 c es] by (simp_all add: c1_def)
  have p: "slot_pre srv N i c1 es k1"
    using slot_pre_ring_other [OF slot_pre_set [OF assms(1) c1(1)], of "UCancel (ud OP_INOTIFY i (c_gen c) 0)" "ud OP_CANCEL 0xFFFFFF 0 0" False]
      slot_pre_set [OF assms(1) c1(1)] ud_parts_ud [of "0xFFFFFF" OP_CANCEL 0 0]
    by (simp add: k1_def sq_push_def)
  have e: "close_conn_ring E K i k = (if c_inflight c = 0 then finalize_close E i k1
      else Some (k1\<lparr>k_w := os_shutdown K (c_fd c) (k_w k1)\<rparr>))"
    using slot_pre_conn [OF assms(1)]
    by (auto simp: close_conn_ring_def conn_mut_Some idx_def cancel_def c1_def k1_def Let_def)
  show ?thesis
  proof (cases "c_inflight c = 0")
    case True
    then have "es = []" using assms(2) by (simp add: base_ok_def)
    then show ?thesis using finalize_close_ok [of srv N i c1 k1 E] p c1(3) True e by (simp add: base_ok_def)
  next
    case False
    then have "es \<noteq> []" using assms(2) by (auto simp: base_ok_def)
    then have "wk_inv srv N (k1\<lparr>k_w := w\<rparr>)" for w
      using p c1 by (intro slot_pre_inv [of srv N i c1 es]) (simp_all add: conn_inv_def)
    then show ?thesis using False e by simp
  qed
qed

end
