(* ===== verification/Uring_Ok.thy ===== *)
theory Uring_Ok
  imports Uring_Inv
begin

text \<open>
  Every function of the reactor returns (no panic) and re-establishes the worker's invariant.
\<close>

section \<open>Receiving\<close>

lemma frame_total_ok:
  assumes "c_rx_off c \<le> c_rx_len c" and "c_rx_len c \<le> length (c_rx c)"
  shows "\<exists>t. frame_total c = Some t"
  using assms by (auto simp: frame_total_def Let_def slice_get_def)

lemma tx_part_cong:
  assumes "c_txm c' = c_txm c" "c_tx c' = c_tx c" "c_tx_off c' = c_tx_off c" "c_zc c' = c_zc c" "c_pipe c' = c_pipe c"
    "c_pending_zc c' = c_pending_zc c" "c_notif_pending c' = c_notif_pending c" "c_fd c' = c_fd c"
    "c_send_is_zc c' = c_send_is_zc c"
  shows "tx_part c' ts = tx_part c ts"
  using assms by (simp add: tx_part_def zc_live_def chain_op_def cong: txm.case_cong)

text \<open>Changing the receive buffer while no receive is outstanding.\<close>

lemma tx_free_rx:
  assumes "tx_free c es" and "\<not> c_recv_inflight c" and "c' = c\<lparr>c_rx := rx, c_rx_len := n, c_rx_off := off\<rparr>"
    and "off \<le> n" and "n \<le> length rx" and "length rx \<le> RX_CAP"
  shows "tx_free c' es"
proof -
  have r: "filter is_recv es = []" using assms(1,2) by (simp add: tx_free_def recv_part_def)
  have "buf_ok c' u = buf_ok c u" if "u \<in> set es" for u
  proof -
    have "\<not> is_recv u" using that r by (auto simp: filter_empty_conv)
    then show ?thesis using assms(3) by (cases u) simp_all
  qed
  then show ?thesis
    using assms by (auto simp: tx_free_def base_ok_def recv_part_def inot_part_def notif_part_def cong: option.case_cong)
qed

lemma compact_ok:
  assumes "tx_free c es" and "\<not> c_recv_inflight c"
  shows "tx_free (compact c) es" and "c_recv_inflight (compact c) = c_recv_inflight c"
    and "tx_part (compact c) ts = tx_part c ts" and "c_gen (compact c) = c_gen c" and "c_rx_off (compact c) = 0"
proof -
  have b: "c_rx_off c \<le> c_rx_len c" "c_rx_len c \<le> length (c_rx c)" "length (c_rx c) \<le> RX_CAP"
    using assms(1) by (simp_all add: tx_free_def recv_part_def)
  let ?live = "take (c_rx_len c - c_rx_off c) (drop (c_rx_off c) (c_rx c))"
  show "tx_free (compact c) es"
  proof (cases "c_rx_off c > 0")
    case True
    then show ?thesis
      using b
      by (intro tx_free_rx [OF assms, where rx = "?live @ drop (length ?live) (c_rx c)" and n = "c_rx_len c - c_rx_off c" and off = 0])
        (simp_all add: compact_def Let_def)
  next
    case False
    then show ?thesis using assms(1) by (simp add: compact_def)
  qed
  show "tx_part (compact c) ts = tx_part c ts" by (rule tx_part_cong) (simp_all add: compact_def Let_def)
qed (simp_all add: compact_def Let_def)

lemma rx_resize_ok:
  assumes "tx_free c es" and "\<not> c_recv_inflight c" and "length (c_rx c) \<le> n" and "n \<le> RX_CAP"
  shows "tx_free (rx_resize n c) es" and "tx_part (rx_resize n c) ts = tx_part c ts"
proof -
  show "tx_free (rx_resize n c) es"
    using assms(1,3,4)
    by (intro tx_free_rx [OF assms(1,2), where rx = "take n (c_rx c) @ zbytes (n - length (c_rx c))"
          and n = "c_rx_len c" and off = "c_rx_off c"])
      (simp_all add: rx_resize_def tx_free_def recv_part_def)
  show "tx_part (rx_resize n c) ts = tx_part c ts" by (rule tx_part_cong) (simp_all add: rx_resize_def)
qed

text \<open>Arming the receive.\<close>

lemma arm_recv_ok:
  assumes "slot_pre srv N i c es k" and "tx_free c es" and "tx_part c (filter is_tx es)" and "\<not> c_recv_inflight c"
  shows "\<exists>k'. sq_push_conn i \<lparr>q_op = URecv (c_fd c) (c_rx_len c) (length (c_rx c) - c_rx_len c), q_link = False,
      q_ud = ud OP_RECV i (c_gen c) 0\<rparr> (set_conn i (c\<lparr>c_recv_inflight := True\<rparr>) k) = Some k' \<and> wk_inv srv N k'"
proof -
  let ?u = "URecv (c_fd c) (c_rx_len c) (length (c_rx c) - c_rx_len c)"
  let ?c = "c\<lparr>c_recv_inflight := True\<rparr>"
  obtain k' where k': "sq_push_conn i \<lparr>q_op = ?u, q_link = False, q_ud = ud OP_RECV i (c_gen ?c) 0\<rparr> (set_conn i ?c k) = Some k'"
      "slot_pre srv N i (?c\<lparr>c_inflight := c_inflight ?c + 1\<rparr>) (es @ [?u]) k'"
    using sq_push_conn_ok [OF slot_pre_set [OF assms(1), of ?c], of ?u OP_RECV False] by auto
  let ?d = "?c\<lparr>c_inflight := c_inflight ?c + 1\<rparr>"
  have "buf_ok ?d u = buf_ok c u" for u by (cases u) simp_all
  then have "tx_free ?d (es @ [?u])"
    using assms(2,4) by (auto simp: tx_free_def base_ok_def recv_part_def inot_part_def notif_part_def cong: option.case_cong)
  moreover have "tx_part ?d (filter is_tx (es @ [?u]))"
    using assms(3) tx_part_cong [of ?d c] by simp
  ultimately have "conn_inv ?d (es @ [?u])" using assms(2) by (simp add: conn_inv_def tx_free_def)
  then show ?thesis using k' slot_pre_inv by auto
qed

lemma maybe_arm_recv_ok:
  assumes "wk_inv srv N k" and "conn_mut i k = Some c"
  shows "\<exists>k'. maybe_arm_recv E K i k = Some k' \<and> wk_inv srv N k'"
proof (cases "c_recv_inflight c \<or> c_closing c \<or> c_close_after_send c")
  case True
  then show ?thesis using assms by (simp add: maybe_arm_recv_def)
next
  case False
  let ?es = "ents i (k_ring k)"
  have p: "slot_pre srv N i c ?es k" and inv: "tx_free c ?es" "tx_part c (filter is_tx ?es)"
    using wk_inv_pre [OF assms] False by (auto simp: conn_inv_def)
  define c1 where "c1 = compact c"
  have c1: "tx_free c1 ?es" "\<not> c_recv_inflight c1" "tx_part c1 (filter is_tx ?es)" "c_gen c1 = c_gen c"
    using compact_ok [OF inv(1)] inv(2) False by (simp_all add: c1_def)
  have b: "c_rx_off c1 \<le> c_rx_len c1" "c_rx_len c1 \<le> length (c_rx c1)" "length (c_rx c1) \<le> RX_CAP"
    using c1(1) by (simp_all add: tx_free_def recv_part_def)
  obtain t where t: "frame_total c1 = Some t" using frame_total_ok [OF b(1,2)] by blast
  show ?thesis
  proof (cases t)
    case (Inl u)
    have "base_ok c1 ?es" using c1(1) by (simp add: tx_free_def)
    then show ?thesis
      using close_conn_ring_ok [OF slot_pre_set [OF p c1(4)]] False t Inl assms(2)
      by (simp add: maybe_arm_recv_def c1_def [symmetric])
  next
    case (Inr tot)
    define needed where "needed = (case tot of None \<Rightarrow> c_rx_len c1 + RX_MIN_ROOM | Some t \<Rightarrow> max t (c_rx_len c1 + RX_MIN_ROOM))"
    define c2 where "c2 = (if length (c_rx c1) < needed then rx_resize (min needed RX_CAP) c1 else c1)"
    have c2: "tx_free c2 ?es" "tx_part c2 (filter is_tx ?es)" "\<not> c_recv_inflight c2" "c_gen c2 = c_gen c"
      using rx_resize_ok [OF c1(1,2), of "min needed RX_CAP"] c1 b by (simp_all add: c2_def rx_resize_def)
    have l: "c_rx_len c2 \<le> length (c_rx c2)" using c2(1) by (simp add: tx_free_def recv_part_def)
    have p2: "slot_pre srv N i c2 ?es (set_conn i c2 k)" by (rule slot_pre_set [OF p c2(4)])
    have ss: "set_conn i d (set_conn i c2 k) = set_conn i d k" for d by (simp add: set_conn_def)
    obtain k' where k': "sq_push_conn i \<lparr>q_op = URecv (c_fd c2) (c_rx_len c2) (length (c_rx c2) - c_rx_len c2), q_link = False,
        q_ud = ud OP_RECV i (c_gen c2) 0\<rparr> (set_conn i (c2\<lparr>c_recv_inflight := True\<rparr>) k) = Some k'" "wk_inv srv N k'"
      using arm_recv_ok [OF p2 c2(1,2,3)] ss by auto
    have i2: "wk_inv srv N (set_conn i c2 k)"
      using slot_pre_inv [OF p2] c2(1,2) by (simp add: conn_inv_def tx_free_def)
    have e: "maybe_arm_recv E K i k = do {
        buf \<leftarrow> slice_from (c_rx c2) (c_rx_len c2);
        if buf = [] then Some (set_conn i c2 k)
        else sq_push_conn i \<lparr>q_op = URecv (c_fd c2) (c_rx_len c2) (length buf), q_link = False,
            q_ud = ud OP_RECV i (c_gen c2) 0\<rparr> (set_conn i (c2\<lparr>c_recv_inflight := True\<rparr>) k) }"
      unfolding c2_def needed_def RX_CAP_def using False t Inr assms(2)
      by (simp add: maybe_arm_recv_def c1_def [symmetric] Let_def)
    show ?thesis
      unfolding e using l k' i2 by (simp add: slice_from_def)
  qed
qed

section \<open>Change notification\<close>

lemma pc_ok_notify [simp]:
  "pc_ok (pc\<lparr>pc_notify_active := a\<rparr>) = pc_ok pc" "pc_ok (pc\<lparr>pc_notify_new := n, pc_notify_done := d\<rparr>) = pc_ok pc"
  by (simp_all add: pc_ok_def msg_ok_def credits_ok_def)

lemma tx_free_soft:
  assumes "notify_frame c c'" and "c_inotify_fd c' = c_inotify_fd c" and "c_ibuf c' = c_ibuf c"
    and "c_inflight c' = c_inflight c" and "pc_ok (c_proto c')" and "tx_free c es"
  shows "tx_free c' es"
proof -
  have "buf_ok c' u = buf_ok c u" for u using assms(1,3) by (cases u) (simp_all add: notify_frame_def)
  then show ?thesis
    using assms by (simp add: notify_frame_def tx_free_def base_ok_def recv_part_def inot_part_def notif_part_def
        cong: option.case_cong if_cong)
qed

definition cwr_ok :: "srv \<Rightarrow> nat \<Rightarrow> nat \<Rightarrow> 'w wk \<Rightarrow> uop list \<Rightarrow> 'w cwr \<Rightarrow> bool" where
  "cwr_ok srv N i k ts s \<longleftrightarrow> (case s of (c, w, q) \<Rightarrow>
     \<exists>es. slot_pre srv N i c es (set_conn i c (k\<lparr>k_w := w, k_ring := q\<rparr>)) \<and> tx_free c es \<and> filter is_tx es = ts)"

lemma set_conn_again:
  "set_conn i c' ((set_conn i c k)\<lparr>k_ring := q\<rparr>) = set_conn i c' (k\<lparr>k_ring := q\<rparr>)"
  "set_conn i c' (set_conn i c k) = set_conn i c' k"
  by (simp_all add: set_conn_def)

lemma slot_pre_world:
  "slot_pre srv N i c es (set_conn i d (k\<lparr>k_w := w', k_ring := q\<rparr>)) =
     slot_pre srv N i c es (set_conn i d (k\<lparr>k_w := w, k_ring := q\<rparr>))"
proof -
  have "set_conn i d (k\<lparr>k_w := w', k_ring := q\<rparr>) = (set_conn i d (k\<lparr>k_w := w, k_ring := q\<rparr>))\<lparr>k_w := w'\<rparr>"
    by (simp add: set_conn_def)
  then show ?thesis by (simp only: slot_pre_w)
qed

text \<open>Changes to a connection that leave its entries alone.\<close>

lemma cwr_ok_conn:
  assumes "cwr_ok srv N i k ts (c, w, q)" and "c_gen c' = c_gen c" and "\<And>es. tx_free c es \<Longrightarrow> tx_free c' es"
  shows "cwr_ok srv N i k ts (c', w', q)"
proof -
  obtain es where es: "slot_pre srv N i c es (set_conn i c (k\<lparr>k_w := w, k_ring := q\<rparr>))" "tx_free c es" "filter is_tx es = ts"
    using assms(1) by (auto simp: cwr_ok_def)
  have "slot_pre srv N i c' es (set_conn i c' (k\<lparr>k_w := w, k_ring := q\<rparr>))"
    using slot_pre_set [OF es(1) assms(2)] by (simp add: set_conn_again)
  then have "slot_pre srv N i c' es (set_conn i c' (k\<lparr>k_w := w', k_ring := q\<rparr>))"
    by (simp only: slot_pre_world [where w' = w' and w = w])
  then show ?thesis using es assms(3) by (auto simp: cwr_ok_def)
qed

lemma arm_inotify_ok:
  assumes "slot_pre srv N i c es (set_conn i c (k\<lparr>k_w := w, k_ring := q\<rparr>))" and "base_ok c es" and "\<not> c_closing c"
    and "recv_part c es" and "notif_part c es" and "filter is_inot es = []" and "c_inotify_fd c = Some ifd"
    and "filter is_tx es = ts"
  shows "\<exists>s'. arm_inotify i (c, w, q) = Some s' \<and> cwr_ok srv N i k ts s'"
proof -
  let ?u = "UReadInotify ifd (length (c_ibuf c))"
  let ?e = "\<lparr>q_op = ?u, q_link = False, q_ud = ud OP_INOTIFY i (c_gen c) 0\<rparr>"
  let ?c = "c\<lparr>c_inflight := c_inflight c + 1\<rparr>"
  have "slot_pre srv N i c (es @ [?u]) ((set_conn i c (k\<lparr>k_w := w, k_ring := q\<rparr>))\<lparr>k_ring := q @ [?e]\<rparr>)"
    using slot_pre_ring [OF assms(1), of ?u OP_INOTIFY False] by simp
  from slot_pre_set [OF this, of ?c]
  have "slot_pre srv N i ?c (es @ [?u]) (set_conn i ?c (k\<lparr>k_w := w, k_ring := q @ [?e]\<rparr>))"
    by (simp add: set_conn_again)
  moreover have "buf_ok ?c u = buf_ok c u" for u by (cases u) simp_all
  then have "tx_free ?c (es @ [?u])"
    using assms(2-7) by (auto simp: tx_free_def base_ok_def recv_part_def inot_part_def notif_part_def)
  ultimately have "cwr_ok srv N i k ts (?c, w, q @ [?e])" using assms(8) by (auto simp: cwr_ok_def)
  then show ?thesis using assms(3,7) by (simp add: arm_inotify_def)
qed

lemma complete_notify_ok:
  assumes "crypto_ok E" and "cwr_ok srv N i k ts (c, w, q)"
  shows "\<exists>c'. complete_notify E pend st ev c = Some c' \<and> cwr_ok srv N i k ts (c', w', q)"
proof -
  have "pc_ok (c_proto c)" using assms(2) by (auto simp: cwr_ok_def tx_free_def base_ok_def)
  then obtain pc b where b: "build_notify_final E (c_proto c) (np_meta pend) st ev (np_out_len pend) = Some (pc, b)" "pc_ok pc"
    using build_notify_final_ok [OF assms(1)] by blast
  let ?c = "c\<lparr>c_deferred := c_deferred c @ [b],
      c_proto := pc\<lparr>pc_notify_active := filter (\<lambda>(_, a). a \<noteq> np_async_id pend) (pc_notify_active pc)\<rparr>\<rparr>"
  have "tx_free c es \<Longrightarrow> tx_free ?c es" for es
    using b(2) by (elim tx_free_soft [rotated -1]) (simp_all add: notify_frame_def)
  then have "cwr_ok srv N i k ts (?c, w', q)" by (intro cwr_ok_conn [OF assms(2)]) simp_all
  then show ?thesis using b(1) by (simp add: complete_notify_def)
qed

lemma inotify_ready_ok:
  assumes "cwr_ok srv N i k ts (c, w, q)"
  shows "\<exists>ok s'. inotify_ready K i (c, w, q) = Some (ok, s') \<and> cwr_ok srv N i k ts s' \<and> (ok \<longrightarrow> c_inotify_fd (fst s') \<noteq> None)"
proof (cases "c_inotify_fd c")
  case (Some ifd)
  then show ?thesis using assms by (auto simp: inotify_ready_def)
next
  case None
  obtain ifd w1 where w1: "os_inotify_init K w = (ifd, w1)" by fastforce
  show ?thesis
  proof (cases "ifd < 0")
    case True
    then show ?thesis using None w1 cwr_ok_conn [OF assms, of c w1] by (auto simp: inotify_ready_def)
  next
    case False
    let ?c = "c\<lparr>c_inotify_fd := Some ifd, c_ibuf := zbytes 4096\<rparr>"
    obtain es where es: "slot_pre srv N i c es (set_conn i c (k\<lparr>k_w := w, k_ring := q\<rparr>))" "tx_free c es" "filter is_tx es = ts"
      using assms by (auto simp: cwr_ok_def)
    have ni: "filter is_inot es = []" using es(2) None by (simp add: tx_free_def inot_part_def)
    have bo: "buf_ok ?c u = buf_ok c u" if "u \<in> set es" for u
    proof -
      have "\<not> is_inot u" using that ni by (auto simp: filter_empty_conv)
      then show ?thesis by (cases u) simp_all
    qed
    have "slot_pre srv N i ?c es (set_conn i ?c (k\<lparr>k_w := w, k_ring := q\<rparr>))"
      using slot_pre_set [OF es(1), of ?c] by (simp add: set_conn_again)
    then have p: "slot_pre srv N i ?c es (set_conn i ?c (k\<lparr>k_w := w1, k_ring := q\<rparr>))"
      by (simp only: slot_pre_world [where w' = w1 and w = w])
    have "base_ok ?c es" using es(2) bo by (simp add: tx_free_def base_ok_def)
    moreover have "recv_part ?c es" "notif_part ?c es" "\<not> c_closing ?c"
      using es(2) by (simp_all add: tx_free_def recv_part_def notif_part_def)
    ultimately obtain s' where s': "arm_inotify i (?c, w1, q) = Some s'" "cwr_ok srv N i k ts s'"
      using arm_inotify_ok [OF p _ _ _ _ ni _ es(3), of ifd] by auto
    then have "c_inotify_fd (fst s') \<noteq> None" by (auto simp: arm_inotify_def split: if_splits)
    then show ?thesis using None False w1 s' by (auto simp: inotify_ready_def)
  qed
qed

lemma notify_watch_ok:
  assumes "crypto_ok E" and "cwr_ok srv N i k ts s"
  shows "\<exists>s'. notify_watch E K i pend s = Some s' \<and> cwr_ok srv N i k ts s'"
proof -
  obtain c w q where s: "s = (c, w, q)" by (cases s)
  obtain ok c1 w1 q1 where r: "inotify_ready K i s = Some (ok, c1, w1, q1)" "cwr_ok srv N i k ts (c1, w1, q1)"
      "ok \<Longrightarrow> c_inotify_fd c1 \<noteq> None"
    using inotify_ready_ok [OF assms(2) [unfolded s], of K] s by force
  have n: "\<exists>s'. (complete_notify E pend st [] c1 \<bind> (\<lambda>c. Some (c, w2, q1))) = Some s' \<and> cwr_ok srv N i k ts s'" for st w2
    using complete_notify_ok [OF assms(1) r(2), of pend st "[]" w2] by auto
  have "pc_ok (c_proto c1)" using r(2) by (auto simp: cwr_ok_def tx_free_def base_ok_def)
  then have "tx_free c1 es \<Longrightarrow> tx_free (c1\<lparr>c_watches := ws\<rparr>) es" for es ws
    by (elim tx_free_soft [rotated -1]) (simp_all add: notify_frame_def)
  then have wt: "cwr_ok srv N i k ts (c1\<lparr>c_watches := ws\<rparr>, w2, q1)" for ws w2
    by (intro cwr_ok_conn [OF r(2)]) simp_all
  show ?thesis
  proof (cases ok)
    case False
    then show ?thesis using r(1) n by (simp add: notify_watch_def)
  next
    case True
    then obtain ifd where "c_inotify_fd c1 = Some ifd" using r(3) by blast
    then show ?thesis using True r(1) n wt unfolding notify_watch_def case_prod_beta by simp
  qed
qed

lemma notify_finish_ok:
  assumes "crypto_ok E" and "cwr_ok srv N i k ts s"
  shows "\<exists>s'. notify_finish E K d s = Some s' \<and> cwr_ok srv N i k ts s'"
proof -
  obtain c w q where s: "s = (c, w, q)" by (cases s)
  have pc: "pc_ok (c_proto c)" using assms(2) s by (auto simp: cwr_ok_def tx_free_def base_ok_def)
  have tf: "tx_free c es \<Longrightarrow> tx_free (c\<lparr>c_watches := ws, c_proto := p, c_deferred := dd\<rparr>) es" if "pc_ok p" for es ws p dd
    using that by (elim tx_free_soft [rotated -1]) (simp_all add: notify_frame_def)
  have k: "cwr_ok srv N i k ts (c\<lparr>c_watches := ws, c_proto := p, c_deferred := dd\<rparr>, w', q)" if "pc_ok p" for ws p dd w'
    by (rule cwr_ok_conn [OF assms(2) [unfolded s] _ tf [OF that]]) simp
  have b: "\<exists>p r. build_notify_final E (c_proto c) m st [] n = Some (p, r) \<and> pc_ok p" for m st n
    using build_notify_final_ok [OF assms(1) pc] by blast
  show ?thesis
  proof (cases "position (\<lambda>x. np_async_id (wt_pend x) = nd_async_id d) (c_watches c)")
    case None
    then show ?thesis using assms(2) s by (simp add: notify_finish_def)
  next
    case (Some pos)
    let ?x = "wt_pend (c_watches c ! pos)"
    obtain p r where "build_notify_final E (c_proto c) (np_meta ?x) (nd_status d) [] (np_out_len ?x) = Some (p, r)" "pc_ok p"
      using b by blast
    then show ?thesis using Some s k by (simp add: notify_finish_def Let_def)
  qed
qed

lemma each_ok:
  assumes "\<And>x s. P s \<Longrightarrow> \<exists>s'. f x s = Some s' \<and> P s'" and "P s"
  shows "\<exists>s'. each f xs s = Some s' \<and> P s'"
  using assms(2)
proof (induction xs arbitrary: s)
  case (Cons x xs)
  obtain s1 where "f x s = Some s1" "P s1" using assms(1) [OF Cons.prems] by blast
  then show ?case using Cons.IH by simp
qed simp

lemma service_notify_ok:
  assumes "crypto_ok E" and "cwr_ok srv N i k ts s"
  shows "\<exists>s'. service_notify E K i s = Some s' \<and> cwr_ok srv N i k ts s'"
proof -
  obtain c w q where s: "s = (c, w, q)" by (cases s)
  let ?c = "c\<lparr>c_proto := (c_proto c)\<lparr>pc_notify_new := [], pc_notify_done := []\<rparr>\<rparr>"
  have "pc_ok (c_proto c)" using assms(2) s by (auto simp: cwr_ok_def tx_free_def base_ok_def)
  then have "tx_free c es \<Longrightarrow> tx_free ?c es" for es
    by (elim tx_free_soft [rotated -1]) (simp_all add: notify_frame_def)
  then have "cwr_ok srv N i k ts (?c, w, q)" by (intro cwr_ok_conn [OF assms(2) [unfolded s]]) simp_all
  then obtain s1 where s1: "each (notify_watch E K i) (pc_notify_new (c_proto c)) (?c, w, q) = Some s1" "cwr_ok srv N i k ts s1"
    using each_ok [of "cwr_ok srv N i k ts" "notify_watch E K i"] notify_watch_ok [OF assms(1)] by blast
  obtain s2 where "each (notify_finish E K) (pc_notify_done (c_proto c)) s1 = Some s2" "cwr_ok srv N i k ts s2"
    using each_ok [of "cwr_ok srv N i k ts" "notify_finish E K"] notify_finish_ok [OF assms(1)] s1(2) by blast
  then show ?thesis using s s1(1) by (simp add: service_notify_def Let_def)
qed

section \<open>Sending\<close>

text \<open>The result of a function that leaves a connection in its slot.\<close>

definition kept :: "srv \<Rightarrow> nat \<Rightarrow> nat \<Rightarrow> 'w wk option \<Rightarrow> bool" where
  "kept srv N i r \<longleftrightarrow> (\<exists>k c. r = Some k \<and> wk_inv srv N k \<and> conn_mut i k = Some c)"

definition returns :: "srv \<Rightarrow> nat \<Rightarrow> 'w wk option \<Rightarrow> bool" where
  "returns srv N r \<longleftrightarrow> (\<exists>k. r = Some k \<and> wk_inv srv N k)"

lemma kept_returns: "kept srv N i r \<Longrightarrow> returns srv N r"
  by (auto simp: kept_def returns_def)

lemma tx_free_push:
  assumes "tx_free c es" and "is_tx u" and "buf_ok c u" and "c' = c\<lparr>c_inflight := c_inflight c + 1\<rparr>"
  shows "tx_free c' (es @ [u])"
proof -
  have "buf_ok c' v = buf_ok c v" for v using assms(4) by (cases v) simp_all
  moreover have "\<not> is_recv u" "\<not> is_inot u" "u \<noteq> UNotif" using assms(2) by (cases u; simp)+
  ultimately show ?thesis
    using assms(1,3,4) by (auto simp: tx_free_def base_ok_def recv_part_def inot_part_def notif_part_def cong: option.case_cong)
qed

lemma push_tx_ok:
  assumes "slot_pre srv N i c es k" and "tx_free c es" and "filter is_tx es = []" and "is_tx u" and "buf_ok c u"
    and "conn_op u = Some op" and "tx_part c [u]"
  shows "kept srv N i (sq_push_conn i \<lparr>q_op = u, q_link = l, q_ud = ud op i (c_gen c) 0\<rparr> k)"
proof -
  let ?d = "c\<lparr>c_inflight := c_inflight c + 1\<rparr>"
  obtain k' where k': "sq_push_conn i \<lparr>q_op = u, q_link = l, q_ud = ud op i (c_gen c) 0\<rparr> k = Some k'"
      "slot_pre srv N i ?d (es @ [u]) k'"
    using sq_push_conn_ok [OF assms(1,6)] by blast
  have "tx_part ?d (filter is_tx (es @ [u]))" using assms(3,4,7) tx_part_cong [of ?d c] by simp
  then have "conn_inv ?d (es @ [u])"
    using tx_free_push [OF assms(2,4,5) refl] assms(2) by (simp add: conn_inv_def tx_free_def)
  then show ?thesis using k' slot_pre_inv [OF k'(2)] slot_pre_conn [OF k'(2)] by (auto simp: kept_def)
qed

lemma submit_send_ok:
  assumes "slot_pre srv N i c es k" and "tx_free c es" and "filter is_tx es = []" and "c_tx_off c < length (c_tx c)"
    and t: "tx_part (c\<lparr>c_send_is_zc := False\<rparr>) [USend (c_fd c) (c_tx_off c) (length (c_tx c) - c_tx_off c) m]"
      "\<not> m \<Longrightarrow> tx_part (c\<lparr>c_send_is_zc := True\<rparr>) [USendZc (c_fd c) (c_tx_off c) (length (c_tx c) - c_tx_off c)]"
  shows "kept srv N i (submit_send i m k)"
proof -
  define z where "z = (k_zc_ok k \<and> \<not> c_copy_next c \<and> \<not> m \<and> length (c_tx c) - c_tx_off c \<ge> ZC_SEND_MIN)"
  let ?d = "c\<lparr>c_send_is_zc := z, c_copy_next := False\<rparr>"
  let ?n = "length (c_tx c) - c_tx_off c"
  let ?u = "if z then USendZc (c_fd c) (c_tx_off c) ?n else USend (c_fd c) (c_tx_off c) ?n m"
  have p: "slot_pre srv N i ?d es (set_conn i ?d k)" by (rule slot_pre_set [OF assms(1)]) simp
  have "base_ok ?d es = base_ok c es" by (rule base_ok_cong) simp_all
  then have "tx_free ?d es" using assms(2) by (simp add: tx_free_def recv_part_def inot_part_def notif_part_def cong: option.case_cong)
  moreover have "tx_part ?d [?u]"
  proof (cases z)
    case True
    then have "\<not> m" by (simp add: z_def)
    then show ?thesis using True t(2) tx_part_cong [of ?d "c\<lparr>c_send_is_zc := True\<rparr>"] by simp
  next
    case False
    then show ?thesis using t(1) tx_part_cong [of ?d "c\<lparr>c_send_is_zc := False\<rparr>"] by simp
  qed
  ultimately have "kept srv N i (sq_push_conn i \<lparr>q_op = ?u, q_link = False, q_ud = ud OP_SEND i (c_gen ?d) 0\<rparr> (set_conn i ?d k))"
    using assms(3,4) by (intro push_tx_ok [OF p]) simp_all
  then show ?thesis
    using slot_pre_conn [OF assms(1)] assms(4)
    by (cases z) (simp_all add: submit_send_def slice_from_def Let_def z_def [symmetric])
qed

lemma send_ok:
  assumes "slot_pre srv N i c es k" and "tx_free c es" and "filter is_tx es = []" and "c_tx_off c < length (c_tx c)"
    and "c_txm c = Send" and "c_zc c = None"
  shows "kept srv N i (submit_send i False k)"
  by (rule submit_send_ok [OF assms(1-4)]) (simp_all add: tx_part_def assms(4-6))

text \<open>The transmit side at rest, with responses to send or not.\<close>

definition tx_idle :: "conn \<Rightarrow> uop list \<Rightarrow> bool" where
  "tx_idle c es \<longleftrightarrow> tx_free c es \<and> filter is_tx es = [] \<and> c_txm c = Idle \<and> c_notif_pending c = 0 \<and> c_zc c = None \<and>
     c_pending_zc c = None \<and> c_tx_off c = 0"

lemma tx_free_txm: "tx_free (c\<lparr>c_txm := m\<rparr>) es = tx_free c es"
  using base_ok_cong [of "c\<lparr>c_txm := m\<rparr>" c es]
  by (simp add: tx_free_def recv_part_def inot_part_def notif_part_def cong: option.case_cong)

lemma start_send_ok:
  assumes "slot_pre srv N i c es k" and "tx_free c es" and "filter is_tx es = []" and "c_tx_off c = 0" and "c_tx c \<noteq> []"
    and "c_zc c = None"
  shows "kept srv N i (start_send i k)"
proof -
  have "kept srv N i (submit_send i False (set_conn i (c\<lparr>c_txm := Send\<rparr>) k))"
    using assms by (intro send_ok [OF slot_pre_set [OF assms(1)]]) (simp_all add: tx_free_txm)
  then show ?thesis using slot_pre_conn [OF assms(1)] by (simp add: start_send_def)
qed

section \<open>Zero-copy reads\<close>

text \<open>Replacing the send buffer while nothing is outstanding on the transmit side.\<close>

lemma tx_free_tx:
  assumes "tx_free c es" and "filter is_tx es = []"
    and "c_rx d = c_rx c" "c_rx_off d = c_rx_off c" "c_rx_len d = c_rx_len c" "c_recv_inflight d = c_recv_inflight c"
      "c_fd d = c_fd c" "c_inotify_fd d = c_inotify_fd c" "c_ibuf d = c_ibuf c" "c_inflight d = c_inflight c"
      "c_proto d = c_proto c" "c_closing d = c_closing c" "c_notif_pending d = c_notif_pending c"
  shows "tx_free d es"
proof -
  have "buf_ok d u = buf_ok c u" if "u \<in> set es" for u
  proof -
    have "\<not> is_tx u" using that assms(2) by (auto simp: filter_empty_conv)
    then show ?thesis using assms(3-) by (cases u) simp_all
  qed
  then show ?thesis
    using assms(1,3-) by (simp add: tx_free_def base_ok_def recv_part_def inot_part_def notif_part_def cong: option.case_cong)
qed

lemma send_read_err_ok:
  assumes "slot_pre srv N i c0 es k" and "c_gen c = c_gen c0" and "tx_free c es" and "filter is_tx es = []" and "c_zc c = None"
  shows "kept srv N i (send_read_err E i plan st c k)"
proof -
  obtain tx where tx: "build_read_err plan st = Some tx" "tx \<noteq> []" using build_read_err_ok by blast
  let ?d = "c\<lparr>c_tx := tx, c_tx_off := 0, c_txm := Send\<rparr>"
  have "tx_free ?d es" by (rule tx_free_tx [OF assms(3,4)]) simp_all
  moreover have "slot_pre srv N i ?d es (set_conn i ?d (k\<lparr>k_w := w\<rparr>))" for w
    using assms(1,2) by (intro slot_pre_set [of srv N i c0]) simp_all
  ultimately have "kept srv N i (submit_send i False (set_conn i ?d (k\<lparr>k_w := w\<rparr>)))" for w
    using assms(4,5) tx(2) send_ok [of srv N i ?d es "set_conn i ?d (k\<lparr>k_w := w\<rparr>)"] by simp
  then show ?thesis using tx(1) by (simp add: send_read_err_def Let_def)
qed

lemma submit_splice_in_ok:
  assumes "slot_pre srv N i c es k" and "tx_free c es" and "filter is_tx es = []"
    and "zc_live c z r w" and "\<not> z_linked z" and "c_txm c = ZcIn" and "c_tx c = []" and "c_tx_off c = 0"
  shows "kept srv N i (submit_splice_in i k)"
proof -
  have "kept srv N i (sq_push_conn i \<lparr>q_op = USpliceIn (zc_fd (z_plan z)) (zc_offset (z_plan z) + ucast (z_got z)) w
      (z_want z - z_got z), q_link = False, q_ud = ud OP_SPLICE_IN i (c_gen c) 0\<rparr> k)"
    using assms(4-8) by (intro push_tx_ok [OF assms(1-3)]) (simp_all add: tx_part_def zc_live_def)
  then show ?thesis
    using assms(4) slot_pre_conn [OF assms(1)] by (simp add: submit_splice_in_def zc_live_def)
qed

lemma submit_splice_out_ok:
  assumes "slot_pre srv N i c es k" and "tx_free c es" and "filter is_tx es = []"
    and "zc_live c z r w" and "\<not> z_linked z" and "c_txm c = ZcOut" and "0 < z_out_left z"
  shows "kept srv N i (submit_splice_out i k)"
proof -
  have "kept srv N i (sq_push_conn i \<lparr>q_op = USpliceOut r (c_fd c) (z_out_left z), q_link = False,
      q_ud = ud OP_SPLICE_OUT i (c_gen c) 0\<rparr> k)"
    using assms(4-7) by (intro push_tx_ok [OF assms(1-3)]) (simp_all add: tx_part_def zc_live_def)
  then show ?thesis
    using assms(4) slot_pre_conn [OF assms(1)] by (simp add: submit_splice_out_def zc_live_def)
qed

text \<open>The linked chain: three entries at once.\<close>

lemma slot_pre_push3:
  assumes "slot_pre srv N i c es k" and "conn_op u1 = Some o1" and "conn_op u2 = Some o2" and "conn_op u3 = Some o3"
    and "c_gen d = c_gen c"
  shows "slot_pre srv N i d (es @ [u1, u2, u3])
    (sq_push \<lparr>q_op = u3, q_link = l3, q_ud = ud o3 i (c_gen c) 0\<rparr>
      (sq_push \<lparr>q_op = u2, q_link = l2, q_ud = ud o2 i (c_gen c) 0\<rparr>
        (sq_push \<lparr>q_op = u1, q_link = l1, q_ud = ud o1 i (c_gen c) 0\<rparr> (set_conn i d k))))"
  using slot_pre_ring [OF slot_pre_ring [OF slot_pre_ring [OF slot_pre_set [OF assms(1,5)] assms(2), of l1] assms(3), of l2]
      assms(4), of l3] assms(5)
  by (simp add: sq_push_def)

lemma submit_zc_linked_ok:
  assumes "slot_pre srv N i c es k" and "tx_free c es" and "filter is_tx es = []"
    and "zc_live c z r w" and "z_linked z" and "z_chain z = 3" and "c_txm c = ZcOut"
  shows "kept srv N i (submit_zc_linked i k)"
proof -
  let ?d = "c\<lparr>c_inflight := c_inflight c + 3\<rparr>"
  let ?u1 = "USpliceIn (zc_fd (z_plan z)) (zc_offset (z_plan z)) w (z_want z)"
    and ?u2 = "USend (c_fd c) 0 (length (c_tx c)) True" and ?u3 = "USpliceOut r (c_fd c) (z_want z)"
  define k' where "k' = sq_push \<lparr>q_op = ?u3, q_link = False, q_ud = ud OP_SPLICE_OUT i (c_gen c) 0\<rparr>
      (sq_push \<lparr>q_op = ?u2, q_link = True, q_ud = ud OP_SEND i (c_gen c) 0\<rparr>
        (sq_push \<lparr>q_op = ?u1, q_link = True, q_ud = ud OP_SPLICE_IN i (c_gen c) 0\<rparr> (set_conn i ?d k)))"
  have p: "slot_pre srv N i ?d (es @ [?u1, ?u2, ?u3]) k'"
    unfolding k'_def by (rule slot_pre_push3 [OF assms(1)]) simp_all
  have "buf_ok ?d u = buf_ok c u" for u by (cases u) simp_all
  then have "tx_free ?d (es @ [?u1, ?u2, ?u3])"
    using assms(2) by (auto simp: tx_free_def base_ok_def recv_part_def inot_part_def notif_part_def cong: option.case_cong)
  moreover have "tx_part ?d (filter is_tx (es @ [?u1, ?u2, ?u3]))"
    using assms(3-7) by (simp add: tx_part_def zc_live_def chain_op_def)
  ultimately have "conn_inv ?d (es @ [?u1, ?u2, ?u3])" by (simp add: conn_inv_def tx_free_def)
  then have "wk_inv srv N k'" by (rule slot_pre_inv [OF p])
  moreover have "submit_zc_linked i k = Some k'"
    using assms(4) slot_pre_conn [OF assms(1)] by (simp add: submit_zc_linked_def zc_live_def k'_def Let_def)
  ultimately show ?thesis using slot_pre_conn [OF p] by (auto simp: kept_def)
qed

lemma ensure_pipe_Some:
  assumes "ensure_pipe K n c w = (Some d, w')"
  shows "\<exists>cap r wr. d = c\<lparr>c_pipe := Some (r, wr), c_pipe_cap := cap\<rparr>"
proof (cases "c_pipe c")
  case None
  then show ?thesis using assms by (auto simp: ensure_pipe_def split: option.splits prod.splits)
next
  case (Some p)
  obtain r wr where p: "p = (r, wr)" by (cases p)
  have "d = c" using assms Some by (simp add: ensure_pipe_def)
  moreover have "c = c\<lparr>c_pipe := Some (r, wr), c_pipe_cap := c_pipe_cap c\<rparr>" using Some p by simp
  ultimately show ?thesis by blast
qed

lemma start_zc_ok:
  assumes "slot_pre srv N i c es k" and "tx_free c es" and "filter is_tx es = []" and "c_zc c = None"
    and "c_notif_pending c = 0" and "c_pending_zc c = None" and "c_tx c = []" and "c_tx_off c = 0"
  shows "kept srv N i (start_zc E K sv i plan k)"
proof -
  obtain c' w where e: "ensure_pipe K (sv_max_read sv) c (k_w k) = (c', w)" by fastforce
  show ?thesis
  proof (cases c')
    case None
    then show ?thesis
      using send_read_err_ok [of srv N i c es "k\<lparr>k_w := w\<rparr>" c] assms e slot_pre_conn [OF assms(1)]
      by (simp add: start_zc_def)
  next
    case (Some d)
    obtain cap r wr where d: "d = c\<lparr>c_pipe := Some (r, wr), c_pipe_cap := cap\<rparr>"
      using ensure_pipe_Some [OF e [unfolded Some]] by blast
    have p: "slot_pre srv N i x es (set_conn i x (k\<lparr>k_w := w\<rparr>))" if "c_gen x = c_gen c" for x
      using assms(1) that by (intro slot_pre_set [of srv N i c]) simp_all
    obtain b where b: "build_read_resp_prefix plan (zc_length plan) = Some b" using build_read_resp_prefix_ok by blast
    let ?z1 = "\<lparr>z_plan = plan, z_want = min (zc_length plan) cap, z_got = min (zc_length plan) cap,
      z_out_left = zc_length plan, z_linked = True, z_chain = 3, z_err = False\<rparr>"
    let ?z2 = "\<lparr>z_plan = plan, z_want = min (zc_length plan) cap, z_got = 0, z_out_left = 0, z_linked = False,
      z_chain = 0, z_err = False\<rparr>"
    let ?c1 = "d\<lparr>c_tx := b, c_tx_off := 0, c_zc := Some ?z1, c_txm := ZcOut\<rparr>"
    let ?c2 = "d\<lparr>c_zc := Some ?z2, c_txm := ZcIn\<rparr>"
    have tf: "tx_free ?c1 es" "tx_free ?c2 es" by (rule tx_free_tx [OF assms(2,3)]; simp add: d)+
    have "kept srv N i (submit_zc_linked i (set_conn i ?c1 (k\<lparr>k_w := w\<rparr>)))"
      using assms(5,6) by (intro submit_zc_linked_ok [OF p tf(1) assms(3), where z = ?z1 and r = r and w = wr])
        (simp_all add: d zc_live_def)
    moreover have "kept srv N i (submit_splice_in i (set_conn i ?c2 (k\<lparr>k_w := w\<rparr>)))"
      using assms(5-8) by (intro submit_splice_in_ok [OF p tf(2) assms(3), where z = ?z2 and r = r and w = wr])
        (simp_all add: d zc_live_def)
    ultimately show ?thesis
      using e Some b slot_pre_conn [OF assms(1)] unfolding start_zc_def
      by (cases "zc_linked plan"; cases "zc_length plan \<le> cap") (simp_all add: d Let_def min_def)
  qed
qed

end
