(* ===== verification/Drive_Ok.thy ===== *)
theory Drive_Ok
  imports Uring_Ok
begin

text \<open>
  Processing the frames of a connection's receive buffer: \<open>drive\<close> and what it calls return and
  re-establish the worker's invariant.
\<close>

section \<open>One frame\<close>

definition idle_st :: "srv \<Rightarrow> nat \<Rightarrow> nat \<Rightarrow> 'w wk \<Rightarrow> bool" where
  "idle_st srv N i k \<longleftrightarrow> (\<exists>c es. slot_pre srv N i c es k \<and> tx_idle c es)"

definition out_ok :: "srv \<Rightarrow> nat \<Rightarrow> nat \<Rightarrow> 'w drive_out \<Rightarrow> bool" where
  "out_ok srv N i r \<longleftrightarrow> (case r of Go k \<Rightarrow> idle_st srv N i k | Leave k \<Rightarrow> idle_st srv N i k | Return k \<Rightarrow> wk_inv srv N k)"

lemma slot_pre_mono: "slot_pre srv N i c es k \<Longrightarrow> N \<le> M \<Longrightarrow> slot_pre srv M i c es k"
  by (simp add: slot_pre_def shared_ok_def)

lemma idle_st_mono: "idle_st srv N i k \<Longrightarrow> N \<le> M \<Longrightarrow> idle_st srv M i k"
  unfolding idle_st_def using slot_pre_mono by blast

lemma out_ok_mono: "out_ok srv N i r \<Longrightarrow> N \<le> M \<Longrightarrow> out_ok srv M i r"
  by (cases r) (simp_all add: out_ok_def idle_st_mono wk_inv_mono)

lemma tx_idle_frame:
  assumes "tx_idle c es" and "notify_frame c d" and "tx_free d es'" and "filter is_tx es' = []"
  shows "tx_idle d es'"
  using assms by (simp add: tx_idle_def notify_frame_def)

text \<open>The connection after its frame has been consumed and the response appended.\<close>

lemma tx_idle_consumed:
  assumes "tx_idle c es" and "c_rx_off c + tot \<le> c_rx_len c" and "pc_ok pc"
  shows "tx_idle (c\<lparr>c_proto := pc, c_tx := tx, c_rx_off := c_rx_off c + tot\<rparr>) es" (is "tx_idle ?d es")
proof -
  have "tx_free c es" "filter is_tx es = []" using assms(1) by (simp_all add: tx_idle_def)
  moreover have "buf_ok ?d u = buf_ok c u" if "u \<in> set es" for u
  proof -
    have "\<not> is_tx u" using that \<open>filter is_tx es = []\<close> by (auto simp: filter_empty_conv)
    then show ?thesis by (cases u) simp_all
  qed
  ultimately have "tx_free ?d es"
    using assms(2,3) by (simp add: tx_free_def base_ok_def recv_part_def inot_part_def notif_part_def cong: option.case_cong)
  then show ?thesis using assms(1) by (simp add: tx_idle_def)
qed

lemma run_frame_ok:
  assumes "srv_ok srv" and "host_ok E" and p: "slot_pre srv N i c es k" and idle: "tx_idle c es"
    and tot: "4 \<le> tot" "tot \<le> c_rx_len c - c_rx_off c" and room: "N + MAX_COMPOUND \<le> SESSION_ROOM"
  shows "\<exists>act k'. run_frame E K srv i c tot k = Some (act, k') \<and> idle_st srv (N + MAX_COMPOUND) i k'"
proof -
  let ?N = "N + MAX_COMPOUND"
  have b: "c_rx_off c \<le> c_rx_len c" "c_rx_len c \<le> length (c_rx c)" and pc: "pc_ok (c_proto c)"
    using idle by (simp_all add: tx_idle_def tx_free_def recv_part_def base_ok_def)
  have sh: "shared_ok srv N k" using p by (simp add: slot_pre_def)
  obtain frame where f: "slice_get (c_rx c) (c_rx_off c + 4) (c_rx_off c + tot) = Some frame"
  proof -
    have "c_rx_off c + tot \<le> length (c_rx c)" using b tot by linarith
    then show thesis using tot(1) that by (simp add: slice_get_def)
  qed
  have "st_ok srv (st_of c k)" "length (g_sessions (st_of c k)) + MAX_COMPOUND \<le> SESSION_ROOM"
    using sh pc room by (simp_all add: st_ok_def st_of_def shared_ok_def)
  then obtain act s where s: "process_frame E srv frame (st_of c k) = Some (act, s)" "st_ok srv s"
      "length (g_mail s) = length (k_mail k)" "length (g_sessions s) \<le> ?N"
    using process_frame_ok [OF assms(1,2)] sh
    by (fastforce simp: frame_ok_def framed_st_def fits_def after_fits_def st_of_def shared_ok_def)
  let ?c = "c\<lparr>c_proto := g_pc s, c_tx := g_tx s, c_rx_off := c_rx_off c + tot\<rparr>" and ?k = "put_shared s k"
  have d: "tx_idle ?c es" using idle s(2) b(1) tot(2) by (intro tx_idle_consumed) (simp_all add: st_ok_def)
  have "slot_pre srv ?N i c es ?k" using p s(2-4) by (intro slot_pre_shared) (simp_all add: st_ok_def)
  then have "slot_pre srv ?N i ?c es (set_conn i ?c ?k)" by (rule slot_pre_set) simp
  then have cw: "cwr_ok srv ?N i ?k [] (?c, k_w ?k, k_ring ?k)" using d by (auto simp: cwr_ok_def tx_idle_def)
  define nb where "nb = (pc_notify_new (g_pc s) \<noteq> [] \<or> pc_notify_done (g_pc s) \<noteq> [])"
  obtain c' w q where n: "(if nb then service_notify E K i (?c, k_w ?k, k_ring ?k) else Some (?c, k_w ?k, k_ring ?k)) = Some (c', w, q)"
      "cwr_ok srv ?N i ?k [] (c', w, q)"
    using service_notify_ok [OF host_okD(1) [OF assms(2)] cw, of K] cw by (cases nb) auto
  have nf: "notify_frame ?c c'" using n(1) by (auto simp: notify_frame_refl dest: service_notify_frame split: if_splits)
  obtain es' where es': "slot_pre srv ?N i c' es' (set_conn i c' (?k\<lparr>k_w := w, k_ring := q\<rparr>))" "tx_free c' es'" "filter is_tx es' = []"
    using n(2) by (auto simp: cwr_ok_def)
  have "idle_st srv ?N i (set_conn i c' (?k\<lparr>k_w := w, k_ring := q\<rparr>))"
    using es' tx_idle_frame [OF d nf es'(2,3)] by (auto simp: idle_st_def)
  then show ?thesis using f s(1) n(1) unfolding run_frame_def Let_def by (simp add: nb_def)
qed

lemma tx_idle_inv: "tx_idle c es \<Longrightarrow> c_tx c = [] \<Longrightarrow> conn_inv c es"
  by (simp add: conn_inv_def tx_idle_def tx_part_def tx_free_def)

lemma after_frame_ok:
  assumes "idle_st srv N i k"
  shows "\<exists>r. after_frame E K srv i act k = Some r \<and> out_ok srv N i r"
proof -
  obtain c es where p: "slot_pre srv N i c es k" and idle: "tx_idle c es" using assms by (auto simp: idle_st_def)
  have c: "conn_mut i k = Some c" by (rule slot_pre_conn [OF p])
  have tf: "tx_free c es" "filter is_tx es = []" "c_zc c = None" "c_notif_pending c = 0" "c_pending_zc c = None" "c_tx_off c = 0"
    using idle by (simp_all add: tx_idle_def)
  show ?thesis
  proof (cases act)
    case Respond
    then show ?thesis using assms by (simp add: after_frame_def out_ok_def)
  next
    case Close
    obtain k' where "close_conn_ring E K i k = Some k'" "wk_inv srv N k'"
      using close_conn_ring_ok [OF p] tf(1) by (auto simp: tx_free_def)
    then show ?thesis using Close by (simp add: after_frame_def out_ok_def)
  next
    case RespondClose
    let ?c = "c\<lparr>c_close_after_send := True\<rparr>"
    have q: "slot_pre srv N i ?c es (set_conn i ?c k)" by (rule slot_pre_set [OF p]) simp
    have t: "tx_free ?c es" by (rule tx_free_tx [OF tf(1,2)]) simp_all
    have "returns srv N (close_conn_ring E K i (set_conn i ?c k))"
      using close_conn_ring_ok [OF q] t by (auto simp: tx_free_def returns_def)
    moreover have "returns srv N (start_send i (set_conn i ?c k))" if "c_tx c \<noteq> []"
      using start_send_ok [OF q t tf(2)] tf that by (intro kept_returns) simp
    ultimately have "returns srv N (if c_tx c = [] then close_conn_ring E K i (set_conn i ?c k) else start_send i (set_conn i ?c k))"
      by simp
    then show ?thesis using RespondClose c by (auto simp: after_frame_def out_ok_def returns_def)
  next
    case (ZcRead plan)
    let ?c = "c\<lparr>c_pending_zc := Some plan\<rparr>"
    have q: "slot_pre srv N i ?c es (set_conn i ?c k)" by (rule slot_pre_set [OF p]) simp
    have t: "tx_free ?c es" by (rule tx_free_tx [OF tf(1,2)]) simp_all
    have "kept srv N i (if c_tx c = [] then start_zc E K srv i plan k else start_send i (set_conn i ?c k))"
      using start_zc_ok [OF p tf(1-5)] start_send_ok [OF q t tf(2)] tf by simp
    then obtain k' c' where k': "(if c_tx c = [] then start_zc E K srv i plan k else start_send i (set_conn i ?c k)) = Some k'"
        "wk_inv srv N k'" "conn_mut i k' = Some c'"
      by (auto simp: kept_def)
    then show ?thesis
      using ZcRead c maybe_arm_recv_ok [OF k'(2,3), of E K] by (auto simp: after_frame_def out_ok_def)
  qed
qed

section \<open>The loop\<close>

lemma drive_step_ok:
  assumes "srv_ok srv" and "host_ok E" and st: "idle_st srv N i k" and room: "0 < rx_left i k \<Longrightarrow> N + MAX_COMPOUND \<le> SESSION_ROOM"
  shows "\<exists>r. drive_step E K srv i k = Some r \<and>
    (out_ok srv N i r \<or> (0 < rx_left i k \<and> out_ok srv (N + MAX_COMPOUND) i r))"
proof -
  obtain c es where p: "slot_pre srv N i c es k" and idle: "tx_idle c es" using st by (auto simp: idle_st_def)
  have c: "conn_mut i k = Some c" by (rule slot_pre_conn [OF p])
  have b: "c_rx_off c \<le> c_rx_len c" "c_rx_len c \<le> length (c_rx c)" "base_ok c es"
    using idle by (simp_all add: tx_idle_def tx_free_def recv_part_def)
  obtain t where t: "frame_total c = Some t" using frame_total_ok [OF b(1,2)] by blast
  consider "TX_FLUSH \<le> length (c_tx c) - c_tx_off c \<or> t = Inr None \<or> (\<exists>tot. t = Inr (Some tot) \<and> c_rx_len c - c_rx_off c < tot)"
    | (drop) u where "t = Inl u" "\<not> TX_FLUSH \<le> length (c_tx c) - c_tx_off c"
    | (run) tot where "t = Inr (Some tot)" "tot \<le> c_rx_len c - c_rx_off c" "\<not> TX_FLUSH \<le> length (c_tx c) - c_tx_off c"
    by (cases t; fastforce simp: not_less)
  then show ?thesis
  proof cases
    case 1
    then have "drive_step E K srv i k = Some (Leave k)" using c t by (auto simp: drive_step_def)
    then show ?thesis using st by (simp add: out_ok_def)
  next
    case drop
    obtain k' where "close_conn_ring E K i k = Some k'" "wk_inv srv N k'" using close_conn_ring_ok [OF p b(3)] by blast
    then show ?thesis using drop c t by (simp add: drive_step_def out_ok_def)
  next
    case run
    have tot: "4 \<le> tot" using frame_total_ge t run(1) by blast
    then have l: "0 < rx_left i k" using run(2) c by (simp add: rx_left_def)
    obtain act k' where k': "run_frame E K srv i c tot k = Some (act, k')" "idle_st srv (N + MAX_COMPOUND) i k'"
      using run_frame_ok [OF assms(1,2) p idle tot run(2) room [OF l]] by blast
    then show ?thesis
      using after_frame_ok [OF k'(2), of E K act] l run c t by (auto simp: drive_step_def)
  qed
qed

lemma drive_loop_ok:
  assumes "srv_ok srv" and "host_ok E"
  shows "idle_st srv N i k \<Longrightarrow> N + MAX_COMPOUND * rx_left i k \<le> SESSION_ROOM \<Longrightarrow>
    \<exists>r. drive_loop E K srv i k = Some r \<and> out_ok srv (N + MAX_COMPOUND * rx_left i k) i r"
proof (induction "rx_left i k" arbitrary: k N rule: less_induct)
  case less
  let ?n = "rx_left i k"
  have m: "N + MAX_COMPOUND \<le> N + MAX_COMPOUND * ?n" if "0 < ?n" using that by (cases ?n) simp_all
  have room: "N + MAX_COMPOUND \<le> SESSION_ROOM" if "0 < ?n" using less.prems(2) m [OF that] by linarith
  obtain r where r: "drive_step E K srv i k = Some r"
      "out_ok srv N i r \<or> (0 < ?n \<and> out_ok srv (N + MAX_COMPOUND) i r)"
    using drive_step_ok [OF assms less.prems(1) room, of K] by blast
  have up: "out_ok srv (N + MAX_COMPOUND * ?n) i r" using r(2) m by (auto intro: out_ok_mono)
  show ?case
  proof (cases r)
    case (Go k')
    have lt: "rx_left i k' < ?n" by (rule drive_step_progress [OF r(1) [unfolded Go]])
    have st: "idle_st srv (N + MAX_COMPOUND) i k'"
      using r(2) Go by (auto simp: out_ok_def intro: idle_st_mono)
    have le: "N + MAX_COMPOUND + MAX_COMPOUND * rx_left i k' \<le> N + MAX_COMPOUND * ?n"
      using mult_le_mono2 [of "Suc (rx_left i k')" ?n MAX_COMPOUND] lt by simp
    obtain r' where "drive_loop E K srv i k' = Some r'" "out_ok srv (N + MAX_COMPOUND + MAX_COMPOUND * rx_left i k') i r'"
      using less.hyps [OF lt st] less.prems(2) le by auto
    then show ?thesis using r(1) Go out_ok_mono [OF _ le] by (subst drive_loop.simps) simp
  qed (use r(1) up in \<open>simp_all add: drive_loop.simps [of E K srv i k]\<close>)
qed

lemma drive_loop_no_Go: "drive_loop E K srv i k \<noteq> Some (Go k')"
proof (induction E K srv i k rule: drive_loop.induct)
  case (1 E K srv i k)
  then show ?case by (subst drive_loop.simps) (auto split: option.split drive_out.split)
qed

section \<open>Driving a connection\<close>

text \<open>The sessions one call can add: its frames fit the receive buffer.\<close>

definition DRIVE_MAX :: nat where "DRIVE_MAX = MAX_COMPOUND * RX_CAP"

lemma idle_rx_left: "idle_st srv N i k \<Longrightarrow> rx_left i k \<le> RX_CAP"
  by (auto simp: idle_st_def tx_idle_def tx_free_def recv_part_def rx_left_def dest!: slot_pre_conn)

lemma leave_ok:
  assumes "idle_st srv N i k"
  shows "returns srv N (do { c \<leftarrow> conn_mut i k; k \<leftarrow> (if c_tx c \<noteq> [] then start_send i k else Some k); maybe_arm_recv E K i k })"
proof -
  obtain c es where p: "slot_pre srv N i c es k" and idle: "tx_idle c es" using assms by (auto simp: idle_st_def)
  have c: "conn_mut i k = Some c" by (rule slot_pre_conn [OF p])
  have "kept srv N i (if c_tx c \<noteq> [] then start_send i k else Some k)"
  proof (cases "c_tx c = []")
    case True
    then show ?thesis using slot_pre_inv [OF p tx_idle_inv [OF idle]] c by (auto simp: kept_def)
  next
    case False
    then show ?thesis using start_send_ok [OF p] idle by (simp add: tx_idle_def)
  qed
  then obtain k' c' where k': "(if c_tx c \<noteq> [] then start_send i k else Some k) = Some k'" "wk_inv srv N k'" "conn_mut i k' = Some c'"
    by (auto simp: kept_def)
  then show ?thesis using c maybe_arm_recv_ok [OF k'(2,3), of E K] by (auto simp: returns_def)
qed

lemma drive_ok:
  assumes "srv_ok srv" and "host_ok E" and "idle_st srv N i k" and "N + DRIVE_MAX \<le> SESSION_ROOM"
  shows "returns srv (N + DRIVE_MAX) (drive E K srv i k)"
proof -
  obtain c es where p: "slot_pre srv N i c es k" and idle: "tx_idle c es" using assms(3) by (auto simp: idle_st_def)
  have c: "conn_mut i k = Some c" by (rule slot_pre_conn [OF p])
  obtain ds tx where f: "flush_deferred (c_deferred c) (c_tx c) = (ds, tx)" by fastforce
  let ?c = "c\<lparr>c_deferred := ds, c_tx := tx\<rparr>"
  have "tx_free ?c es" by (rule tx_free_tx [of c]) (use idle in \<open>simp_all add: tx_idle_def\<close>)
  then have "tx_idle ?c es" using idle by (simp add: tx_idle_def)
  then have st: "idle_st srv N i (set_conn i ?c k)" using slot_pre_set [OF p, of ?c] by (auto simp: idle_st_def)
  let ?M = "N + MAX_COMPOUND * rx_left i (set_conn i ?c k)"
  have le: "?M \<le> N + DRIVE_MAX" using idle_rx_left [OF st] by (simp add: DRIVE_MAX_def)
  then have "?M \<le> SESSION_ROOM" using assms(4) by simp
  then obtain r where r: "drive_loop E K srv i (set_conn i ?c k) = Some r" "out_ok srv ?M i r"
    using drive_loop_ok [OF assms(1,2) st] by blast
  have "out_ok srv (N + DRIVE_MAX) i r" by (rule out_ok_mono [OF r(2) le])
  then show ?thesis
    using c f r(1) leave_ok drive_loop_no_Go [of E K srv i "set_conn i ?c k"]
    by (cases r) (auto simp: drive_def out_ok_def returns_def simp del: bind_Some_iff)
qed

end
