(* ===== verification/Cqe_Ok.thy ===== *)
theory Cqe_Ok
  imports Drive_Ok
begin

text \<open>
  The completion handlers of the reactor: each returns and re-establishes the worker's invariant
  when the completion is one the kernel can post for the entry.
\<close>

section \<open>Results\<close>

lemma returnsI: "r = Some k \<Longrightarrow> wk_inv srv N k \<Longrightarrow> N \<le> M \<Longrightarrow> returns srv M r"
  using wk_inv_mono by (auto simp: returns_def)

lemma returns_mono: "returns srv N r \<Longrightarrow> N \<le> M \<Longrightarrow> returns srv M r"
  using wk_inv_mono by (auto simp: returns_def)

lemma kept_returns_mono: "kept srv N i r \<Longrightarrow> N \<le> M \<Longrightarrow> returns srv M r"
  using kept_returns returns_mono by blast

lemma close_returns: "slot_pre srv N i c es k \<Longrightarrow> base_ok c es \<Longrightarrow> N \<le> M \<Longrightarrow> returns srv M (close_conn_ring E K i k)"
  using close_conn_ring_ok returnsI by metis

lemma arm_returns:
  assumes "slot_pre srv N i c es k" and "conn_inv c es" and "N \<le> M"
  shows "returns srv M (maybe_arm_recv E K i k)"
  using maybe_arm_recv_ok [OF slot_pre_inv [OF assms(1,2)] slot_pre_conn [OF assms(1)], of E K] assms(3) returnsI by blast

lemma drive_returns:
  assumes "srv_ok srv" and "host_ok E" and "slot_pre srv N i c es k" and "tx_idle c es" and "N + DRIVE_MAX \<le> SESSION_ROOM"
  shows "returns srv (N + DRIVE_MAX) (drive E K srv i k)"
proof (rule drive_ok [OF assms(1,2) _ assms(5)])
  show "idle_st srv N i k" using assms(3,4) by (auto simp: idle_st_def)
qed

section \<open>Receive\<close>

lemma conn_invI: "tx_free c es \<Longrightarrow> tx_part c (filter is_tx es) \<Longrightarrow> conn_inv c es"
  by (simp add: conn_inv_def tx_free_def)

lemma idle_part: "tx_free c es \<Longrightarrow> tx_part c (filter is_tx es) \<Longrightarrow> c_txm c = Idle \<Longrightarrow> tx_idle c es"
  by (simp add: tx_part_def tx_idle_def)

lemma on_recv_ok:
  assumes "srv_ok srv" and "host_ok E" and p: "slot_pre srv N i c es k" and tf: "tx_free (c\<lparr>c_recv_inflight := False\<rparr>) es"
    and tp: "tx_part c (filter is_tx es)" and res: "nat res \<le> length (c_rx c) - c_rx_len c"
    and room: "N + DRIVE_MAX \<le> SESSION_ROOM"
  shows "returns srv (N + DRIVE_MAX) (on_recv E K srv i res k)"
proof -
  let ?c = "c\<lparr>c_recv_inflight := False\<rparr>" and ?n = "c_rx_len c + nat res"
  let ?d = "?c\<lparr>c_rx_len := ?n\<rparr>"
  have c: "conn_mut i k = Some c" by (rule slot_pre_conn [OF p])
  have p1: "slot_pre srv N i ?c es (set_conn i ?c k)" and p2: "slot_pre srv N i ?d es (set_conn i ?d k)"
    by (rule slot_pre_set [OF p], simp)+
  have tp1: "tx_part ?c (filter is_tx es)" "tx_part ?d (filter is_tx es)"
    using tp tx_part_cong [of ?c c] tx_part_cong [of ?d c] by simp_all
  have b: "c_rx_off c \<le> c_rx_len c" "c_rx_len c \<le> length (c_rx c)" "length (c_rx c) \<le> RX_CAP"
    using tf by (simp_all add: tx_free_def recv_part_def)
  then have "?n \<le> length (c_rx c)" using res by linarith
  then have "tx_free ?d es"
    using b by (intro tx_free_rx [OF tf, where rx = "c_rx c" and n = ?n and off = "c_rx_off c"]) simp_all
  then have d: "conn_inv ?d es" "c_txm c = Idle \<Longrightarrow> tx_idle ?d es" using tp1(2) conn_invI idle_part by simp_all
  have "returns srv (N + DRIVE_MAX) (maybe_arm_recv E K i (set_conn i ?c k))"
    "returns srv (N + DRIVE_MAX) (maybe_arm_recv E K i (set_conn i ?d k))"
    "returns srv (N + DRIVE_MAX) (close_conn_ring E K i (set_conn i ?c k))"
    using arm_returns [OF p1 conn_invI [OF tf tp1(1)]] arm_returns [OF p2 d(1)] close_returns [OF p1] tf by (simp_all add: tx_free_def)
  then show ?thesis
    using c drive_returns [OF assms(1,2) p2 d(2) room] by (simp add: on_recv_def Let_def set_conn_again)
qed

section \<open>Change notification\<close>

lemma inotify_event_ok:
  assumes "off + 16 \<le> n" and "n \<le> length buf"
  shows "\<exists>r. inotify_event buf n off = Some r"
  using assms by (simp add: inotify_event_def slice_get_def Let_def)

lemma parse_events_ok: "n \<le> length buf \<Longrightarrow> \<exists>r. parse_events buf n off g gone = Some r"
proof (induction buf n off g gone rule: parse_events.induct)
  case (1 buf n off g gone)
  show ?case
  proof (cases "off + 16 \<le> n")
    case False
    then show ?thesis by (subst parse_events.simps) simp
  next
    case True
    obtain wd mk name l where "inotify_event buf n off = Some (wd, mk, name, l)"
      using inotify_event_ok [OF True 1(3)] by auto
    with True 1 show ?thesis by (subst parse_events.simps) simp
  qed
qed

definition soft :: "conn \<Rightarrow> conn \<Rightarrow> bool" where
  "soft c c' \<longleftrightarrow> notify_frame c c' \<and> c_inotify_fd c' = c_inotify_fd c \<and> c_ibuf c' = c_ibuf c \<and>
     c_inflight c' = c_inflight c \<and> pc_ok (c_proto c')"

lemma complete_notify_soft:
  assumes "crypto_ok E" and "pc_ok (c_proto c)"
  shows "\<exists>c'. complete_notify E pend st ev c = Some c' \<and> soft c c'"
  using build_notify_final_ok [OF assms, of "np_meta pend" st ev "np_out_len pend"]
  by (auto simp: complete_notify_def soft_def notify_frame_def)

lemma complete_all_soft:
  assumes "crypto_ok E" and "pc_ok (c_proto c)"
  shows "\<exists>c'. each (\<lambda>(x, ev). complete_notify E (wt_pend x) SUCCESS ev) fired c = Some c' \<and> soft c c'"
proof -
  have "\<exists>d'. (case x of (x, ev) \<Rightarrow> complete_notify E (wt_pend x) SUCCESS ev) d = Some d' \<and> soft c d'" if d: "soft c d" for x d
  proof -
    obtain y ev where x: "x = (y, ev)" by (cases x)
    obtain d' where d': "complete_notify E (wt_pend y) SUCCESS ev d = Some d'" "soft d d'"
      using complete_notify_soft [OF assms(1)] d unfolding soft_def by blast
    have "soft c d'" using d d'(2) notify_frame_trans [of c d d'] by (simp add: soft_def)
    then show ?thesis using d'(1) x by simp
  qed
  moreover have "soft c c" using assms(2) by (simp add: soft_def notify_frame_refl)
  ultimately show ?thesis by (rule each_ok)
qed

lemma soft_parts:
  assumes "soft c d"
  shows "base_ok c es \<Longrightarrow> base_ok d es" "recv_part c es \<Longrightarrow> recv_part d es" "notif_part c es \<Longrightarrow> notif_part d es"
    "tx_part d ts = tx_part c ts" "c_closing d = c_closing c" "c_gen d = c_gen c" "c_inotify_fd d = c_inotify_fd c"
proof -
  have "buf_ok d u = buf_ok c u" for u using assms by (cases u) (simp_all add: soft_def notify_frame_def)
  then show "base_ok c es \<Longrightarrow> base_ok d es" using assms by (simp add: base_ok_def soft_def)
  show "recv_part c es \<Longrightarrow> recv_part d es" "notif_part c es \<Longrightarrow> notif_part d es"
    using assms by (simp_all add: soft_def notify_frame_def recv_part_def notif_part_def cong: if_cong)
  show "tx_part d ts = tx_part c ts" by (rule tx_part_cong) (use assms in \<open>simp_all add: soft_def notify_frame_def\<close>)
qed (use assms in \<open>simp_all add: soft_def notify_frame_def\<close>)

text \<open>Arming the read again.\<close>

lemma arm_again_ok:
  assumes p: "slot_pre srv N i c0 es k" and "c_gen c = c_gen c0" and "base_ok c es" and "\<not> c_closing c" and "recv_part c es"
    and "notif_part c es" and "filter is_inot es = []" and "c_inotify_fd c = Some ifd" and tp: "tx_part c (filter is_tx es)"
  shows "\<exists>c' w' q' es'. arm_inotify i (c, w, k_ring k) = Some (c', w', q') \<and>
    slot_pre srv N i c' es' (set_conn i c' (k\<lparr>k_w := w', k_ring := q'\<rparr>)) \<and> tx_free c' es' \<and> tx_part c' (filter is_tx es')"
proof -
  have "slot_pre srv N i c es (set_conn i c (k\<lparr>k_w := w\<rparr>))" using assms(1,2) by (intro slot_pre_set [of srv N i c0]) simp_all
  then have "slot_pre srv N i c es (set_conn i c (k\<lparr>k_w := w, k_ring := k_ring k\<rparr>))" by simp
  from arm_inotify_ok [OF this assms(3-8) refl] obtain c' w' q' where
    a: "arm_inotify i (c, w, k_ring k) = Some (c', w', q')" "cwr_ok srv N i k (filter is_tx es) (c', w', q')" by auto
  have "notify_frame c c'" by (rule arm_inotify_frame [OF a(1)])
  then have "tx_part c' ts = tx_part c ts" for ts by (intro tx_part_cong) (simp_all add: notify_frame_def)
  then show ?thesis using a tp by (auto simp: cwr_ok_def)
qed

lemma on_inotify_ok:
  assumes "srv_ok srv" and "host_ok E" and p: "slot_pre srv N i c es k" and b: "base_ok c es" "\<not> c_closing c" "recv_part c es"
      "notif_part c es" "filter is_inot es = []" and ifd: "c_inotify_fd c = Some ifd" and tp: "tx_part c (filter is_tx es)"
    and res: "nat res \<le> length (c_ibuf c)" and room: "N + DRIVE_MAX \<le> SESSION_ROOM"
  shows "returns srv (N + DRIVE_MAX) (on_inotify E K srv i res k)"
proof -
  have c: "conn_mut i k = Some c" by (rule slot_pre_conn [OF p])
  consider "res = R_EINTR \<or> res = R_EAGAIN" | (gone) "res \<le> 0" "res \<noteq> R_EINTR" "res \<noteq> R_EAGAIN" | (ev) "res > 0" by linarith
  then show ?thesis
  proof cases
    case 1
    obtain c' w' q' es' where a: "arm_inotify i (c, k_w k, k_ring k) = Some (c', w', q')"
        "slot_pre srv N i c' es' (set_conn i c' (k\<lparr>k_w := w', k_ring := q'\<rparr>))" "tx_free c' es'" "tx_part c' (filter is_tx es')"
      using arm_again_ok [OF p refl b ifd tp] by blast
    show ?thesis
      using 1 c a(1) slot_pre_inv [OF a(2) conn_invI [OF a(3,4)]] by (intro returnsI [where N = N]) (auto simp: on_inotify_def)
  next
    case gone
    let ?d = "c\<lparr>c_inotify_fd := None\<rparr>"
    have "base_ok ?d es" using b(1) base_ok_cong [of ?d c es] by simp
    then have "tx_free ?d es" using b by (simp add: tx_free_def recv_part_def inot_part_def notif_part_def)
    then have "conn_inv ?d es" using tp tx_part_cong [of ?d c] by (intro conn_invI) simp_all
    moreover have "slot_pre srv N i ?d es (set_conn i ?d (k\<lparr>k_w := w\<rparr>))" for w using p by (intro slot_pre_set [of srv N i c]) simp_all
    ultimately have "wk_inv srv N (set_conn i ?d (k\<lparr>k_w := w\<rparr>))" for w using slot_pre_inv by blast
    then show ?thesis using gone c ifd by (intro returnsI [where N = N]) (auto simp: on_inotify_def)
  next
    case ev
    obtain groups lost where pe: "parse_events (c_ibuf c) (nat res) 0 [] [] = Some (groups, lost)"
      using parse_events_ok [OF res] by fastforce
    obtain ws fired where fe: "fire_events groups lost (c_watches c) = (ws, fired)" by fastforce
    let ?w = "fold (\<lambda>(wd, _). os_inotify_rm K ifd wd) groups (k_w k)"
    let ?c = "c\<lparr>c_watches := ws\<rparr>"
    obtain d where d: "each (\<lambda>(x, ev). complete_notify E (wt_pend x) SUCCESS ev) fired ?c = Some d" "soft ?c d"
      using complete_all_soft [OF host_okD(1) [OF assms(2)], of ?c] b(1) by (auto simp: base_ok_def)
    have s: "soft c d" using d(2) by (simp add: soft_def notify_frame_def)
    note sp = soft_parts [OF s]
    obtain c' w' q' es' where a: "arm_inotify i (d, ?w, k_ring k) = Some (c', w', q')"
        "slot_pre srv N i c' es' (set_conn i c' (k\<lparr>k_w := w', k_ring := q'\<rparr>))" "tx_free c' es'" "tx_part c' (filter is_tx es')"
      using arm_again_ok [OF p sp(6) sp(1) [OF b(1)] _ sp(2) [OF b(3)] sp(3) [OF b(4)] b(5)] b(2) ifd sp(4,5,7) tp by metis
    let ?k = "set_conn i c' (k\<lparr>k_w := w', k_ring := q'\<rparr>)"
    have "on_inotify E K srv i res k = (if c_txm c' = Idle \<and> c_deferred c' \<noteq> [] then drive E K srv i ?k else Some ?k)"
      using ev c pe fe ifd d(1) a(1) by (simp add: on_inotify_def Let_def)
    then show ?thesis
      using drive_returns [OF assms(1,2) a(2) idle_part [OF a(3,4)] room] slot_pre_inv [OF a(2) conn_invI [OF a(3,4)]]
      by (auto intro: returnsI [where N = N])
  qed
qed

section \<open>Sends\<close>

text \<open>A connection with nothing outstanding on its transmit side.\<close>

definition tx_clear :: "srv \<Rightarrow> nat \<Rightarrow> nat \<Rightarrow> conn \<Rightarrow> uop list \<Rightarrow> 'w wk \<Rightarrow> bool" where
  "tx_clear srv N i c es k \<longleftrightarrow> slot_pre srv N i c es k \<and> tx_free c es \<and> filter is_tx es = []"

lemma tx_clearD:
  assumes "tx_clear srv N i c es k"
  shows "slot_pre srv N i c es k" "tx_free c es" "filter is_tx es = []" "conn_mut i k = Some c" "base_ok c es" "\<not> c_closing c"
  using assms slot_pre_conn by (auto simp: tx_clear_def tx_free_def)

lemma tx_clear_set:
  assumes "tx_clear srv N i c es k" and "c_gen d = c_gen c"
    and "c_rx d = c_rx c" "c_rx_off d = c_rx_off c" "c_rx_len d = c_rx_len c" "c_recv_inflight d = c_recv_inflight c"
      "c_fd d = c_fd c" "c_inotify_fd d = c_inotify_fd c" "c_ibuf d = c_ibuf c" "c_inflight d = c_inflight c"
      "c_proto d = c_proto c" "c_closing d = c_closing c" "c_notif_pending d = c_notif_pending c"
  shows "tx_clear srv N i d es (set_conn i d (k\<lparr>k_w := w\<rparr>))" and "tx_clear srv N i d es (set_conn i d k)"
proof -
  have "tx_free d es" by (rule tx_free_tx [OF tx_clearD(2,3) [OF assms(1)] assms(3-)])
  moreover have "slot_pre srv N i d es (set_conn i d k)" by (rule slot_pre_set [OF tx_clearD(1) [OF assms(1)] assms(2)])
  moreover have "slot_pre srv N i d es (set_conn i d (k\<lparr>k_w := w\<rparr>))"
    using tx_clearD(1) [OF assms(1)] assms(2) by (intro slot_pre_set [of srv N i c]) simp_all
  ultimately show "tx_clear srv N i d es (set_conn i d (k\<lparr>k_w := w\<rparr>))" "tx_clear srv N i d es (set_conn i d k)"
    using tx_clearD(3) [OF assms(1)] by (simp_all add: tx_clear_def)
qed

lemma finish_send_ok:
  assumes "srv_ok srv" and "host_ok E" and t: "tx_clear srv N i c es k" and z: "c_zc c = None" "c_notif_pending c = 0"
    and room: "N + DRIVE_MAX \<le> SESSION_ROOM"
  shows "returns srv (N + DRIVE_MAX) (finish_send E K srv i k)"
proof -
  let ?c1 = "c\<lparr>c_tx := [], c_tx_off := 0, c_pending_zc := None\<rparr>" and ?c2 = "c\<lparr>c_tx := [], c_tx_off := 0, c_txm := Idle\<rparr>"
  have t1: "tx_clear srv N i ?c1 es (set_conn i ?c1 k)" and t2: "tx_clear srv N i ?c2 es (set_conn i ?c2 k)"
    by (rule tx_clear_set(2) [OF t]; simp)+
  have "returns srv (N + DRIVE_MAX) (start_zc E K srv i plan (set_conn i ?c1 k))" for plan
    using start_zc_ok [OF tx_clearD(1-3) [OF t1], of E K srv plan] z by (auto intro: kept_returns_mono)
  moreover have "returns srv (N + DRIVE_MAX) (drive E K srv i (set_conn i ?c2 k))" if "c_pending_zc c = None"
    using drive_returns [OF assms(1,2) tx_clearD(1) [OF t2] _ room] tx_clearD(2,3) [OF t2] z that by (simp add: tx_idle_def)
  moreover have "returns srv (N + DRIVE_MAX) (close_conn_ring E K i k)"
    by (rule close_returns [OF tx_clearD(1,5) [OF t]]) simp
  ultimately show ?thesis
    using tx_clearD(4) [OF t] by (simp add: finish_send_def Let_def split: option.split)
qed

lemma on_send_notif_ok:
  assumes "srv_ok srv" and "host_ok E" and p: "slot_pre srv N i c es k"
    and tf: "tx_free (c\<lparr>c_notif_pending := c_notif_pending c - 1\<rparr>) es" and tp: "tx_part c (filter is_tx es)"
    and n: "0 < c_notif_pending c" and room: "N + DRIVE_MAX \<le> SESSION_ROOM"
  shows "returns srv (N + DRIVE_MAX) (on_send_notif E K srv i k)"
proof -
  let ?d = "c\<lparr>c_notif_pending := c_notif_pending c - 1\<rparr>"
  have c: "conn_mut i k = Some c" by (rule slot_pre_conn [OF p])
  have pd: "slot_pre srv N i ?d es (set_conn i ?d k)" by (rule slot_pre_set [OF p]) simp
  have m: "c_txm c = Send \<or> c_txm c = Drain" using tp n by (auto simp: tx_part_def zc_live_def split: txm.splits)
  show ?thesis
  proof (cases "c_notif_pending c = 1 \<and> c_txm c = Drain")
    case True
    then have "tx_clear srv N i ?d es (set_conn i ?d k)" "c_zc c = None" using pd tf tp by (simp_all add: tx_clear_def tx_part_def)
    from finish_send_ok [OF assms(1,2) this(1) _ _ room, of K] this(2) True show ?thesis
      using c by (simp add: on_send_notif_def Let_def)
  next
    case False
    have "tx_part ?d (filter is_tx es)" using m tp False n by (auto simp: tx_part_def)
    then have "wk_inv srv N (set_conn i ?d k)" using slot_pre_inv [OF pd] conn_invI [OF tf] by blast
    moreover have "on_send_notif E K srv i k = Some (set_conn i ?d k)"
      using False c n by (auto simp: on_send_notif_def Let_def)
    ultimately show ?thesis by (auto intro: returnsI)
  qed
qed

section \<open>Zero-copy reads\<close>

lemma zc_done_ok:
  assumes "srv_ok srv" and "host_ok E" and t: "tx_clear srv N i c0 es k" and "c = c0\<lparr>c_zc := z0\<rparr>"
    and z: "c_notif_pending c = 0" "c_pending_zc c = None" and room: "N + DRIVE_MAX \<le> SESSION_ROOM"
  shows "returns srv (N + DRIVE_MAX) (zc_done E K srv i c z k)"
proof -
  let ?d = "c\<lparr>c_zc := None, c_tx := [], c_tx_off := 0, c_txm := Idle\<rparr>"
  have "tx_clear srv N i ?d es (set_conn i ?d (k\<lparr>k_w := w\<rparr>))" for w by (rule tx_clear_set(1) [OF t]) (simp_all add: assms(4))
  note d = tx_clearD [OF this]
  have "tx_idle ?d es" using d(2,3) z by (simp add: tx_idle_def)
  then show ?thesis unfolding zc_done_def by (rule drive_returns [OF assms(1,2) d(1) _ room])
qed

lemma splice_out_ok:
  assumes t: "tx_clear srv N i c0 es k" and "c = c0\<lparr>c_zc := Some z, c_txm := ZcOut\<rparr>" and "zc_live c z r w" and "\<not> z_linked z"
    and "0 < z_out_left z"
  shows "kept srv N i (submit_splice_out i (set_conn i c k))"
proof -
  have "tx_clear srv N i c es (set_conn i c k)" by (rule tx_clear_set(2) [OF t]) (simp_all add: assms(2))
  note d = tx_clearD [OF this]
  show ?thesis by (rule submit_splice_out_ok [OF d(1-3) assms(3,4) _ assms(5)]) (simp add: assms(2))
qed

lemma on_linked_cqe_ok:
  assumes "srv_ok srv" and "host_ok E" and p: "slot_pre srv N i c es k" and tf: "tx_free c es"
    and z: "zc_live c z r w" "z_linked z" "c_txm c = ZcOut" "0 < z_chain z"
    and ts: "Suc (length (filter is_tx es)) = unat (z_chain z)" "\<forall>u \<in> set (filter is_tx es). chain_op c z r w u"
    and room: "N + DRIVE_MAX \<le> SESSION_ROOM"
  shows "returns srv (N + DRIVE_MAX) (on_linked_cqe E K srv i op res k)"
proof -
  define z' where "z' = z\<lparr>z_chain := (if z_chain z = 0 then 0 else z_chain z - 1),
    z_out_left := (if op = OP_SPLICE_OUT \<and> res > 0 then z_out_left z - min (word_of_int res) (z_out_left z) else z_out_left z),
    z_err := (z_err z \<or> res < 0)\<rparr>"
  let ?c = "c\<lparr>c_zc := Some z'\<rparr>"
  let ?k = "set_conn i ?c k"
  have c: "conn_mut i k = Some c" by (rule slot_pre_conn [OF p])
  have zl: "zc_live ?c z' r w" "c_notif_pending c = 0" "c_pending_zc c = None" using z(1) by (simp_all add: zc_live_def)
  have z': "z_linked z'" "z_plan z' = z_plan z" "z_want z' = z_want z" using z(2) by (simp_all add: z'_def)
  have "z_chain z \<noteq> 0" using z(4) by auto
  then have ch: "unat (z_chain z') = length (filter is_tx es)"
    using ts(1) unat_minus_one [of "z_chain z"] by (simp add: z'_def)
  have e: "on_linked_cqe E K srv i op res k = (if z_chain z' > 0 then Some ?k
      else if z_err z' then close_conn_ring E K i ?k
      else if z_out_left z' > 0
      then submit_splice_out i (set_conn i (?c\<lparr>c_zc := Some (z'\<lparr>z_linked := False\<rparr>), c_txm := ZcOut\<rparr>) ?k)
      else zc_done E K srv i ?c z' ?k)"
    using c z(1) by (simp add: on_linked_cqe_def Let_def zc_live_def z'_def)
  have pc: "slot_pre srv N i ?c es ?k" by (rule slot_pre_set [OF p]) simp
  have tc: "tx_free ?c es"
    using tf base_ok_cong [of ?c c es] by (simp add: tx_free_def recv_part_def inot_part_def notif_part_def cong: option.case_cong)
  show ?thesis
  proof (cases "z_chain z' > 0")
    case True
    have "tx_part ?c (filter is_tx es)"
      using ts(2) zl(1) z' z(3) ch True by (auto simp: tx_part_def zc_live_def chain_op_def)
    then show ?thesis using True e slot_pre_inv [OF pc conn_invI [OF tc]] by (auto intro: returnsI)
  next
    case False
    then have "filter is_tx es = []" using ch by (metis length_0_conv unsigned_0 word_gt_0)
    then have t: "tx_clear srv N i ?c es ?k" using pc tc by (simp add: tx_clear_def)
    let ?z = "z'\<lparr>z_linked := False\<rparr>"
    have "kept srv N i (submit_splice_out i (set_conn i (?c\<lparr>c_zc := Some ?z, c_txm := ZcOut\<rparr>) ?k))" if "0 < z_out_left z'"
      using that z(1) by (intro splice_out_ok [OF t, where z = ?z and r = r and w = w]) (simp_all add: zc_live_def)
    then show ?thesis
      using False e close_returns [OF tx_clearD(1,5) [OF t]] zc_done_ok [OF assms(1,2) t, of ?c "Some z'"] zl room
      by (auto intro: kept_returns_mono)
  qed
qed

lemma send_more_ok:
  assumes t: "tx_clear srv N i c es k" and "zc_live c z r w" and "\<not> z_linked z" and "0 < z_out_left z" and "c_txm c = ZcHdr"
    and "c_tx_off c < length (c_tx c)"
  shows "kept srv N i (submit_send i True k)"
proof (rule submit_send_ok [OF tx_clearD(1-3) [OF t] assms(6)])
  show "tx_part (c\<lparr>c_send_is_zc := False\<rparr>) [USend (c_fd c) (c_tx_off c) (length (c_tx c) - c_tx_off c) True]"
    using assms(2-6) by (simp add: tx_part_def zc_live_def)
qed simp

text \<open>The header of a zero-copy read.\<close>

lemma on_send_hdr_ok:
  assumes t: "tx_clear srv N i c es k" and z: "zc_live c z r w" "\<not> z_linked z" "0 < z_out_left z" and m: "c_txm c = ZcHdr"
    and off: "c_tx_off c < length (c_tx c)" and nz: "\<not> c_send_is_zc c"
  shows "returns srv N (on_send E K srv i res k)"
proof -
  note d = tx_clearD [OF t]
  let ?c = "c\<lparr>c_tx_off := c_tx_off c + nat res\<rparr>"
  have t1: "tx_clear srv N i ?c es (set_conn i ?c k)" by (rule tx_clear_set(2) [OF t]) simp_all
  have zl: "zc_live ?c z r w" "zc_live (?c\<lparr>c_txm := ZcOut\<rparr>) z r w" using z(1) by (simp_all add: zc_live_def)
  have l: "(case c_zc c of None \<Rightarrow> False | Some z \<Rightarrow> z_linked z) = False" using z(1,2) by (simp add: zc_live_def)
  consider "res = R_EINTR" | (shut) "res \<noteq> R_EINTR" "res \<le> 0" | (sent) "res > 0" by linarith
  then show ?thesis
  proof cases
    case 1
    then show ?thesis using d(4) l m send_more_ok [OF t z m off] by (auto simp: on_send_def intro: kept_returns)
  next
    case shut
    then show ?thesis using d(4) l nz close_returns [OF d(1,5)] by (simp add: on_send_def)
  next
    case sent
    have "kept srv N i (submit_splice_out i (set_conn i (?c\<lparr>c_txm := ZcOut\<rparr>) (set_conn i ?c k)))"
      using z zl(2) by (intro splice_out_ok [OF t1 _ zl(2)]) (simp_all add: zc_live_def)
    moreover have "kept srv N i (submit_send i True (set_conn i ?c k))" if "\<not> length (c_tx c) \<le> c_tx_off c + nat res"
      using that z zl(1) m by (intro send_more_ok [OF t1 zl(1)]) simp_all
    ultimately have "kept srv N i (if length (c_tx c) \<le> c_tx_off c + nat res
        then submit_splice_out i (set_conn i (?c\<lparr>c_txm := ZcOut\<rparr>) (set_conn i ?c k)) else submit_send i True (set_conn i ?c k))"
      by simp
    moreover have "on_send E K srv i res k = (if length (c_tx c) \<le> c_tx_off c + nat res
        then submit_splice_out i (set_conn i (?c\<lparr>c_txm := ZcOut\<rparr>) (set_conn i ?c k)) else submit_send i True (set_conn i ?c k))"
      using sent d(4) l m nz by (simp add: on_send_def Let_def)
    ultimately show ?thesis by (auto intro: kept_returns)
  qed
qed

text \<open>A batch of responses.\<close>

lemma on_send_batch_ok:
  assumes "srv_ok srv" and "host_ok E" and t: "tx_clear srv N i c es k" and z: "c_zc c = None" and m: "c_txm c = Send"
    and off: "c_tx_off c < length (c_tx c)" and room: "N + DRIVE_MAX \<le> SESSION_ROOM"
  shows "returns srv (N + DRIVE_MAX) (on_send E K srv i res k)"
proof -
  note d = tx_clearD [OF t]
  let ?c = "c\<lparr>c_tx_off := c_tx_off c + nat res\<rparr>" and ?cc = "c\<lparr>c_copy_next := True\<rparr>"
  have t1: "tx_clear srv N i ?c es (set_conn i ?c k)" and t2: "tx_clear srv N i ?cc es (set_conn i ?cc k)"
    by (rule tx_clear_set(2) [OF t]; simp)+
  let ?dr = "?c\<lparr>c_txm := Drain\<rparr>"
  have t3: "tx_clear srv N i ?dr es (set_conn i ?dr (set_conn i ?c k))" by (rule tx_clear_set(2) [OF t1]) simp_all
  have s: "returns srv (N + DRIVE_MAX) (submit_send i False k)" "returns srv (N + DRIVE_MAX) (submit_send i False (set_conn i ?cc k))"
    using send_ok [OF d(1-3) off m z] send_ok [OF tx_clearD(1-3) [OF t2]] off m z by (auto intro: kept_returns_mono)
  have s2: "returns srv (N + DRIVE_MAX) (submit_send i False (set_conn i ?c k))" if "\<not> length (c_tx c) \<le> c_tx_off c + nat res"
    using send_ok [OF tx_clearD(1-3) [OF t1]] that m z by (auto intro: kept_returns_mono)
  have "returns srv (N + DRIVE_MAX) (Some (set_conn i ?dr (set_conn i ?c k)))" if "0 < c_notif_pending c"
  proof -
    have "conn_inv ?dr es" using tx_clearD(2,3) [OF t3] that z by (intro conn_invI) (simp_all add: tx_part_def)
    then show ?thesis using slot_pre_inv [OF tx_clearD(1) [OF t3]] by (auto intro: returnsI)
  qed
  moreover have "returns srv (N + DRIVE_MAX) (finish_send E K srv i (set_conn i ?c k))" if "\<not> 0 < c_notif_pending c"
    using finish_send_ok [OF assms(1,2) t1 _ _ room] z that by simp
  moreover have "returns srv (N + DRIVE_MAX) (close_conn_ring E K i k)" by (rule close_returns [OF d(1,5)]) simp
  ultimately show ?thesis
    using d(4) z m s s2 by (simp add: on_send_def Let_def)
qed

lemma zc_fail_ok:
  assumes t: "tx_clear srv N i c es k" and z: "zc_live c z r w"
  shows "kept srv N i (zc_fail E K i st k)"
proof -
  note d = tx_clearD [OF t]
  have f: "tx_free (c\<lparr>c_zc := None\<rparr>) es" by (rule tx_free_tx [OF d(2,3)]) simp_all
  have "kept srv N i (send_read_err E i (z_plan z) st (c\<lparr>c_zc := None\<rparr>) (k\<lparr>k_w := x\<rparr>))" for x
    using d(1,3) f by (intro send_read_err_ok [of srv N i c es]) simp_all
  from this [of "k_w k"] this show ?thesis using d(4) z by (simp add: zc_fail_def zc_live_def)
qed

lemma on_splice_in_ok:
  assumes t: "tx_clear srv N i c es k" and z: "zc_live c z r w" "\<not> z_linked z" and m: "c_txm c = ZcIn"
    and tx: "c_tx c = []" "c_tx_off c = 0"
  shows "kept srv N i (on_splice_in E K srv i res k)"
proof -
  note d = tx_clearD [OF t]
  define z' where "z' = (if res > 0 then z\<lparr>z_got := z_got z + word_of_int res\<rparr> else z)"
  let ?c = "c\<lparr>c_zc := Some z'\<rparr>"
  let ?k = "set_conn i ?c k"
  have t1: "tx_clear srv N i ?c es ?k" by (rule tx_clear_set(2) [OF t]) simp_all
  have zl: "zc_live ?c z' r w" "\<not> z_linked z'" using z by (simp_all add: zc_live_def z'_def)
  obtain b where b: "build_read_resp_prefix (z_plan z') (z_got z') = Some b" "b \<noteq> []"
    using build_read_resp_prefix_ok [of "z_plan z'" "z_got z'"] by fastforce
  let ?h = "c\<lparr>c_zc := Some (z'\<lparr>z_out_left := z_got z'\<rparr>), c_tx := b, c_tx_off := 0, c_txm := ZcHdr\<rparr>"
  have th: "tx_clear srv N i ?h es (set_conn i ?h ?k)" by (rule tx_clear_set(2) [OF t1]) simp_all
  have "kept srv N i (submit_send i True (set_conn i ?h ?k))" if "z_got z' \<noteq> 0"
    using that z zl b(2) by (intro send_more_ok [OF th, where z = "z'\<lparr>z_out_left := z_got z'\<rparr>" and r = r and w = w])
      (simp_all add: zc_live_def word_gt_0)
  moreover have "kept srv N i (submit_splice_in i k)" by (rule submit_splice_in_ok [OF d(1-3) z m tx])
  moreover have "kept srv N i (submit_splice_in i ?k)"
    using m tx by (intro submit_splice_in_ok [OF tx_clearD(1-3) [OF t1] zl]) simp_all
  ultimately show ?thesis
    using d(4) z zc_fail_ok [OF t z(1)] zc_fail_ok [OF t1 zl(1)] b(1)
    by (simp add: on_splice_in_def Let_def zc_live_def z'_def [symmetric])
qed

lemma on_splice_out_ok:
  assumes "srv_ok srv" and "host_ok E" and t: "tx_clear srv N i c es k" and z: "zc_live c z r w" "\<not> z_linked z"
    and m: "c_txm c = ZcOut" and out: "0 < z_out_left z" and room: "N + DRIVE_MAX \<le> SESSION_ROOM"
  shows "returns srv (N + DRIVE_MAX) (on_splice_out E K srv i res k)"
proof -
  note d = tx_clearD [OF t]
  define z' where "z' = z\<lparr>z_out_left := z_out_left z - min (word_of_int res) (z_out_left z)\<rparr>"
  let ?c = "c\<lparr>c_zc := Some z'\<rparr>"
  have c: "?c = c\<lparr>c_zc := Some z', c_txm := ZcOut\<rparr>" using m by simp
  have "kept srv N i (submit_splice_out i k)" by (rule submit_splice_out_ok [OF d(1-3) z m out])
  moreover have "kept srv N i (submit_splice_out i (set_conn i ?c k))" if "0 < z_out_left z'"
    using z by (intro splice_out_ok [OF t c _ _ that]) (simp_all add: zc_live_def z'_def)
  moreover have "returns srv (N + DRIVE_MAX) (zc_done E K srv i ?c z' k)"
    by (rule zc_done_ok [OF assms(1,2) t refl _ _ room]) (use z in \<open>simp_all add: zc_live_def\<close>)
  moreover have "returns srv (N + DRIVE_MAX) (close_conn_ring E K i k)" by (rule close_returns [OF d(1,5)]) simp
  moreover have "z_out_left z' = z_out_left z - min (word_of_int res) (z_out_left z)" by (simp add: z'_def)
  ultimately show ?thesis
    using d(4) z by (auto simp: on_splice_out_def Let_def zc_live_def z'_def [symmetric] intro: kept_returns_mono)
qed

end
