(* ===== verification/Accept_Ok.thy ===== *)
theory Accept_Ok
  imports Cqe_Ok
begin

text \<open>
  Accepting connections, delivering lease breaks from the mailbox, and starting a worker.
\<close>

section \<open>Entries that belong to no connection\<close>

lemma wk_inv_world [simp]: "wk_inv srv N (k\<lparr>k_w := w\<rparr>) = wk_inv srv N k"
  by (simp add: wk_inv_def shared_ok_def slots_ok_def entry_ok_cong [of "k\<lparr>k_w := w\<rparr>" k])

lemma wk_inv_mail:
  "length m = length (k_mail k) \<Longrightarrow> wk_inv srv N (k\<lparr>k_mail := m\<rparr>) = wk_inv srv N k"
  by (simp add: wk_inv_def shared_ok_def slots_ok_def entry_ok_cong [of "k\<lparr>k_mail := m\<rparr>" k])

lemma wk_inv_push:
  assumes "wk_inv srv N k" and "conn_op u = None" and "fst (ud_parts v) \<in> {OP_ACCEPT, OP_WAKE, OP_CANCEL}"
  shows "wk_inv srv N (sq_push \<lparr>q_op = u, q_link = l, q_ud = v\<rparr> k)"
proof -
  let ?e = "\<lparr>q_op = u, q_link = l, q_ud = v\<rparr>"
  have en: "ents j [?e] = []" for j using assms(2) by (simp add: ents_def)
  have "entry_ok k ?e" using assms(2,3) by (auto simp: entry_ok_def)
  then show ?thesis
    using assms(1)
    by (auto simp: wk_inv_def sq_push_def ents_append en shared_ok_def slots_ok_def entry_ok_cong [of "k\<lparr>k_ring := _\<rparr>" k])
qed

lemma arm_accept_ok: "wk_inv srv N k \<Longrightarrow> wk_inv srv N (arm_accept k)"
  unfolding arm_accept_def by (rule wk_inv_push) (simp_all add: ud_parts_ud)

lemma arm_wake_ok: "wk_inv srv N k \<Longrightarrow> returns srv N (arm_wake k)"
proof -
  assume k: "wk_inv srv N k"
  then have "k_wid k < length (k_mail k)" by (simp add: wk_inv_def shared_ok_def)
  moreover have "wk_inv srv N (sq_push \<lparr>q_op = UReadWake fd, q_link = False, q_ud = ud OP_WAKE 0 0 0\<rparr> k)" for fd
    by (rule wk_inv_push [OF k]) (simp_all add: ud_parts_ud)
  ultimately show ?thesis using k by (simp add: arm_wake_def idx_def returns_def)
qed

section \<open>Accepting\<close>

lemma no_ents:
  assumes "wk_inv srv N k" and "conn_mut i k = None"
  shows "ents i (k_ring k) = []"
proof -
  have "slot_of e \<noteq> i" if e: "e \<in> set (k_ring k)" "conn_op (q_op e) = Some op" for e op
  proof -
    obtain j d where "conn_mut j k = Some d" "q_ud e = ud op j (c_gen d) 0"
      using assms(1) e by (fastforce simp: wk_inv_def entry_ok_def)
    moreover have "j < 2 ^ 24" using assms(1) calculation(1) slots_ok_lt by (auto simp: wk_inv_def)
    ultimately have "slot_of e = j" "conn_mut j k \<noteq> None" by (simp_all add: slot_of_def ud_parts_ud)
    then show ?thesis using assms(2) by metis
  qed
  then show ?thesis by (auto simp: ents_def filter_empty_conv)
qed

lemma conn_new_ok: "pc_ok pc \<Longrightarrow> conn_inv (conn_new fd gen pc) []"
  by (simp add: conn_new_def conn_inv_def tx_free_def base_ok_def recv_part_def inot_part_def notif_part_def tx_part_def
      RX_CAP_def RX_INITIAL_def MAX_FRAME_def)

text \<open>A connection in a slot that was free or is new.\<close>

lemma slot_pre_fresh:
  assumes k: "wk_inv srv N k" and i: "conn_mut i k = None" and ring: "k_ring k' = k_ring k" and slots: "slots_ok k'"
    and sh: "shared_ok srv N k'" and cm: "\<And>j. conn_mut j k' = (if j = i then Some c else conn_mut j k)"
  shows "slot_pre srv N i c [] k'"
proof -
  have "entry_ok k' e" if e: "e \<in> set (k_ring k)" for e
  proof (cases "conn_op (q_op e)")
    case None
    then show ?thesis using k e by (fastforce simp: wk_inv_def entry_ok_def)
  next
    case (Some op)
    then obtain j d where j: "conn_mut j k = Some d" "q_ud e = ud op j (c_gen d) 0"
      using k e by (fastforce simp: wk_inv_def entry_ok_def)
    then have "conn_mut j k' = Some d" using i by (auto simp: cm)
    then show ?thesis using Some j(2) by (auto simp: entry_ok_def)
  qed
  then show ?thesis
    using k slots sh no_ents [OF k i] by (auto simp: slot_pre_def cm ring wk_inv_def)
qed

lemma set_conn_new_slots:
  assumes s: "slots_ok k" and "k_free k = i # fr" and "c_gen c = k_gens k ! i"
  shows "slots_ok (set_conn i c (k\<lparr>k_free := fr\<rparr>))" (is "slots_ok ?k")
proof -
  have i: "i < length (k_conns k)" "k_conns k ! i = None" "i \<notin> set fr" "distinct fr" using s assms(2) by (auto simp: slots_ok_def)
  have fr: "set fr = {j. j < length (k_conns k) \<and> k_conns k ! j = None} - {i}" using s assms(2) i(3) by (auto simp: slots_ok_def)
  then have "set fr = {j. j < length (k_conns k) \<and> (k_conns k)[i := Some c] ! j = None}" for c
    using i(1) by (auto simp: nth_list_update)
  moreover have "c_gen d = k_gens k ! j" if "conn_mut j ?k = Some d" for j d
  proof (cases "j = i")
    case True
    then show ?thesis using that i(1) assms(3) by (auto simp: conn_mut_def set_conn_def idx_def)
  next
    case False
    then have "conn_mut j k = Some d" using that by (simp add: conn_mut_def set_conn_def idx_def split: if_splits)
    then show ?thesis using s by (simp add: slots_ok_def)
  qed
  ultimately show ?thesis using s i(4) unfolding slots_ok_def by (simp add: set_conn_def)
qed

lemma append_conn_slots:
  assumes s: "slots_ok k" and "k_free k = []" and "length (k_conns k) < MAX_CONN_SLOTS" and "c_gen c = 1"
  shows "slots_ok (k\<lparr>k_conns := k_conns k @ [Some c], k_gens := k_gens k @ [1]\<rparr>)" (is "slots_ok ?k")
proof -
  have l: "length (k_gens k) = length (k_conns k)" using s by (simp add: slots_ok_def)
  have "\<forall>j < length (k_conns k). k_conns k ! j \<noteq> None" using s assms(2) by (auto simp: slots_ok_def)
  then have "{j. j < Suc (length (k_conns k)) \<and> (k_conns k @ [Some c]) ! j = None} = {}"
    by (auto simp: nth_append less_Suc_eq)
  moreover have "c_gen d = (k_gens k @ [1]) ! j" if "conn_mut j ?k = Some d" for j d
  proof (cases "j = length (k_conns k)")
    case True
    then show ?thesis using that l assms(4) by (simp add: conn_mut_Some nth_append)
  next
    case False
    then have "j < length (k_conns k)" "conn_mut j k = Some d" using that by (auto simp: conn_mut_Some nth_append split: if_splits)
    then show ?thesis using s l by (simp add: slots_ok_def nth_append)
  qed
  ultimately show ?thesis using s assms(2,3) l unfolding slots_ok_def by simp
qed

lemma take_slot_ok:
  assumes s: "slots_ok k" and ts: "take_slot k = (i, k1)" and g: "c_gen c = k_gens k1 ! i"
    and room: "k_free k \<noteq> [] \<or> length (k_conns k) < MAX_CONN_SLOTS"
  shows "i < length (k_conns k1)" "i < length (k_gens k1)" "slots_ok (set_conn i c k1)" "conn_mut i k = None"
    "k_ring (set_conn i c k1) = k_ring k" "shared_ok srv N (set_conn i c k1) = shared_ok srv N k"
    "conn_mut j (set_conn i c k1) = (if j = i then Some c else conn_mut j k)"
proof -
  show "slots_ok (set_conn i c k1)"
  proof (cases "k_free k")
    case Nil
    then have "set_conn i c k1 = k\<lparr>k_conns := k_conns k @ [Some c], k_gens := k_gens k @ [1]\<rparr>" "c_gen c = 1"
      using ts g s by (auto simp: take_slot_def set_conn_def slots_ok_def nth_append)
    then show ?thesis using append_conn_slots [OF s Nil] room Nil by simp
  next
    case (Cons a fr)
    then have "k1 = k\<lparr>k_free := fr\<rparr>" "a = i" using ts by (simp_all add: take_slot_def)
    then show ?thesis using set_conn_new_slots [OF s] Cons g by simp
  qed
  show "i < length (k_conns k1)" "i < length (k_gens k1)" "conn_mut i k = None" "k_ring (set_conn i c k1) = k_ring k"
    using ts s by (auto simp: take_slot_def slots_ok_def conn_mut_def idx_def split: list.splits)
  show "shared_ok srv N (set_conn i c k1) = shared_ok srv N k"
    using ts by (auto simp: take_slot_def shared_ok_def split: list.splits)
  show "conn_mut j (set_conn i c k1) = (if j = i then Some c else conn_mut j k)"
    using ts s by (auto simp: take_slot_def conn_mut_def set_conn_def idx_def slots_ok_def nth_append split: list.splits)
qed

lemma on_accept_ok:
  assumes k: "wk_inv srv N k"
  shows "returns srv N (on_accept E K srv fd k)"
proof (cases "k_free k = [] \<and> length (k_conns k) \<ge> MAX_CONN_SLOTS")
  case True
  then show ?thesis using k by (simp add: on_accept_def returns_def)
next
  case False
  define k0 where "k0 = k\<lparr>k_w := os_nodelay K fd (k_w k), k_seed := k_seed k + 1\<rparr>"
  have k0: "wk_inv srv N k0" "k_free k0 = k_free k" "k_conns k0 = k_conns k"
    using k by (simp_all add: k0_def wk_inv_def shared_ok_def slots_ok_def conn_mut_def entry_ok_cong [of "k\<lparr>k_w := _, k_seed := _\<rparr>" k])
  obtain i k1 where ts: "take_slot k0 = (i, k1)" by fastforce
  define c where "c = conn_new fd (k_gens k1 ! i) (proto_conn_new (sv_max_read srv) (k_wid k1) i (k_gens k1 ! i))"
  let ?k = "set_conn i c k1"
  have "slots_ok k0" "c_gen c = k_gens k1 ! i" "k_free k0 \<noteq> [] \<or> length (k_conns k0) < MAX_CONN_SLOTS"
    using k0 False by (auto simp: wk_inv_def c_def conn_new_def)
  note s = take_slot_ok [OF this(1) ts this(2,3)]
  have "shared_ok srv N ?k" using s(6) k0(1) by (simp add: wk_inv_def)
  then have p: "slot_pre srv N i c [] ?k" using slot_pre_fresh [OF k0(1) s(4,5,3) _ s(7)] by blast
  have "conn_inv c []" unfolding c_def by (rule conn_new_ok [OF pc_ok_new])
  then have "returns srv N (maybe_arm_recv E K i ?k)" by (rule arm_returns [OF p]) simp
  moreover have "on_accept E K srv fd k = maybe_arm_recv E K i ?k"
    unfolding on_accept_def Let_def using False ts s(1,2) by (auto simp: k0_def [symmetric] idx_def c_def)
  ultimately show ?thesis by simp
qed

section \<open>Lease breaks\<close>

lemma deliver_break_ok:
  assumes "srv_ok srv" and "host_ok E" and k: "wk_inv srv N k" and room: "N + DRIVE_MAX \<le> SESSION_ROOM"
  shows "returns srv (N + DRIVE_MAX) (deliver_break E K srv b k)"
proof (cases "\<exists>c. conn_mut (bm_conn_idx b) k = Some c \<and> c_gen c = bm_conn_gen b \<and> \<not> c_closing c")
  case False
  then have "deliver_break E K srv b k = Some k" by (auto simp: deliver_break_def Let_def split: option.split)
  then show ?thesis using k by (auto intro: returnsI)
next
  case True
  let ?i = "bm_conn_idx b"
  obtain c where c: "conn_mut ?i k = Some c" "c_gen c = bm_conn_gen b" "\<not> c_closing c" using True by blast
  let ?es = "ents ?i (k_ring k)"
  have p: "slot_pre srv N ?i c ?es k" and ci: "tx_free c ?es" "tx_part c (filter is_tx ?es)"
    using wk_inv_pre [OF k c(1)] c(3) by (simp_all add: conn_inv_def)
  obtain f where f: "build_lease_break E (bm_lease_key b) (bm_cur_state b) (bm_new_state b) (bm_epoch b) (bm_session_id b)
      (Option.bind (hget (pc_channels (c_proto c)) (bm_session_id b)) ch_sign) = Some f"
    using build_lease_break_ok [OF host_okD(1) [OF assms(2)]] by blast
  let ?d = "c\<lparr>c_deferred := c_deferred c @ [f]\<rparr>"
  have pd: "slot_pre srv N ?i ?d ?es (set_conn ?i ?d k)" by (rule slot_pre_set [OF p]) simp
  have tf: "tx_free ?d ?es"
    using ci(1) base_ok_cong [of ?d c ?es] by (simp add: tx_free_def recv_part_def inot_part_def notif_part_def cong: option.case_cong)
  have tp: "tx_part ?d (filter is_tx ?es)" using ci(2) tx_part_cong [of ?d c] by simp
  have "deliver_break E K srv b k = (if c_txm c = Idle then drive E K srv ?i (set_conn ?i ?d k) else Some (set_conn ?i ?d k))"
    using c f by (simp add: deliver_break_def Let_def)
  then show ?thesis
    using drive_returns [OF assms(1,2) pd idle_part [OF tf tp] room] slot_pre_inv [OF pd conn_invI [OF tf tp]]
    by (auto intro: returnsI)
qed

lemma deliver_breaks_ok:
  assumes "srv_ok srv" and "host_ok E"
  shows "wk_inv srv N k \<Longrightarrow> N + DRIVE_MAX * length bs \<le> SESSION_ROOM \<Longrightarrow>
    returns srv (N + DRIVE_MAX * length bs) (each (deliver_break E K srv) bs k)"
proof (induction bs arbitrary: N k)
  case Nil
  then show ?case by (simp add: returns_def)
next
  case (Cons b bs)
  have "N + DRIVE_MAX \<le> SESSION_ROOM" using Cons.prems(2) by simp
  from deliver_break_ok [OF assms Cons.prems(1) this, of K b]
  obtain k' where k': "deliver_break E K srv b k = Some k'" "wk_inv srv (N + DRIVE_MAX) k'" by (auto simp: returns_def)
  then show ?case using Cons.IH [OF k'(2)] Cons.prems(2) by (simp add: add.assoc)
qed

definition mailbox_of :: "'w wk \<Rightarrow> mailbox" where
  "mailbox_of k = k_mail k ! k_wid k"

lemma on_wake_ok:
  assumes "srv_ok srv" and "host_ok E" and k: "wk_inv srv N k"
    and room: "N + DRIVE_MAX * length (mb_queue (mailbox_of k)) \<le> SESSION_ROOM"
  shows "returns srv (N + DRIVE_MAX * length (mb_queue (mailbox_of k))) (on_wake E K srv k)"
proof -
  let ?mb = "mailbox_of k"
  let ?k = "k\<lparr>k_mail := (k_mail k)[k_wid k := ?mb\<lparr>mb_queue := []\<rparr>]\<rparr>"
  have "k_wid k < length (k_mail k)" using k by (simp add: wk_inv_def shared_ok_def)
  then have e: "on_wake E K srv k = do { k \<leftarrow> each (deliver_break E K srv) (mb_queue ?mb) ?k; arm_wake k }"
    by (simp add: on_wake_def idx_def mb_drain_def mailbox_of_def)
  have "wk_inv srv N ?k" using k by (simp add: wk_inv_mail)
  from deliver_breaks_ok [OF assms(1,2) this room, of K] obtain k' where
    "each (deliver_break E K srv) (mb_queue ?mb) ?k = Some k'" "wk_inv srv (N + DRIVE_MAX * length (mb_queue ?mb)) k'"
    by (auto simp: returns_def)
  then show ?thesis using e arm_wake_ok by simp
qed

section \<open>Starting\<close>

lemma worker_start_ok:
  assumes "reg_ok srv ss" and "lt_ok ls" and "wid < length ms"
  shows "returns srv (length ss) (worker_start wid lfd zc ss ms ls w)"
  unfolding worker_start_def
  by (intro arm_wake_ok arm_accept_ok)
    (simp add: wk_inv_def shared_ok_def slots_ok_def conn_mut_def idx_def assms)

end
