(* ===== verification/Reactor.thy ===== *)
theory Reactor
  imports Accept_Ok
begin

text \<open>
  The reactor as a transition system: the kernel completes an outstanding entry and the worker
  handles the completion, or another worker changes the shared state. Every reachable state is
  well formed and no completion makes a worker panic.
\<close>

section \<open>The kernel\<close>

text \<open>What the kernel writes into a connection's buffers.\<close>

definition blit :: "bytes \<Rightarrow> nat \<Rightarrow> bytes \<Rightarrow> bytes" where
  "blit xs off ys = take off xs @ ys @ drop (off + length ys) xs"

fun kernel_write :: "uop \<Rightarrow> bytes \<Rightarrow> conn \<Rightarrow> conn" where
  "kernel_write (URecv _ off _) data c = c\<lparr>c_rx := blit (c_rx c) off data\<rparr>"
| "kernel_write (UReadInotify _ _) data c = c\<lparr>c_ibuf := blit (c_ibuf c) 0 data\<rparr>"
| "kernel_write _ _ c = c"

text \<open>The completions the kernel may post for an entry: no more bytes than were asked for, \<open>MORE\<close>
  only on the operations that post several completions, and \<open>NOTIF\<close> only on the second completion
  of a zero-copy send.\<close>

fun completes :: "uop \<Rightarrow> int \<Rightarrow> u32 \<Rightarrow> bytes \<Rightarrow> bool" where
  "completes (URecv _ _ n) res flags data \<longleftrightarrow>
     flags AND CQE_F_MORE = 0 \<and> flags AND CQE_F_NOTIF = 0 \<and> nat res \<le> n \<and> length data = nat res"
| "completes (UReadInotify _ n) res flags data \<longleftrightarrow>
     flags AND CQE_F_MORE = 0 \<and> flags AND CQE_F_NOTIF = 0 \<and> nat res \<le> n \<and> length data = nat res"
| "completes (USend _ _ n _) res flags data \<longleftrightarrow> flags AND CQE_F_MORE = 0 \<and> flags AND CQE_F_NOTIF = 0 \<and> nat res \<le> n"
| "completes (USendZc _ _ n) res flags data \<longleftrightarrow> flags AND CQE_F_NOTIF = 0 \<and> nat res \<le> n"
| "completes UNotif res flags data \<longleftrightarrow> flags AND CQE_F_MORE = 0 \<and> flags AND CQE_F_NOTIF \<noteq> 0"
| "completes (UAcceptMulti _) res flags data \<longleftrightarrow> flags AND CQE_F_NOTIF = 0"
| "completes _ res flags data \<longleftrightarrow> flags AND CQE_F_MORE = 0 \<and> flags AND CQE_F_NOTIF = 0"

text \<open>What stays outstanding after a completion that has \<open>MORE\<close> to come.\<close>

definition remains :: "sqe \<Rightarrow> u32 \<Rightarrow> sqe list" where
  "remains e flags =
     (if flags AND CQE_F_MORE = 0 then []
      else if conn_op (q_op e) = None then [e] else [e\<lparr>q_op := UNotif\<rparr>])"

definition complete_entry :: "sqe list \<Rightarrow> sqe \<Rightarrow> sqe list \<Rightarrow> u32 \<Rightarrow> bytes \<Rightarrow> 'w wk \<Rightarrow> 'w wk" where
  "complete_entry q1 e q2 flags data k =
     (let k = k\<lparr>k_ring := q1 @ remains e flags @ q2\<rparr>
      in case conn_mut (slot_of e) k of
           None \<Rightarrow> k
         | Some c \<Rightarrow> set_conn (slot_of e) (kernel_write (q_op e) data c) k)"

section \<open>A completed entry\<close>

lemma length_blit: "off + length ys \<le> length xs \<Longrightarrow> length (blit xs off ys) = length xs"
  by (simp add: blit_def)

lemma kernel_write_frame [simp]:
  "c_gen (kernel_write u data c) = c_gen c" "c_inflight (kernel_write u data c) = c_inflight c"
  "c_notif_pending (kernel_write u data c) = c_notif_pending c" "c_closing (kernel_write u data c) = c_closing c"
  by (cases u; simp)+

text \<open>The kernel's write leaves the invariant alone: it stays inside the buffer.\<close>

lemma kernel_write_inv:
  assumes "completes u res flags data" and "buf_ok c u" and "d = kernel_write u data c"
  shows "base_ok d es = base_ok c es" "recv_part d es = recv_part c es" "inot_part d es = inot_part c es"
    "notif_part d es = notif_part c es" "tx_part d ts = tx_part c ts" "c_inotify_fd d = c_inotify_fd c"
    "length (c_rx d) = length (c_rx c)" "length (c_ibuf d) = length (c_ibuf c)" "c_rx_len d = c_rx_len c"
    "c_recv_inflight d = c_recv_inflight c"
proof -
  show l: "length (c_rx d) = length (c_rx c)" "length (c_ibuf d) = length (c_ibuf c)"
    using assms by (cases u; simp add: length_blit)+
  have f: "c_tx d = c_tx c" "c_proto d = c_proto c" "c_fd d = c_fd c" "c_rx_off d = c_rx_off c" "c_inflight d = c_inflight c"
      "c_notif_pending d = c_notif_pending c" "c_txm d = c_txm c" "c_tx_off d = c_tx_off c" "c_zc d = c_zc c" "c_pipe d = c_pipe c"
      "c_pending_zc d = c_pending_zc c" "c_send_is_zc d = c_send_is_zc c"
    using assms(3) by (cases u; simp)+
  show g: "c_inotify_fd d = c_inotify_fd c" "c_rx_len d = c_rx_len c" "c_recv_inflight d = c_recv_inflight c"
    using assms(3) by (cases u; simp)+
  have "buf_ok d v = buf_ok c v" for v using l f by (cases v) simp_all
  then show "base_ok d es = base_ok c es" using f by (simp add: base_ok_def)
  show "recv_part d es = recv_part c es" "inot_part d es = inot_part c es" "notif_part d es = notif_part c es"
    using l f g by (simp_all add: recv_part_def inot_part_def notif_part_def cong: if_cong option.case_cong)
  show "tx_part d ts = tx_part c ts" by (rule tx_part_cong) (simp_all add: f)
qed

lemma kernel_write_conn_inv:
  "completes u res flags data \<Longrightarrow> buf_ok c u \<Longrightarrow> conn_inv (kernel_write u data c) es = conn_inv c es"
  using kernel_write_inv [OF _ _ refl] by (simp add: conn_inv_def tx_free_def)

lemma ents_split:
  assumes "conn_op (q_op e) \<noteq> None"
  shows "ents j (q1 @ e # q2) = ents j q1 @ (if slot_of e = j then [q_op e] else []) @ ents j q2"
  using assms by (simp add: ents_def)

text \<open>The state in which a connection's completion is handled: \<open>l\<close> is what remains of the entry.\<close>

lemma completed:
  assumes k: "wk_inv srv N k" and q: "k_ring k = q1 @ e # q2" and op: "conn_op (q_op e) = Some op"
    and cq: "completes (q_op e) res flags data"
  obtains i c es1 es2 where "ud_parts (q_ud e) = (op, i, c_gen c, 0)" and "conn_inv c (es1 @ q_op e # es2)"
    and "slot_pre srv N i c (es1 @ map q_op (remains e flags) @ es2) (complete_entry q1 e q2 flags data k)"
proof -
  obtain i c where c: "conn_mut i k = Some c" and v: "q_ud e = ud op i (c_gen c) 0"
    using k q op by (fastforce simp: wk_inv_def entry_ok_def)
  have sl: "slots_ok k" using k by (simp add: wk_inv_def)
  have up: "ud_parts (q_ud e) = (op, i, c_gen c, 0)" using ud_parts_ud [OF slots_ok_lt [OF sl c]] v by simp
  then have so: "slot_of e = i" by (simp add: slot_of_def)
  let ?es1 = "ents i q1" and ?es2 = "ents i q2" and ?l = "remains e flags" and ?d = "kernel_write (q_op e) data c"
  have l: "?l = [] \<or> (?l = [e\<lparr>q_op := UNotif\<rparr>] \<and> op = OP_SEND)"
    using cq op by (cases "q_op e") (auto simp: remains_def)
  have en: "ents i (k_ring k) = ?es1 @ q_op e # ?es2" using q op so by (simp add: ents_split)
  have inv: "conn_inv c (?es1 @ q_op e # ?es2)" using wk_inv_pre(2) [OF k c] en by simp
  then have b: "buf_ok c (q_op e)" by (auto simp: conn_inv_def tx_free_def base_ok_def split: if_splits)
  let ?k = "k\<lparr>k_ring := q1 @ ?l @ q2\<rparr>"
  have el: "ents j ?l = (if j = i then map q_op ?l else [])" for j
    using l so by (auto simp: ents_def slot_of_def)
  have ej: "ents j (q1 @ ?l @ q2) = ents j (k_ring k)" if "j \<noteq> i" for j
    unfolding q ents_append el using that op so by (simp add: ents_def)
  have "entry_ok k x" if "x \<in> set (q1 @ ?l @ q2)" for x
  proof (cases "x \<in> set ?l")
    case True
    then have "q_ud x = q_ud e" "conn_op (q_op x) = Some op" using l by auto
    then show ?thesis using c v by (auto simp: entry_ok_def)
  next
    case False
    then show ?thesis using k q that by (auto simp: wk_inv_def)
  qed
  then have "slot_pre srv N i c (?es1 @ map q_op ?l @ ?es2) ?k"
    using k c ej by (auto simp: slot_pre_def wk_inv_def shared_ok_def slots_ok_def ents_append el entry_ok_cong [of "k\<lparr>k_ring := _\<rparr>" k])
  then have "slot_pre srv N i ?d (?es1 @ map q_op ?l @ ?es2) (complete_entry q1 e q2 flags data k)"
    using slot_pre_set [of srv N i c _ ?k ?d] so c by (simp add: complete_entry_def Let_def)
  moreover have "conn_inv ?d (?es1 @ q_op e # ?es2)"
    using inv kernel_write_conn_inv [OF cq b] by blast
  ultimately show thesis using that [of i ?d] up by simp
qed

section \<open>Handling it\<close>

text \<open>The operation counter.\<close>

definition counted :: "u8 \<Rightarrow> u32 \<Rightarrow> conn \<Rightarrow> conn" where
  "counted op flags c =
     (let c = (if op = OP_SEND \<and> flags AND CQE_F_MORE \<noteq> 0
               then c\<lparr>c_inflight := c_inflight c + 1, c_notif_pending := c_notif_pending c + 1\<rparr> else c)
      in c\<lparr>c_inflight := c_inflight c - 1\<rparr>)"

lemma counted_fields [simp]:
  "c_gen (counted op flags c) = c_gen c" "c_closing (counted op flags c) = c_closing c"
  by (simp_all add: counted_def Let_def)

lemma handle_cqe_conn:
  assumes "ud_parts v = (op, i, c_gen c, 0)" and "op \<notin> {OP_ACCEPT, OP_WAKE, OP_CANCEL}" and "conn_mut i k = Some c"
  shows "handle_cqe E K srv v res flags k =
    (let k = set_conn i (counted op flags c) k
     in if c_closing c then (if c_inflight (counted op flags c) = 0 then finalize_close E i k else Some k)
        else if op = OP_RECV then on_recv E K srv i res k
        else if op = OP_SEND then (if flags AND CQE_F_NOTIF \<noteq> 0 then on_send_notif E K srv i k else on_send E K srv i res k)
        else if op = OP_SPLICE_IN then on_splice_in E K srv i res k
        else if op = OP_SPLICE_OUT then on_splice_out E K srv i res k
        else if op = OP_INOTIFY then on_inotify E K srv i res k
        else Some k)"
  using assms by (simp add: handle_cqe_def counted_def Let_def)

text \<open>What remains of a connection's entry is counted.\<close>

definition left_of :: "u32 \<Rightarrow> uop list" where
  "left_of flags = (if flags AND CQE_F_MORE = 0 then [] else [UNotif])"

lemma remains_left: "conn_op (q_op e) \<noteq> None \<Longrightarrow> map q_op (remains e flags) = left_of flags"
  by (auto simp: remains_def left_of_def)

lemma buf_ok_counted [simp]: "buf_ok (counted op flags c) u = buf_ok c u"
  by (cases u) (simp_all add: counted_def Let_def)

lemma counted_base:
  assumes "base_ok c (es1 @ u # es2)" and "conn_op u = Some op" and "completes u res flags data"
  shows "base_ok (counted op flags c) (es1 @ left_of flags @ es2)"
proof -
  have "op = OP_SEND" if "flags AND CQE_F_MORE \<noteq> 0" using that assms(2,3) by (cases u) auto
  then show ?thesis
    using assms(1) by (auto simp: base_ok_def left_of_def) (simp_all add: counted_def Let_def)
qed

lemma filter_single:
  assumes "filter P (xs @ u # ys) = [v]" and "P u"
  shows "v = u" "filter P (xs @ ys) = []"
  using assms by (auto simp: append_eq_Cons_conv)

lemma closing_ok:
  assumes p: "slot_pre srv N i c es k" and "base_ok c es" and "c_closing c"
  shows "returns srv N (if c_inflight c = 0 then finalize_close E i k else Some k)"
proof (cases "c_inflight c = 0")
  case True
  then have "es = []" "pc_ok (c_proto c)" using assms(2) by (simp_all add: base_ok_def)
  then show ?thesis using finalize_close_ok [of srv N i c k E] p True by (auto simp: returns_def)
next
  case False
  then have "conn_inv c es" using assms(2,3) by (auto simp: conn_inv_def base_ok_def)
  then show ?thesis using False slot_pre_inv [OF p] by (simp add: returns_def)
qed

lemma counted_single: "flags AND CQE_F_MORE = 0 \<Longrightarrow> counted op flags c = c\<lparr>c_inflight := c_inflight c - 1\<rparr>"
  by (simp add: counted_def)

lemma recv_cqe:
  assumes "srv_ok srv" and "host_ok E" and p: "slot_pre srv N i c (es1 @ es2) k" and tf: "tx_free c (es1 @ URecv fd off n # es2)"
    and tp: "tx_part c (filter is_tx (es1 @ URecv fd off n # es2))" and res: "nat res \<le> n" and room: "N + DRIVE_MAX \<le> SESSION_ROOM"
  shows "returns srv (N + DRIVE_MAX) (on_recv E K srv i res (set_conn i (c\<lparr>c_inflight := c_inflight c - 1\<rparr>) k))"
proof -
  let ?d = "c\<lparr>c_inflight := c_inflight c - 1\<rparr>" and ?u = "URecv fd off n"
  have "filter is_recv (es1 @ ?u # es2) = (if c_recv_inflight c then [URecv (c_fd c) (c_rx_len c) (length (c_rx c) - c_rx_len c)] else [])"
    using tf by (simp add: tx_free_def recv_part_def)
  then have f: "filter is_recv (es1 @ ?u # es2) = [URecv (c_fd c) (c_rx_len c) (length (c_rx c) - c_rx_len c)]"
    by (cases "c_recv_inflight c") simp_all
  have n: "n = length (c_rx c) - c_rx_len c" and r: "filter is_recv (es1 @ es2) = []" using filter_single [OF f] by auto
  have "buf_ok (?d\<lparr>c_recv_inflight := False\<rparr>) u = buf_ok c u" for u by (cases u) simp_all
  then have tfd: "tx_free (?d\<lparr>c_recv_inflight := False\<rparr>) (es1 @ es2)"
    using tf r by (auto simp: tx_free_def base_ok_def recv_part_def inot_part_def notif_part_def cong: option.case_cong)
  have tpd: "tx_part ?d (filter is_tx (es1 @ es2))" using tp tx_part_cong [of ?d c] by simp
  have pd: "slot_pre srv N i ?d (es1 @ es2) (set_conn i ?d k)" by (rule slot_pre_set [OF p]) simp
  show ?thesis using res n by (intro on_recv_ok [OF assms(1,2) pd tfd tpd _ room]) simp
qed

lemma inot_cqe:
  assumes "srv_ok srv" and "host_ok E" and p: "slot_pre srv N i c (es1 @ es2) k" and tf: "tx_free c (es1 @ UReadInotify fd n # es2)"
    and tp: "tx_part c (filter is_tx (es1 @ UReadInotify fd n # es2))" and res: "nat res \<le> n" and room: "N + DRIVE_MAX \<le> SESSION_ROOM"
  shows "returns srv (N + DRIVE_MAX) (on_inotify E K srv i res (set_conn i (c\<lparr>c_inflight := c_inflight c - 1\<rparr>) k))"
proof -
  let ?d = "c\<lparr>c_inflight := c_inflight c - 1\<rparr>" and ?u = "UReadInotify fd n"
  have f0: "filter is_inot (es1 @ ?u # es2) = (case c_inotify_fd c of None \<Rightarrow> [] | Some ifd \<Rightarrow> [UReadInotify ifd (length (c_ibuf c))])"
    using tf by (simp add: tx_free_def inot_part_def)
  then obtain ifd where ifd: "c_inotify_fd c = Some ifd" by (cases "c_inotify_fd c") simp_all
  then have f: "filter is_inot (es1 @ ?u # es2) = [UReadInotify ifd (length (c_ibuf c))]" using f0 by simp
  have n: "n = length (c_ibuf c)" and r: "filter is_inot (es1 @ es2) = []" using filter_single [OF f] by auto
  have "buf_ok ?d u = buf_ok c u" for u by (cases u) simp_all
  then have b: "base_ok ?d (es1 @ es2)" "recv_part ?d (es1 @ es2)" "notif_part ?d (es1 @ es2)" "\<not> c_closing ?d"
    using tf by (auto simp: tx_free_def base_ok_def recv_part_def notif_part_def)
  have tpd: "tx_part ?d (filter is_tx (es1 @ es2))" using tp tx_part_cong [of ?d c] by simp
  have pd: "slot_pre srv N i ?d (es1 @ es2) (set_conn i ?d k)" by (rule slot_pre_set [OF p]) simp
  show ?thesis using ifd res n by (intro on_inotify_ok [OF assms(1,2) pd b(1,4,2,3) r _ tpd _ room]) simp_all
qed

lemma notif_cqe:
  assumes "srv_ok srv" and "host_ok E" and p: "slot_pre srv N i c (es1 @ es2) k" and tf: "tx_free c (es1 @ UNotif # es2)"
    and tp: "tx_part c (filter is_tx (es1 @ UNotif # es2))" and room: "N + DRIVE_MAX \<le> SESSION_ROOM"
  shows "returns srv (N + DRIVE_MAX) (on_send_notif E K srv i (set_conn i (c\<lparr>c_inflight := c_inflight c - 1\<rparr>) k))"
proof -
  let ?d = "c\<lparr>c_inflight := c_inflight c - 1\<rparr>"
  have n: "Suc (length (filter (\<lambda>u. u = UNotif) (es1 @ es2))) = c_notif_pending c" using tf by (simp add: tx_free_def notif_part_def)
  have "buf_ok (?d\<lparr>c_notif_pending := c_notif_pending c - 1\<rparr>) u = buf_ok c u" for u by (cases u) simp_all
  then have tfd: "tx_free (?d\<lparr>c_notif_pending := c_notif_pending c - 1\<rparr>) (es1 @ es2)"
    using tf n by (auto simp: tx_free_def base_ok_def recv_part_def inot_part_def notif_part_def cong: option.case_cong)
  have tpd: "tx_part ?d (filter is_tx (es1 @ es2))" using tp tx_part_cong [of ?d c] by simp
  have pd: "slot_pre srv N i ?d (es1 @ es2) (set_conn i ?d k)" by (rule slot_pre_set [OF p]) simp
  show ?thesis using n tfd by (intro on_send_notif_ok [OF assms(1,2) pd _ tpd _ room]) simp_all
qed

text \<open>The transmit side.\<close>

lemma tx_counted:
  assumes p: "slot_pre srv N i c (es1 @ left_of flags @ es2) k" and tf: "tx_free c (es1 @ u # es2)" and u: "is_tx u" "conn_op u = Some op"
    and cq: "completes u res flags data" and d: "d = counted op flags c"
  shows "slot_pre srv N i d (es1 @ left_of flags @ es2) (set_conn i d k)" "tx_free d (es1 @ left_of flags @ es2)"
    "filter is_tx (es1 @ left_of flags @ es2) = filter is_tx (es1 @ es2)"
proof -
  show "slot_pre srv N i d (es1 @ left_of flags @ es2) (set_conn i d k)" by (rule slot_pre_set [OF p]) (simp add: d)
  have "base_ok c (es1 @ u # es2)" using tf by (simp add: tx_free_def)
  note b = counted_base [OF this u(2) cq]
  have o: "op = OP_SEND" if "flags AND CQE_F_MORE \<noteq> 0" using that u(2) cq by (cases u) auto
  have nu: "\<not> is_recv u" "\<not> is_inot u" "u \<noteq> UNotif" using u(1) by (cases u; simp)+
  have "recv_part d (es1 @ left_of flags @ es2)" "inot_part d (es1 @ left_of flags @ es2)" "notif_part d (es1 @ left_of flags @ es2)"
    using tf nu o by (auto simp: tx_free_def recv_part_def inot_part_def notif_part_def left_of_def d counted_def Let_def cong: option.case_cong)
  then show "tx_free d (es1 @ left_of flags @ es2)" using b tf by (simp add: tx_free_def d)
  show "filter is_tx (es1 @ left_of flags @ es2) = filter is_tx (es1 @ es2)" by (simp add: left_of_def)
qed

lemma filter_mem: "P u \<Longrightarrow> u \<in> set (filter P (xs @ u # ys))"
  by simp

definition on_tx :: "'w ext \<Rightarrow> 'w kern \<Rightarrow> srv \<Rightarrow> nat \<Rightarrow> u8 \<Rightarrow> int \<Rightarrow> 'w wk \<Rightarrow> 'w wk option" where
  "on_tx E K srv i op res k =
     (if op = OP_SEND then on_send E K srv i res k
      else if op = OP_SPLICE_IN then on_splice_in E K srv i res k else on_splice_out E K srv i res k)"

lemma linked_cqe:
  assumes "srv_ok srv" and "host_ok E" and p: "slot_pre srv N i d es k" and tf: "tx_free d es"
    and z: "zc_live d z r w" "z_linked z" "c_txm d = ZcOut" "0 < z_chain z"
    and ts: "Suc (length (filter is_tx es)) = unat (z_chain z)" "\<forall>u \<in> set (filter is_tx es). chain_op d z r w u"
    and op: "op \<in> {OP_SEND, OP_SPLICE_IN, OP_SPLICE_OUT}" and room: "N + DRIVE_MAX \<le> SESSION_ROOM"
  shows "returns srv (N + DRIVE_MAX) (on_tx E K srv i op res k)"
proof -
  have "on_tx E K srv i op res k = on_linked_cqe E K srv i op res k"
    using slot_pre_conn [OF p] z(1,2) op by (auto simp: on_tx_def on_send_def on_splice_in_def on_splice_out_def zc_live_def)
  then show ?thesis using on_linked_cqe_ok [OF assms(1,2) p tf z ts room] by simp
qed

lemma tx_part_zc: "tx_part c ts \<Longrightarrow> USendZc a b n \<in> set ts \<Longrightarrow> c_txm c = Send"
  by (auto simp: tx_part_def chain_op_def split: txm.splits if_splits)

lemma tx_part_counted:
  assumes "tx_part c ts" and "u \<in> set ts" and "is_tx u" and "completes u res flags data"
  shows "tx_part (counted op flags c) ts"
proof (cases "c_txm c = Send")
  case True
  then show ?thesis using assms(1) by (simp add: tx_part_def) (simp add: counted_def Let_def)
next
  case False
  then have "\<not> (\<exists>a b n. u = USendZc a b n)" using tx_part_zc [OF assms(1)] assms(2) by metis
  then have "flags AND CQE_F_MORE = 0" using assms(3,4) by (cases u) auto
  then show ?thesis using assms(1) tx_part_cong [of "counted op flags c" c] by (simp add: counted_single)
qed

definition linked :: "conn \<Rightarrow> bool" where
  "linked c \<longleftrightarrow> (\<exists>z. c_zc c = Some z \<and> z_linked z)"

lemma tx_part_single: "tx_part c ts \<Longrightarrow> u \<in> set ts \<Longrightarrow> \<not> linked c \<Longrightarrow> ts = [u]"
  by (auto simp: tx_part_def linked_def zc_live_def split: txm.splits if_splits)

text \<open>Outside a linked chain the completed entry was the only one.\<close>

lemma tx_single_cqe:
  assumes "srv_ok srv" and "host_ok E" and cl: "tx_clear srv N i d es k" and tp: "tx_part d [u]" and nl: "\<not> linked d"
    and op: "conn_op u = Some op" and room: "N + DRIVE_MAX \<le> SESSION_ROOM"
  shows "returns srv (N + DRIVE_MAX) (on_tx E K srv i op res k)"
proof (cases "c_txm d")
  case Send
  then have "op = OP_SEND" "c_zc d = None" "c_tx_off d < length (c_tx d)" using tp op by (auto simp: tx_part_def)
  then show ?thesis using on_send_batch_ok [OF assms(1,2) cl _ _ _ room, of K res] Send by (simp add: on_tx_def)
next
  case ZcIn
  then obtain z r w where z: "zc_live d z r w" "\<not> z_linked z" "c_tx d = []" "c_tx_off d = 0" and "op = OP_SPLICE_IN"
    using tp op by (auto simp: tx_part_def)
  then show ?thesis
    using on_splice_in_ok [OF cl z(1,2), of E K res] ZcIn by (auto simp: on_tx_def intro: kept_returns_mono)
next
  case ZcHdr
  then obtain z r w where z: "zc_live d z r w" "\<not> z_linked z" "0 < z_out_left z" "c_tx_off d < length (c_tx d)" "\<not> c_send_is_zc d"
      and "op = OP_SEND"
    using tp op by (auto simp: tx_part_def)
  then show ?thesis
    using on_send_hdr_ok [OF cl z(1-3), of E K res] ZcHdr by (auto simp: on_tx_def intro: returns_mono)
next
  case ZcOut
  then obtain z r w where z: "zc_live d z r w" and t: "\<not> z_linked z" "0 < z_out_left z" "u = USpliceOut r (c_fd d) (z_out_left z)"
    using tp nl by (auto simp: tx_part_def linked_def zc_live_def split: if_splits)
  then show ?thesis
    using on_splice_out_ok [OF assms(1,2) cl z t(1) ZcOut t(2) room] op by (simp add: on_tx_def)
qed (use tp in \<open>simp_all add: tx_part_def\<close>)

lemma tx_linked_cqe:
  assumes "srv_ok srv" and "host_ok E" and p: "slot_pre srv N i d es k" and tf: "tx_free d es" and l: "linked d"
    and tp: "tx_part d (filter is_tx (es1 @ u # es2))" and es: "filter is_tx es = filter is_tx (es1 @ es2)" and u: "is_tx u"
    and op: "op \<in> {OP_SEND, OP_SPLICE_IN, OP_SPLICE_OUT}" and room: "N + DRIVE_MAX \<le> SESSION_ROOM"
  shows "returns srv (N + DRIVE_MAX) (on_tx E K srv i op res k)"
proof -
  have o: "c_txm d = ZcOut"
    using tp l filter_mem [of is_tx u es1 es2, OF u] by (auto simp: tx_part_def linked_def zc_live_def split: txm.splits)
  obtain z r w where z: "zc_live d z r w" and zl: "z_linked z" and ch: "0 < z_chain z"
      "length (filter is_tx (es1 @ u # es2)) = unat (z_chain z)" "\<forall>v \<in> set (filter is_tx (es1 @ u # es2)). chain_op d z r w v"
    using tp l unfolding tx_part_def o linked_def by (auto simp del: filter_append simp: zc_live_def split: if_splits)
  have "\<forall>v \<in> set (filter is_tx es). chain_op d z r w v" "Suc (length (filter is_tx es)) = unat (z_chain z)"
    using ch(2,3) u unfolding es by auto
  then show ?thesis using linked_cqe [OF assms(1,2) p tf z zl o ch(1) _ _ op room] by blast
qed

lemma tx_cqe:
  assumes "srv_ok srv" and "host_ok E" and p: "slot_pre srv N i c (es1 @ left_of flags @ es2) k" and tf: "tx_free c (es1 @ u # es2)"
    and tp: "tx_part c (filter is_tx (es1 @ u # es2))" and u: "is_tx u" "conn_op u = Some op" and cq: "completes u res flags data"
    and room: "N + DRIVE_MAX \<le> SESSION_ROOM"
  shows "returns srv (N + DRIVE_MAX) (on_tx E K srv i op res (set_conn i (counted op flags c) k))"
proof -
  define d where "d = counted op flags c"
  let ?es = "es1 @ left_of flags @ es2"
  note t = tx_counted [OF p tf u cq d_def]
  have mem: "u \<in> set (filter is_tx (es1 @ u # es2))" by (rule filter_mem [of is_tx, OF u(1)])
  have tpd: "tx_part d (filter is_tx (es1 @ u # es2))" unfolding d_def by (rule tx_part_counted [OF tp mem u(1) cq])
  show ?thesis
    unfolding d_def [symmetric]
  proof (cases "linked d")
    case True
    have "op \<in> {OP_SEND, OP_SPLICE_IN, OP_SPLICE_OUT}" using u by (cases u) auto
    then show "returns srv (N + DRIVE_MAX) (on_tx E K srv i op res (set_conn i d k))"
      by (rule tx_linked_cqe [OF assms(1,2) t(1,2) True tpd t(3) u(1) _ room])
  next
    case False
    then have s: "filter is_tx (es1 @ u # es2) = [u]" by (rule tx_part_single [OF tpd mem])
    have "tx_clear srv N i d ?es (set_conn i d k)" using t filter_single(2) [OF s u(1)] by (simp add: tx_clear_def)
    then show "returns srv (N + DRIVE_MAX) (on_tx E K srv i op res (set_conn i d k))"
      by (rule tx_single_cqe [OF assms(1,2) _ tpd [unfolded s] False u(2) room])
  qed
qed

lemma conn_cqe_ok:
  assumes "srv_ok srv" and "host_ok E" and k: "wk_inv srv N k" and q: "k_ring k = q1 @ e # q2" and op: "conn_op (q_op e) = Some op"
    and cq: "completes (q_op e) res flags data" and room: "N + DRIVE_MAX \<le> SESSION_ROOM"
  shows "returns srv (N + DRIVE_MAX) (handle_cqe E K srv (q_ud e) res flags (complete_entry q1 e q2 flags data k))"
proof -
  let ?k = "complete_entry q1 e q2 flags data k" and ?u = "q_op e"
  obtain i c es1 es2 where up: "ud_parts (q_ud e) = (op, i, c_gen c, 0)" and inv: "conn_inv c (es1 @ ?u # es2)"
      and p: "slot_pre srv N i c (es1 @ left_of flags @ es2) ?k"
    using completed [OF k q op cq] remains_left [of e flags] op by (metis option.distinct(1))
  have o: "op \<notin> {OP_ACCEPT, OP_WAKE, OP_CANCEL}" using op by (cases ?u) auto
  note h = handle_cqe_conn [OF up o slot_pre_conn [OF p], of E K srv res flags]
  show ?thesis
  proof (cases "c_closing c")
    case True
    then have b: "base_ok (counted op flags c) (es1 @ left_of flags @ es2)"
      using inv counted_base [OF _ op cq] by (simp add: conn_inv_def)
    have "slot_pre srv N i (counted op flags c) (es1 @ left_of flags @ es2) (set_conn i (counted op flags c) ?k)"
      by (rule slot_pre_set [OF p]) simp
    then have "returns srv N (if c_inflight (counted op flags c) = 0 then finalize_close E i (set_conn i (counted op flags c) ?k)
        else Some (set_conn i (counted op flags c) ?k))"
      by (rule closing_ok [OF _ b]) (simp add: True)
    then show ?thesis unfolding h Let_def using True by (auto intro: returns_mono)
  next
    case False
    then have tf: "tx_free c (es1 @ ?u # es2)" and tp: "tx_part c (filter is_tx (es1 @ ?u # es2))"
      using inv by (simp_all add: conn_inv_def del: filter_append)
    have tx: "returns srv (N + DRIVE_MAX) (on_tx E K srv i op res (set_conn i (counted op flags c) ?k))" if "is_tx ?u"
      by (rule tx_cqe [OF assms(1,2) p tf tp that op cq room])
    show ?thesis
    proof (cases ?u)
      case (URecv fd off n)
      then have "flags AND CQE_F_MORE = 0" "nat res \<le> n" "op = OP_RECV" using cq op by simp_all
      then show ?thesis
        unfolding h Let_def using False recv_cqe [OF assms(1,2) _ tf [unfolded URecv] tp [unfolded URecv] _ room] p
        by (simp add: counted_single left_of_def)
    next
      case (UReadInotify fd n)
      then have "flags AND CQE_F_MORE = 0" "nat res \<le> n" "op = OP_INOTIFY" using cq op by simp_all
      then show ?thesis
        unfolding h Let_def
        using False inot_cqe [OF assms(1,2) _ tf [unfolded UReadInotify] tp [unfolded UReadInotify] _ room] p
        by (simp add: counted_single left_of_def)
    next
      case UNotif
      then have "flags AND CQE_F_MORE = 0" "flags AND CQE_F_NOTIF \<noteq> 0" "op = OP_SEND" using cq op by simp_all
      then show ?thesis
        unfolding h Let_def using False notif_cqe [OF assms(1,2) _ tf [unfolded UNotif] tp [unfolded UNotif] room] p
        by (simp add: counted_single left_of_def)
    qed (use tx False op cq in \<open>auto simp: h on_tx_def\<close>)
  qed
qed

lemma set_conn_same: "conn_mut i k = Some c \<Longrightarrow> set_conn i c k = k"
proof -
  assume "conn_mut i k = Some c"
  then have "(k_conns k)[i := Some c] = k_conns k" using list_update_id [of "k_conns k" i] by (simp add: conn_mut_Some)
  then show ?thesis by (simp add: set_conn_def)
qed

lemma other_cqe_ok:
  assumes "srv_ok srv" and "host_ok E" and k: "wk_inv srv N k" and q: "k_ring k = q1 @ e # q2" and op: "conn_op (q_op e) = None"
    and room: "N + DRIVE_MAX * length (mb_queue (mailbox_of k)) \<le> SESSION_ROOM"
  shows "returns srv (N + DRIVE_MAX * length (mb_queue (mailbox_of k)))
    (handle_cqe E K srv (q_ud e) res flags (complete_entry q1 e q2 flags data k))"
proof -
  let ?k = "complete_entry q1 e q2 flags data k"
  have "kernel_write (q_op e) data c = c" for c using op by (cases "q_op e") simp_all
  then have e: "?k = k\<lparr>k_ring := q1 @ remains e flags @ q2\<rparr>"
    by (auto simp: complete_entry_def Let_def set_conn_same split: option.split)
  have "ents j (q1 @ remains e flags @ q2) = ents j (k_ring k)" for j
    using op q by (simp add: ents_def remains_def)
  then have w: "wk_inv srv N ?k"
    unfolding e using k q op
    by (auto simp: wk_inv_def shared_ok_def slots_ok_def remains_def entry_ok_cong [of "k\<lparr>k_ring := _\<rparr>" k])
  have m: "mailbox_of ?k = mailbox_of k" by (simp add: e mailbox_of_def)
  have "entry_ok k e" using k q by (simp add: wk_inv_def)
  then obtain o' i g x where up: "ud_parts (q_ud e) = (o', i, g, x)" "o' \<in> {OP_ACCEPT, OP_WAKE, OP_CANCEL}"
    using op by (cases "ud_parts (q_ud e)") (auto simp: entry_ok_def)
  have "wk_inv srv N (if flags AND CQE_F_MORE = 0 then arm_accept ?k else ?k)" using w by (simp add: arm_accept_ok)
  then have "returns srv N (let k = if flags AND CQE_F_MORE = 0 then arm_accept ?k else ?k
      in if res < 0 then Some k else on_accept E K srv res k)"
    using on_accept_ok by (auto simp: Let_def returns_def)
  then show ?thesis
    using up on_wake_ok [OF assms(1,2) w, of K] w m room
    by (auto simp: handle_cqe_def intro: returns_mono returnsI)
qed

section \<open>The transition system\<close>

text \<open>A state in which the ids left are more than one completion can use: far fewer sessions than
  ids, and a mailbox that fits memory.\<close>

definition calm :: "'w wk \<Rightarrow> bool" where
  "calm k \<longleftrightarrow> length (k_sessions k) \<le> 2 ^ 62 \<and> length (mb_queue (mailbox_of k)) \<le> 2 ^ 24"

text \<open>A step: a completion of an outstanding entry is handled, or the other workers and the rest of
  the world move.\<close>

inductive kstep :: "'w ext \<Rightarrow> 'w kern \<Rightarrow> srv \<Rightarrow> 'w wk \<Rightarrow> 'w wk \<Rightarrow> bool" for E K srv where
  cqe: "\<lbrakk>k_ring k = q1 @ e # q2; completes (q_op e) res flags data; calm k;
         handle_cqe E K srv (q_ud e) res flags (complete_entry q1 e q2 flags data k) = Some k'\<rbrakk>
        \<Longrightarrow> kstep E K srv k k'"
| world: "\<lbrakk>reg_ok srv ss; lt_ok ls; length ms = length (k_mail k)\<rbrakk>
        \<Longrightarrow> kstep E K srv k (k\<lparr>k_sessions := ss, k_leases := ls, k_mail := ms, k_w := w\<rparr>)"

inductive reach :: "'w ext \<Rightarrow> 'w kern \<Rightarrow> srv \<Rightarrow> 'w wk \<Rightarrow> bool" for E K srv where
  start: "\<lbrakk>reg_ok srv ss; lt_ok ls; wid < length ms; worker_start wid lfd zc ss ms ls w = Some k\<rbrakk> \<Longrightarrow> reach E K srv k"
| step: "\<lbrakk>reach E K srv k; kstep E K srv k k'\<rbrakk> \<Longrightarrow> reach E K srv k'"

lemma calm_room:
  assumes "calm k"
  shows "length (k_sessions k) + DRIVE_MAX \<le> SESSION_ROOM"
    and "length (k_sessions k) + DRIVE_MAX * length (mb_queue (mailbox_of k)) \<le> SESSION_ROOM"
proof -
  have "DRIVE_MAX * length (mb_queue (mailbox_of k)) \<le> DRIVE_MAX * 2 ^ 24"
    using assms by (intro mult_le_mono2) (simp add: calm_def)
  then show "length (k_sessions k) + DRIVE_MAX * length (mb_queue (mailbox_of k)) \<le> SESSION_ROOM"
    using assms by (simp add: calm_def SESSION_ROOM_def DRIVE_MAX_def RX_CAP_def MAX_FRAME_def RX_MIN_ROOM_def)
  show "length (k_sessions k) + DRIVE_MAX \<le> SESSION_ROOM"
    using assms by (simp add: calm_def SESSION_ROOM_def DRIVE_MAX_def RX_CAP_def MAX_FRAME_def RX_MIN_ROOM_def)
qed

text \<open>The invariant with the number of sessions there are.\<close>

definition winv :: "srv \<Rightarrow> 'w wk \<Rightarrow> bool" where
  "winv srv k \<longleftrightarrow> wk_inv srv (length (k_sessions k)) k"

lemma winvI: "wk_inv srv N k \<Longrightarrow> winv srv k"
  by (simp add: winv_def wk_inv_def shared_ok_def)

lemma handle_cqe_ok:
  assumes "srv_ok srv" and "host_ok E" and "winv srv k" and "calm k" and "k_ring k = q1 @ e # q2"
    and "completes (q_op e) res flags data"
  shows "\<exists>k'. handle_cqe E K srv (q_ud e) res flags (complete_entry q1 e q2 flags data k) = Some k' \<and> winv srv k'"
proof -
  have k: "wk_inv srv (length (k_sessions k)) k" using assms(3) by (simp add: winv_def)
  have "\<exists>M. returns srv M (handle_cqe E K srv (q_ud e) res flags (complete_entry q1 e q2 flags data k))"
    using conn_cqe_ok [OF assms(1,2) k assms(5) _ assms(6) calm_room(1) [OF assms(4)]]
      other_cqe_ok [OF assms(1,2) k assms(5) _ calm_room(2) [OF assms(4)]]
    by (cases "conn_op (q_op e)") blast+
  then show ?thesis using winvI by (auto simp: returns_def)
qed

lemma reach_inv:
  assumes "srv_ok srv" and "host_ok E"
  shows "reach E K srv k \<Longrightarrow> winv srv k"
proof (induction rule: reach.induct)
  case (start ss ls wid ms lfd zc w k)
  then show ?case using worker_start_ok [OF start(1-3), of lfd zc w] winvI by (auto simp: returns_def)
next
  case (step k k')
  from step(2) show ?case
  proof (cases rule: kstep.cases)
    case (cqe q1 e q2 res flags data)
    then show ?thesis using handle_cqe_ok [OF assms step(3) cqe(3,1,2), of K] by simp
  next
    case (world ss ls ms w)
    have "entry_ok (k\<lparr>k_sessions := ss, k_leases := ls, k_mail := ms, k_w := w\<rparr>) x = entry_ok k x" for x
      by (rule entry_ok_cong) simp
    then show ?thesis
      using world step(3) by (simp add: winv_def wk_inv_def shared_ok_def slots_ok_def conn_mut_def)
  qed
qed

section \<open>A worker\<close>

definition demo_kern :: "'w kern" where
  "demo_kern = \<lparr>os_pipe2 = (\<lambda>w. (Some (8, 9), w)), os_pipe_size = (\<lambda>fd n w. (65536, w)), os_inotify_init = (\<lambda>w. (7, w)),
     os_inotify_add = (\<lambda>fd p w. (1, w)), os_inotify_rm = (\<lambda>fd wd w. w), os_shutdown = (\<lambda>fd w. w),
     os_pipe_read = (\<lambda>fd n w. (int n, w)), os_nodelay = (\<lambda>fd w. w)\<rparr>"

definition demo_accept :: sqe where
  "demo_accept = \<lparr>q_op = UAccept 3, q_link = False, q_ud = ud OP_ACCEPT 0 0 0\<rparr>"

definition demo_worker :: "u64 wk" where
  "demo_worker = \<lparr>k_sessions = [], k_mail = [\<lparr>mb_efd = -1, mb_count = 0, mb_queue = []\<rparr>], k_leases = [], k_w = 0, k_wid = 0,
     k_listen = 3, k_conns = [], k_gens = [], k_free = [], k_seed = 0, k_zc_ok = False, k_ring = [demo_accept]\<rparr>"

lemma reach_demo: "reach demo_host demo_kern demo_srv demo_worker"
proof (rule reach.start)
  show "worker_start 0 3 False [] [\<lparr>mb_efd = -1, mb_count = 0, mb_queue = []\<rparr>] [] 0 = Some demo_worker"
    by (simp add: worker_start_def arm_wake_def arm_accept_def sq_push_def idx_def demo_worker_def demo_accept_def)
qed (simp_all add: reg_ok_def)

lemma calm_demo: "calm demo_worker"
  by (simp add: calm_def demo_worker_def mailbox_of_def)

text \<open>The worker after it has accepted a connection.\<close>

definition demo_conn1 :: conn where
  "demo_conn1 = (conn_new 5 1 (proto_conn_new 65536 0 0 1))\<lparr>c_recv_inflight := True, c_inflight := 1\<rparr>"

definition demo_recv :: sqe where
  "demo_recv = \<lparr>q_op = URecv 5 0 RX_INITIAL, q_link = False, q_ud = ud OP_RECV 0 1 0\<rparr>"

definition demo_worker1 :: "u64 wk" where
  "demo_worker1 = demo_worker\<lparr>k_conns := [Some demo_conn1], k_gens := [1], k_seed := 1, k_ring := [demo_accept, demo_recv]\<rparr>"

lemma demo_accepted:
  "handle_cqe demo_host demo_kern demo_srv (q_ud demo_accept) 5 0 (complete_entry [] demo_accept [] 0 [] demo_worker) = Some demo_worker1"
proof -
  have f: "frame_total (conn_new 5 1 pc) = Some (Inr None)" for pc by (simp add: frame_total_def conn_new_def)
  have c: "compact (conn_new 5 1 pc) = conn_new 5 1 pc" for pc by (simp add: compact_def conn_new_def)
  have n: "c_rx (conn_new 5 1 pc) = zbytes RX_INITIAL" "c_rx_len (conn_new 5 1 pc) = 0" "c_recv_inflight (conn_new 5 1 pc) = False"
      "c_closing (conn_new 5 1 pc) = False" "c_close_after_send (conn_new 5 1 pc) = False" "c_gen (conn_new 5 1 pc) = 1"
      "c_fd (conn_new 5 1 pc) = 5" "c_inflight (conn_new 5 1 pc) = 0" for pc
    by (simp_all add: conn_new_def)
  have k: "complete_entry [] demo_accept [] 0 [] demo_worker = demo_worker\<lparr>k_ring := []\<rparr>"
    by (simp add: complete_entry_def remains_def demo_worker_def conn_mut_def idx_def)
  have u: "ud_parts (q_ud demo_accept) = (OP_ACCEPT, 0, 0, 0)" by (simp add: demo_accept_def ud_parts_ud)
  have h: "handle_cqe demo_host demo_kern demo_srv (q_ud demo_accept) 5 0 x = on_accept demo_host demo_kern demo_srv 5 (arm_accept x)" for x
    by (simp add: handle_cqe_def u Let_def)
  show ?thesis
    unfolding k h
    by (simp add: Let_def on_accept_def demo_worker_def arm_accept_def sq_push_def take_slot_def idx_def demo_kern_def
        maybe_arm_recv_def conn_mut_def set_conn_def f c n slice_from_def sq_push_conn_def demo_worker1_def demo_conn1_def demo_recv_def
        demo_accept_def demo_srv_def RX_INITIAL_def RX_MIN_ROOM_def MAX_CONN_SLOTS_def)
qed

lemma reach_demo1: "reach demo_host demo_kern demo_srv demo_worker1"
proof (rule reach.step [OF reach_demo kstep.cqe [OF _ _ calm_demo demo_accepted]])
  show "k_ring demo_worker = [] @ demo_accept # []" by (simp add: demo_worker_def)
  show "completes (q_op demo_accept) 5 0 []" by (simp add: demo_accept_def)
qed

text \<open>The same worker in the middle of a linked zero-copy read.\<close>

definition demo_zc :: zc where
  "demo_zc = \<lparr>z_plan = \<lparr>zc_fd = 6, zc_offset = 0, zc_length = 100, zc_min_count = 0, zc_msg_id = 1, zc_credit_charge = 1,
       zc_credits = 1, zc_tree_id = 1, zc_session_id = 7, zc_linked = True\<rparr>,
     z_want = 100, z_got = 100, z_out_left = 100, z_linked = True, z_chain = 2, z_err = False\<rparr>"

definition demo_conn2 :: conn where
  "demo_conn2 = demo_conn1\<lparr>c_tx := zbytes 84, c_zc := Some demo_zc, c_txm := ZcOut\<rparr>"

definition demo_worker2 :: "u64 wk" where
  "demo_worker2 = demo_worker1\<lparr>k_conns := [Some demo_conn2]\<rparr>"

section \<open>Properties\<close>





text \<open>(C7) Memory and submissions per connection are bounded: in every reachable state a connection
  that is not closing has its parse position inside the bytes received, the bytes received inside
  its buffer, a buffer no larger than the maximum frame with its prefix and the minimum room, at
  most one receive and one inotify read outstanding, and, outside a linked zero-copy chain, at most
  one transmit entry; there are never more than \<open>2^24 - 1\<close> slots, so an index fits its field of the
  user data.\<close>

theorem connection_bounded:
  assumes "srv_ok srv" and "host_ok E" and "reach E K srv k" and "conn_mut i k = Some c" and "\<not> c_closing c"
  shows "c_rx_off c \<le> c_rx_len c \<and> c_rx_len c \<le> length (c_rx c) \<and> length (c_rx c) \<le> MAX_FRAME + 4 + RX_MIN_ROOM \<and>
    length (filter is_recv (ents i (k_ring k))) \<le> 1 \<and> length (filter is_inot (ents i (k_ring k))) \<le> 1 \<and>
    (length (filter is_tx (ents i (k_ring k))) \<le> 1 \<or> (\<exists>z. c_zc c = Some z \<and> z_linked z)) \<and> i < 2 ^ 24 - 1"
proof -
  have k: "wk_inv srv (length (k_sessions k)) k" using reach_inv [OF assms(1-3)] by (simp add: winv_def)
  have "tx_free c (ents i (k_ring k))" and tp: "tx_part c (filter is_tx (ents i (k_ring k)))"
    using wk_inv_pre(2) [OF k assms(4)] assms(5) by (simp_all add: conn_inv_def)
  then have "recv_part c (ents i (k_ring k))" "inot_part c (ents i (k_ring k))" by (simp_all add: tx_free_def)
  moreover have "length (filter is_tx (ents i (k_ring k))) \<le> 1 \<or> (\<exists>z. c_zc c = Some z \<and> z_linked z)"
    using tp by (auto simp: tx_part_def zc_live_def split: txm.splits if_splits)
  moreover have "i < MAX_CONN_SLOTS"
    using k conn_mut_lt [OF assms(4)] by (simp add: wk_inv_def slots_ok_def)
  ultimately show ?thesis
    by (auto simp: recv_part_def inot_part_def RX_CAP_def MAX_CONN_SLOTS_def split: option.splits if_splits)
qed

theorem connection_bounded_witness:
  "length (c_rx demo_conn1) \<le> MAX_FRAME + 4 + RX_MIN_ROOM \<and> length (filter is_recv (ents 0 (k_ring demo_worker1))) \<le> 1"
proof -
  have "conn_mut 0 demo_worker1 = Some demo_conn1" "\<not> c_closing demo_conn1"
    by (simp_all add: demo_worker1_def conn_mut_def idx_def demo_conn1_def conn_new_def)
  from connection_bounded [OF srv_ok_demo host_ok_demo reach_demo1 this] show ?thesis by blast
qed





end
