(* ===== verification/Health.thy ===== *)
theory Health
  imports Config Utf8
begin

text \<open>
  The opt-in HTTP health endpoint of \<open>src/src/health.rs\<close>: counting live workers, reading one
  request under a deadline and a size cap, and the response. The clock and the client's socket are
  a record of functions, the argument \<open>H\<close>.
\<close>

section \<open>State\<close>

abbreviation (input) MAX_REQUEST :: nat where "MAX_REQUEST \<equiv> 4096"
abbreviation (input) IO_TIMEOUT :: nat where "IO_TIMEOUT \<equiv> 2000000000"

text \<open>\<open>workers_live\<close> is the value of the shared counter.\<close>

record health =
  workers_total :: nat
  workers_live :: nat
  share_paths :: "path list"

definition guard_new :: "health \<Rightarrow> health" where
  "guard_new st = st\<lparr>workers_live := workers_live st + 1\<rparr>"

definition guard_drop :: "health \<Rightarrow> health" where
  "guard_drop st = st\<lparr>workers_live := workers_live st - 1\<rparr>"

section \<open>Responses\<close>

definition CRLF :: rstr where "CRLF = [13, 10]"

definition reply :: "rstr \<Rightarrow> rstr \<Rightarrow> bool \<Rightarrow> bytes" where
  "reply status body head =
     as_bytes (str ''HTTP/1.1 '' @ status @ CRLF @ str ''Content-Type: application/json'' @ CRLF @
       str ''Content-Length: '' @ show_uint (byte_len body) @ CRLF @ str ''Cache-Control: no-store'' @ CRLF @
       str ''Connection: close'' @ CRLF @ CRLF) @
     (if head then [] else as_bytes body)"

text \<open>Method and path of the request line: the line's first two words, the path up to a query.\<close>

definition request_line :: "bytes \<Rightarrow> rstr \<times> rstr" where
  "request_line req =
     (let line = from_utf8_lossy (takeWhile (\<lambda>b. b \<noteq> 13 \<and> b \<noteq> 10) req);
          parts = split_on (\<lambda>c. c = 32) line;
          target = (case parts of _ # t # _ \<Rightarrow> t | _ \<Rightarrow> [])
      in (hd parts, hd (split_on (\<lambda>c. c = 63) target)))"

definition health_body :: "bool \<Rightarrow> nat \<Rightarrow> nat \<Rightarrow> nat \<Rightarrow> nat \<Rightarrow> rstr" where
  "health_body ok live total_w shares_ok total_s =
     str ''{\"status\":\"'' @ (if ok then str ''ok'' else str ''degraded'') @
     str ''\",\"version\":\"1.4.0\",\"workers\":{\"live\":'' @ show_uint live @
     str '',\"total\":'' @ show_uint total_w @
     str ''},\"shares\":{\"ok\":'' @ show_uint shares_ok @
     str '',\"total\":'' @ show_uint total_s @ str ''}}''"

definition respond :: "'w ext \<Rightarrow> bytes \<Rightarrow> health \<Rightarrow> 'w \<Rightarrow> bytes" where
  "respond E req st w =
     (case request_line req of
        (method, path) \<Rightarrow>
          (let head = (method = str ''HEAD'')
           in if method \<noteq> str ''GET'' \<and> \<not> head
              then reply (str ''405 Method Not Allowed'') (str ''{\"error\":\"method not allowed\"}'') False
              else if path \<noteq> str ''/healthz''
              then reply (str ''404 Not Found'') (str ''{\"error\":\"not found\"}'') head
              else
                (let live = workers_live st;
                     shares_ok = length (filter (\<lambda>p. path_is_dir E p w) (share_paths st));
                     ok = (live = workers_total st \<and> shares_ok = length (share_paths st));
                     body = health_body ok live (workers_total st) shares_ok (length (share_paths st))
                 in reply (if ok then str ''200 OK'' else str ''503 Service Unavailable'') body head)))"

section \<open>Serving a client\<close>

text \<open>\<open>http_now\<close> is \<open>Instant::now\<close> in nanoseconds; \<open>http_read\<close> returns at most as many bytes as
  asked for, none at the end of the stream, \<open>None\<close> on an error or a timeout.\<close>

record 'w http =
  http_now :: "'w \<Rightarrow> nat \<times> 'w"
  http_set_timeout :: "nat \<Rightarrow> 'w \<Rightarrow> bool \<times> 'w"
  http_set_write_timeout :: "nat \<Rightarrow> 'w \<Rightarrow> 'w"
  http_read :: "nat \<Rightarrow> 'w \<Rightarrow> bytes option \<times> 'w"
  http_write_all :: "bytes \<Rightarrow> 'w \<Rightarrow> 'w"

fun has_blank_line :: "bytes \<Rightarrow> bool" where
  "has_blank_line (a # b # c # d # bs) \<longleftrightarrow> [a, b, c, d] = [13, 10, 13, 10] \<or> has_blank_line (b # c # d # bs)"
| "has_blank_line _ \<longleftrightarrow> False"

text \<open>The loop of \<open>handle\<close>; \<open>None\<close> is the early return without a response.\<close>

function read_request :: "'w http \<Rightarrow> nat \<Rightarrow> bytes \<Rightarrow> 'w \<Rightarrow> bytes option \<times> 'w" where
  "read_request H deadline buf w =
     (if length buf \<ge> MAX_REQUEST \<or> has_blank_line buf then (Some buf, w)
      else
        (case http_now H w of
           (now, w) \<Rightarrow>
             if deadline \<le> now then (None, w)
             else
               (case http_set_timeout H (deadline - now) w of
                  (False, w) \<Rightarrow> (None, w)
                | (True, w) \<Rightarrow>
                    (case http_read H (MAX_REQUEST - length buf) w of
                       (None, w) \<Rightarrow> (Some buf, w)
                     | (Some got, w) \<Rightarrow>
                         if got = [] then (Some buf, w) else read_request H deadline (buf @ got) w))))"
  by pat_completeness auto
termination
  by (relation "measure (\<lambda>(_, _, buf, _). MAX_REQUEST - length buf)") (auto intro!: diff_less_mono2)

declare read_request.simps [simp del]

definition handle :: "'w ext \<Rightarrow> 'w http \<Rightarrow> health \<Rightarrow> 'w \<Rightarrow> 'w" where
  "handle E H st w =
     (case http_set_timeout H IO_TIMEOUT w of
        (_, w) \<Rightarrow>
          (case http_now H (http_set_write_timeout H IO_TIMEOUT w) of
             (now, w) \<Rightarrow>
               (case read_request H (now + IO_TIMEOUT) [] w of
                  (None, w) \<Rightarrow> w
                | (Some req, w) \<Rightarrow> http_write_all H (respond E req st w) w)))"

section \<open>Facts\<close>

lemma all_dirs: "length (filter P xs) = length xs \<longleftrightarrow> list_all P xs"
  using length_filter_less [of _ xs P] by (fastforce simp: list_all_iff filter_id_conv)

text \<open>(C37) The health endpoint answers 200 exactly when the request is a GET or HEAD of \<open>/healthz\<close>,
  every worker is alive and every share's path is still a directory; every other request, and every
  degraded state, gets another status.\<close>

theorem health_status:
  "take 15 (respond E req st w) = as_bytes (str ''HTTP/1.1 200 OK'') \<longleftrightarrow>
     fst (request_line req) \<in> {str ''GET'', str ''HEAD''} \<and> snd (request_line req) = str ''/healthz'' \<and>
     workers_live st = workers_total st \<and> list_all (\<lambda>p. path_is_dir E p w) (share_paths st)"
proof -
  have r: "take 15 (reply s body head) = as_bytes (str ''HTTP/1.1 200 OK'') \<longleftrightarrow> s = str ''200 OK''"
    if "s \<in> set [str ''200 OK'', str ''503 Service Unavailable'', str ''404 Not Found'', str ''405 Method Not Allowed'']" for s body head
    using that by (auto simp: reply_def as_bytes_def str_def utf8_char_def CRLF_def)
  have n: "str ''503 Service Unavailable'' \<noteq> str ''200 OK''" "str ''404 Not Found'' \<noteq> str ''200 OK''"
    "str ''405 Method Not Allowed'' \<noteq> str ''200 OK''"
    by (simp_all add: str_def)
  show ?thesis
    by (auto simp: respond_def Let_def r n all_dirs split: prod.splits if_splits)
qed

end
