(* ===== verification/Boot.thy ===== *)
theory Boot
  imports Reactor Health
begin

text \<open>
  Starting the server: the command line and \<open>run\<close> of \<open>src/src/main.rs\<close>, \<open>Config::load\<close> of
  \<open>src/src/config.rs\<close>, \<open>Mailbox::new\<close> of \<open>src/src/lease.rs\<close>, and the listener and ring set-up of
  \<open>run_worker\<close> in \<open>src/src/uring.rs\<close>. The file, the TOML decoder, socket address parsing and the
  system calls used only here are the record \<open>Y\<close>.
\<close>

section \<open>The system\<close>

datatype sock_addr = SockV4 bytes u16 | SockV6 bytes u16 u32

record 'w sys =
  sy_read_to_string :: "rstr \<Rightarrow> 'w \<Rightarrow> unit + rstr"
  sy_toml :: "rstr \<Rightarrow> unit + config"
  sy_sockaddr :: "rstr \<Rightarrow> sock_addr option"
  sy_uring :: "'w \<Rightarrow> bool"
  sy_ignore_sigpipe :: "'w \<Rightarrow> 'w"
  sy_ifaddrs :: "'w \<Rightarrow> ifaddr list option"
  sy_speed_file :: "'w \<Rightarrow> rstr \<Rightarrow> rstr option"
  sy_nametoindex :: "'w \<Rightarrow> rstr \<Rightarrow> u32"
  sy_parallelism :: "'w \<Rightarrow> nat option"
  sy_eventfd :: "'w \<Rightarrow> int \<times> 'w"
  sy_bind_health :: "rstr \<Rightarrow> 'w \<Rightarrow> bool \<times> 'w"
  sy_socket :: "int \<Rightarrow> 'w \<Rightarrow> fd \<times> 'w"
  sy_setsockopt :: "fd \<Rightarrow> int \<Rightarrow> 'w \<Rightarrow> 'w"
  sy_bind :: "fd \<Rightarrow> bytes \<Rightarrow> 'w \<Rightarrow> bool \<times> 'w"
  sy_listen :: "fd \<Rightarrow> nat \<Rightarrow> 'w \<Rightarrow> bool \<times> 'w"
  sy_ncpu :: "'w \<Rightarrow> int"
  sy_setaffinity :: "nat \<Rightarrow> 'w \<Rightarrow> 'w"
  sy_ring :: "bool \<Rightarrow> 'w \<Rightarrow> bool \<times> 'w"
  sy_send_zc :: "'w \<Rightarrow> bool"

section \<open>The command line\<close>

datatype command = Usage | Version | Go rstr bool

fun parse_args :: "rstr \<Rightarrow> bool \<Rightarrow> rstr list \<Rightarrow> command" where
  "parse_args config_path check_only [] = Go config_path check_only"
| "parse_args config_path check_only (a # as) =
     (if a = str ''--config'' \<or> a = str ''-c''
      then (case as of [] \<Rightarrow> Usage | p # as' \<Rightarrow> parse_args p check_only as')
      else if a = str ''--check'' then parse_args config_path True as
      else if a = str ''--version'' \<or> a = str ''-V'' then Version
      else Usage)"

section \<open>Loading the configuration\<close>

datatype load_err = Cannot_read | Parse_error | Invalid config_err

definition config_load :: "'w ext \<Rightarrow> 'w sys \<Rightarrow> rstr \<Rightarrow> 'w \<Rightarrow> (load_err + config) option" where
  "config_load E Y p w =
     (case sy_read_to_string Y p w of
        Inl _ \<Rightarrow> Some (Inl Cannot_read)
      | Inr raw \<Rightarrow>
          (case sy_toml Y raw of
             Inl _ \<Rightarrow> Some (Inl Parse_error)
           | Inr cfg \<Rightarrow> do {
               r \<leftarrow> config_validate E (\<lambda>s. sy_sockaddr Y s \<noteq> None) w cfg;
               Some (case r of Inl e \<Rightarrow> Inl (Invalid e) | Inr _ \<Rightarrow> Inr cfg) }))"

section \<open>Interfaces\<close>

text \<open>\<open>IpAddr\<close>'s \<open>to_string\<close>: dotted decimal, and the compressed form of the longest run of zero
  groups (the first of equal ones, if longer than one), with the mapped form for IPv4 in IPv6.\<close>

definition show_v4 :: "bytes \<Rightarrow> rstr" where
  "show_v4 os = join (str ''.'') (map (\<lambda>b. show_uint (unat b)) os)"

fun groups :: "bytes \<Rightarrow> nat list" where
  "groups (a # b # bs) = (unat a * 256 + unat b) # groups bs"
| "groups _ = []"

text \<open>Start and length of the longest run of zeros; \<open>i\<close> is the position, \<open>cur\<close> the run so far.\<close>

fun zero_span :: "nat \<Rightarrow> nat \<times> nat \<Rightarrow> nat \<times> nat \<Rightarrow> nat list \<Rightarrow> nat \<times> nat" where
  "zero_span i cur best [] = best"
| "zero_span i (start, len) best (g # gs) =
     (if g = 0
      then (let cur = (if len = 0 then i else start, len + 1)
            in zero_span (i + 1) cur (if snd cur > snd best then cur else best) gs)
      else zero_span (i + 1) (0, 0) best gs)"

definition show_v6 :: "bytes \<Rightarrow> rstr" where
  "show_v6 os =
     (if take 12 os = zbytes 10 @ [0xFF, 0xFF] then str ''::ffff:'' @ show_v4 (drop 12 os)
      else
        (let gs = groups os; parts = (\<lambda>gs. join (str '':'') (map show_hex gs))
         in case zero_span 0 (0, 0) (0, 0) gs of
              (start, len) \<Rightarrow>
                if len > 1 then parts (take start gs) @ str ''::'' @ parts (drop (start + len) gs) else parts gs))"

definition show_ip :: "ip_addr \<Rightarrow> rstr" where
  "show_ip a = (case a of V4 os \<Rightarrow> show_v4 os | V6 os \<Rightarrow> show_v6 os)"

definition advertised :: "config \<Rightarrow> iface list \<Rightarrow> iface list" where
  "advertised cfg ifs =
     (if c_advertise_only cfg \<noteq> []
      then filter (\<lambda>i. show_ip (if_addr i) \<in> set (c_advertise_only cfg)) ifs else ifs)"

section \<open>Running\<close>

definition mailbox_new :: "'w sys \<Rightarrow> 'w \<Rightarrow> mailbox option \<times> 'w" where
  "mailbox_new Y w =
     (case sy_eventfd Y w of
        (efd, w) \<Rightarrow> if efd < 0 then (None, w) else (Some \<lparr>mb_efd = efd, mb_count = 0, mb_queue = []\<rparr>, w))"

text \<open>One mailbox per worker; a failure is the \<open>expect\<close>.\<close>

primrec mailboxes_new :: "nat \<Rightarrow> 'w sys \<Rightarrow> 'w \<Rightarrow> (mailbox list \<times> 'w) option" where
  "mailboxes_new 0 Y w = Some ([], w)"
| "mailboxes_new (Suc n) Y w =
     (case mailbox_new Y w of
        (None, _) \<Rightarrow> None
      | (Some mb, w) \<Rightarrow> do { (mbs, w) \<leftarrow> mailboxes_new n Y w; Some (mb # mbs, w) })"

definition worker_count :: "'w sys \<Rightarrow> config \<Rightarrow> 'w \<Rightarrow> nat" where
  "worker_count Y cfg w =
     (if c_workers cfg > 0 then c_workers cfg else (case sy_parallelism Y w of Some n \<Rightarrow> n | None \<Rightarrow> 1))"

abbreviation (input) MAX_READ_TARGET :: u32 where "MAX_READ_TARGET \<equiv> 1048576"

text \<open>What the worker threads and the health thread start from. A guard counts each worker as live
  before its thread is spawned.\<close>

record 'w booted =
  b_srv :: srv
  b_mail :: "mailbox list"
  b_workers :: nat
  b_health :: "health option"
  b_w :: 'w

definition health_state :: "config \<Rightarrow> nat \<Rightarrow> health" where
  "health_state cfg workers =
     (guard_new ^^ workers) \<lparr>workers_total = workers, workers_live = 0, share_paths = map sh_path (c_shares cfg)\<rparr>"

definition boot_srv :: "'w ext \<Rightarrow> 'w kern \<Rightarrow> 'w sys \<Rightarrow> config \<Rightarrow> 'w \<Rightarrow> 'w booted option" where
  "boot_srv E K Y cfg w = do {
     let (guid, w) = os_urandom E 16 (sy_ignore_sigpipe Y w);
     let (max_read, w) = probe_pipe_size E K MAX_READ_TARGET w;
     users \<leftarrow> user_db E cfg;
     let ifs = advertised cfg (interfaces (sy_speed_file Y w) (sy_nametoindex Y w) (sy_ifaddrs Y w));
     let workers = worker_count Y cfg w;
     (mail, w) \<leftarrow> mailboxes_new workers Y w;
     Some \<lparr>b_srv = \<lparr>sv_cfg = cfg, sv_guid = guid, sv_max_read = max_read, sv_start_ft = filetime_now E w,
                    sv_users = users, sv_allow_guest = guest_allowed cfg, sv_interfaces = ifs\<rparr>,
           b_mail = mail, b_workers = workers, b_health = None, b_w = w\<rparr> }"

text \<open>\<open>Inl\<close> is \<open>die\<close>: a message and exit status 2.\<close>

definition run :: "'w ext \<Rightarrow> 'w kern \<Rightarrow> 'w sys \<Rightarrow> config \<Rightarrow> 'w \<Rightarrow> (unit + 'w booted) option" where
  "run E K Y cfg w =
     (if \<not> sy_uring Y w then Some (Inl ())
      else do {
        b \<leftarrow> boot_srv E K Y cfg w;
        Some (case c_health_listen cfg of
                None \<Rightarrow> Inr b
              | Some addr \<Rightarrow>
                  (case sy_bind_health Y addr (b_w b) of
                     (False, _) \<Rightarrow> Inl ()
                   | (True, w) \<Rightarrow> Inr (b\<lparr>b_health := Some (health_state cfg (b_workers b)), b_w := w\<rparr>))) })"

datatype 'w main_out = Die | Show_version | Config_ok nat | Serve "'w booted"

definition main :: "'w ext \<Rightarrow> 'w kern \<Rightarrow> 'w sys \<Rightarrow> rstr list \<Rightarrow> 'w \<Rightarrow> 'w main_out option" where
  "main E K Y args w =
     (case parse_args (str ''rocketsmbd.toml'') False args of
        Usage \<Rightarrow> Some Die
      | Version \<Rightarrow> Some Show_version
      | Go config_path check_only \<Rightarrow> do {
          r \<leftarrow> config_load E Y config_path w;
          (case r of
             Inl _ \<Rightarrow> Some Die
           | Inr cfg \<Rightarrow>
               if check_only then Some (Config_ok (length (c_shares cfg)))
               else do {
                 b \<leftarrow> run E K Y cfg w;
                 Some (case b of Inl _ \<Rightarrow> Die | Inr b \<Rightarrow> Serve b) }) })"

section \<open>A worker's thread\<close>

text \<open>The family, the bytes of the address structure and their number; the port is in network order.\<close>

definition sockaddr :: "sock_addr \<Rightarrow> int \<times> bytes \<times> nat" where
  "sockaddr addr =
     (case addr of
        SockV4 ip port \<Rightarrow>
          (2, (le16 2 @ rev (le16 port) @ ip @ zbytes 8) @ zbytes 112, 16)
      | SockV6 ip port scope \<Rightarrow>
          (10, (le16 10 @ rev (le16 port) @ le32 0 @ ip @ le32 scope) @ zbytes 100, 28))"

abbreviation (input) SO_REUSEADDR :: int where "SO_REUSEADDR \<equiv> 2"
abbreviation (input) SO_REUSEPORT :: int where "SO_REUSEPORT \<equiv> 15"

definition listener :: "'w ext \<Rightarrow> 'w sys \<Rightarrow> sock_addr \<Rightarrow> 'w \<Rightarrow> fd option \<times> 'w" where
  "listener E Y addr w =
     (case sockaddr addr of
        (domain, sa, sa_len) \<Rightarrow>
          (case sy_socket Y domain w of
             (fd, w) \<Rightarrow>
               if fd < 0 then (None, w)
               else
                 (let w = sy_setsockopt Y fd SO_REUSEPORT (sy_setsockopt Y fd SO_REUSEADDR w)
                  in case sy_bind Y fd (take sa_len sa) w of
                       (False, w) \<Rightarrow> (None, os_close E fd w)
                     | (True, w) \<Rightarrow>
                         (case sy_listen Y fd 1024 w of
                            (False, w) \<Rightarrow> (None, os_close E fd w)
                          | (True, w) \<Rightarrow> (Some fd, w)))))"

definition pin_to_core :: "'w sys \<Rightarrow> nat \<Rightarrow> 'w \<Rightarrow> 'w" where
  "pin_to_core Y wid w =
     (let ncpu = sy_ncpu Y w in if ncpu \<le> 0 then w else sy_setaffinity Y (wid mod nat ncpu) w)"

text \<open>A ring that polls in the kernel when configured, falling back to a plain one.\<close>

definition ring_new :: "'w sys \<Rightarrow> bool \<Rightarrow> 'w \<Rightarrow> bool \<times> 'w" where
  "ring_new Y sqpoll w =
     (if sqpoll
      then (case sy_ring Y True w of (True, w) \<Rightarrow> (True, w) | (False, w) \<Rightarrow> sy_ring Y False w)
      else sy_ring Y False w)"

text \<open>\<open>run_worker\<close> up to its loop; \<open>Inl\<close> is an error the thread exits with.\<close>

definition run_worker ::
  "'w ext \<Rightarrow> 'w sys \<Rightarrow> nat \<Rightarrow> srv \<Rightarrow> registry \<Rightarrow> mailbox list \<Rightarrow> lease_table \<Rightarrow> 'w \<Rightarrow> (unit + 'w wk) option" where
  "run_worker E Y wid srv sessions mail leases w =
     (case sy_sockaddr Y (c_listen (sv_cfg srv)) of
        None \<Rightarrow> Some (Inl ())
      | Some addr \<Rightarrow>
          (case listener E Y addr w of
             (None, w) \<Rightarrow> Some (Inl ())
           | (Some fd, w) \<Rightarrow>
               (let w = (if c_core_pinning (sv_cfg srv) then pin_to_core Y wid w else w)
                in case ring_new Y (c_sqpoll (sv_cfg srv)) w of
                     (False, _) \<Rightarrow> Some (Inl ())
                   | (True, w) \<Rightarrow>
                       map_option Inr (worker_start wid fd (sy_send_zc Y w) sessions mail leases w))))"

text \<open>One round of the loop: the completions that had arrived, in order.\<close>

definition handle_batch :: "'w ext \<Rightarrow> 'w kern \<Rightarrow> srv \<Rightarrow> (u64 \<times> int \<times> u32) list \<Rightarrow> 'w wk \<Rightarrow> 'w wk option" where
  "handle_batch E K srv = each (\<lambda>(udata, res, flags). handle_cqe E K srv udata res flags)"

section \<open>Facts\<close>

text \<open>What is assumed of the system: interface addresses have the length of their family, and
  \<open>available_parallelism\<close>, a non-zero number by its type, is positive.\<close>

definition sys_ok :: "'w sys \<Rightarrow> bool" where
  "sys_ok Y \<longleftrightarrow>
     (\<forall>w l i a. sy_ifaddrs Y w = Some l \<longrightarrow> i \<in> set l \<longrightarrow> ifa_addr i = Some (Some a) \<longrightarrow> ip_ok a) \<and>
     (\<forall>w. sy_parallelism Y w \<noteq> Some 0)"

lemma length_mailboxes_new: "mailboxes_new n Y w = Some (mbs, w') \<Longrightarrow> length mbs = n"
  by (induction n arbitrary: w mbs) (auto split: option.splits prod.splits)

lemma interfaces_ok:
  assumes "sys_ok Y"
  shows "list_all (\<lambda>i. ip_ok (if_addr i)) (advertised cfg (interfaces sp ni (sy_ifaddrs Y w)))"
proof -
  have i: "ip_ok (if_addr x)" if "iface_of sp ni a = Some x" "sy_ifaddrs Y w = Some l" "a \<in> set l" for x a l
    using assms that by (auto simp: sys_ok_def iface_of_def split: option.splits if_splits)
  have "list_all (\<lambda>i. ip_ok (if_addr i)) (interfaces sp ni (sy_ifaddrs Y w))"
    by (auto simp: interfaces_def list_all_iff List.map_filter_def split: option.split intro: i [OF _ sym])
  then show ?thesis by (auto simp: advertised_def list_all_iff)
qed

lemma worker_count_pos: "sys_ok Y \<Longrightarrow> 0 < worker_count Y cfg w"
  by (auto simp: worker_count_def sys_ok_def split: option.splits intro: gr0I)

lemma health_live: "workers_live (health_state cfg n) = workers_total (health_state cfg n)"
proof -
  have "(guard_new ^^ n) st = st\<lparr>workers_live := workers_live st + n\<rparr>" for st
    by (induction n) (simp_all add: guard_new_def)
  then show ?thesis by (simp add: health_state_def)
qed

lemma config_load_valid:
  assumes "config_load E Y p w = Some (Inr cfg)"
  shows "config_validate E (\<lambda>s. sy_sockaddr Y s \<noteq> None) w cfg = Some (Inr ())"
proof -
  obtain raw cfg' where c: "sy_read_to_string Y p w = Inr raw" "sy_toml Y raw = Inr cfg'"
    using assms by (cases "sy_read_to_string Y p w"; cases "sy_toml Y (projr (sy_read_to_string Y p w))") (simp_all add: config_load_def)
  then obtain r where r: "config_validate E (\<lambda>s. sy_sockaddr Y s \<noteq> None) w cfg' = Some r"
      "(case r of Inl e \<Rightarrow> Inl (Invalid e) | Inr _ \<Rightarrow> Inr cfg') = Inr cfg"
    using assms by (auto simp: config_load_def simp del: not_None_eq)
  then show ?thesis by (cases r) simp_all
qed

lemma boot_srv_facts:
  assumes "boot_srv E K Y cfg w = Some b" and "sys_ok Y"
  shows "sv_cfg (b_srv b) = cfg" "length (b_mail b) = b_workers b" "0 < b_workers b"
    "list_all (\<lambda>i. ip_ok (if_addr i)) (sv_interfaces (b_srv b))" "\<exists>w. sv_guid (b_srv b) = fst (os_urandom E 16 w)"
  using assms worker_count_pos [OF assms(2)] interfaces_ok [OF assms(2)] length_mailboxes_new [of _ Y]
  by (auto simp: boot_srv_def Let_def case_prod_beta)

lemma run_boot:
  assumes "run E K Y cfg w = Some (Inr b)"
  obtains b0 where "boot_srv E K Y cfg w = Some b0" "b_srv b = b_srv b0" "b_mail b = b_mail b0" "b_workers b = b_workers b0"
proof -
  obtain b0 where b0: "boot_srv E K Y cfg w = Some b0"
    and h: "(case c_health_listen cfg of None \<Rightarrow> Inr b0
      | Some addr \<Rightarrow> (case sy_bind_health Y addr (b_w b0) of (False, _) \<Rightarrow> Inl ()
          | (True, w) \<Rightarrow> Inr (b0\<lparr>b_health := Some (health_state cfg (b_workers b0)), b_w := w\<rparr>))) = Inr b"
    using assms by (simp add: run_def split: if_splits) metis
  have "b_srv b = b_srv b0" "b_mail b = b_mail b0" "b_workers b = b_workers b0"
    using h by (auto split: option.splits prod.splits bool.splits)
  with b0 that show thesis by blast
qed

lemma main_serve:
  assumes "main E K Y args w = Some (Serve b)"
  obtains p cfg where "config_load E Y p w = Some (Inr cfg)" "run E K Y cfg w = Some (Inr b)"
proof (cases "parse_args (str ''rocketsmbd.toml'') False args")
  case (Go p c)
  then obtain r where r: "config_load E Y p w = Some r" using assms by (auto simp: main_def)
  show thesis
  proof (cases r)
    case (Inr cfg)
    then obtain x where x: "run E K Y cfg w = Some x" "(case x of Inl _ \<Rightarrow> Die | Inr b \<Rightarrow> Serve b) = Serve b"
      using assms Go r by (auto simp: main_def split: if_splits)
    then show thesis using r Inr that by (cases x) simp_all
  qed (use assms Go r in \<open>simp add: main_def\<close>)
qed (use assms in \<open>simp_all add: main_def\<close>)

lemma booted_srv_ok:
  assumes "main E K Y args w = Some (Serve b)" and "sys_ok Y" and "\<forall>n w. length (fst (os_urandom E n w)) = n"
    and "length (c_shares (sv_cfg (b_srv b))) \<le> 2 ^ 32"
  shows "srv_ok (b_srv b)" "length (b_mail b) = b_workers b" "0 < b_workers b"
proof -
  obtain p cfg where l: "config_load E Y p w = Some (Inr cfg)" and r: "run E K Y cfg w = Some (Inr b)"
    using main_serve [OF assms(1)] .
  obtain b0 where b0: "boot_srv E K Y cfg w = Some b0" "b_srv b = b_srv b0" "b_mail b = b_mail b0" "b_workers b = b_workers b0"
    using run_boot [OF r] .
  note f = boot_srv_facts [OF b0(1) assms(2), folded b0(2-4)]
  have "list_ok cfg sh" if "sh \<in> set (c_shares cfg)" for sh
    using config_validate_share [OF config_load_valid [OF l] that] by (rule validate_share_list_ok)
  then show "srv_ok (b_srv b)" using f assms(3,4) by (auto simp: srv_ok_def)
  show "length (b_mail b) = b_workers b" "0 < b_workers b" using f by simp_all
qed

lemma run_worker_reach:
  assumes "reg_ok srv ss" and "lt_ok ls" and "wid < length ms"
  shows "\<exists>r. run_worker E Y wid srv ss ms ls w = Some r \<and> (\<forall>k. r = Inr k \<longrightarrow> reach E K srv k)"
proof -
  have "\<exists>k. worker_start wid fd zc ss ms ls w = Some k \<and> reach E K srv k" for fd zc w
    using worker_start_ok [OF assms, of fd zc w] reach.start [OF assms] by (auto simp: returns_def)
  then show ?thesis
    by (fastforce simp: run_worker_def Let_def split: option.splits prod.splits bool.splits)
qed

section \<open>Properties\<close>


definition demo_sys :: "unit sys" where
  "demo_sys = \<lparr>sy_read_to_string = (\<lambda>p w. Inr []), sy_toml = (\<lambda>s. Inr sample_users),
     sy_sockaddr = (\<lambda>s. Some (SockV4 [0, 0, 0, 0] 445)), sy_uring = (\<lambda>w. True), sy_ignore_sigpipe = (\<lambda>w. w),
     sy_ifaddrs = (\<lambda>w. None), sy_speed_file = (\<lambda>w n. None), sy_nametoindex = (\<lambda>w n. 0), sy_parallelism = (\<lambda>w. Some 1),
     sy_eventfd = (\<lambda>w. (4, w)), sy_bind_health = (\<lambda>a w. (True, w)), sy_socket = (\<lambda>d w. (3, w)),
     sy_setsockopt = (\<lambda>fd opt w. w), sy_bind = (\<lambda>fd a w. (True, w)), sy_listen = (\<lambda>fd n w. (True, w)), sy_ncpu = (\<lambda>w. 1),
     sy_setaffinity = (\<lambda>c w. w), sy_ring = (\<lambda>p w. (True, w)), sy_send_zc = (\<lambda>w. True)\<rparr>"

lemma demo_main: "\<exists>b. main demo demo_kern demo_sys [] () = Some (Serve b) \<and> b_workers b = 1 \<and> length (b_mail b) = 1 \<and>
  sv_cfg (b_srv b) = sample_users"
proof -
  have l: "config_load demo demo_sys p () = Some (Inr sample_users)" for p
    using sample_users_valid by (simp add: config_load_def demo_sys_def)
  have c: "c_workers sample_users = 0" "c_health_listen sample_users = None"
    by (simp_all add: sample_users_def sample_config_def default_config_def)
  obtain db where "user_db demo sample_users = Some db"
    by (simp add: user_db_def sample_users_def user_hash_def)
  then have "\<exists>b. run demo demo_kern demo_sys sample_users () = Some (Inr b) \<and> b_workers b = 1 \<and> length (b_mail b) = 1 \<and>
      sv_cfg (b_srv b) = sample_users"
    using c by (simp add: run_def boot_srv_def Let_def worker_count_def case_prod_beta) (simp add: demo_sys_def mailbox_new_def)
  then show ?thesis using l by (auto simp: main_def)
qed


end
