(* ===== verification/Krb5.thy ===== *)
theory Krb5
  imports Pac Config Utf8
begin

text \<open>
  The Kerberos acceptor of \<open>src/src/krb5.rs\<close> (feature \<open>kerberos\<close>). The GSS library is the record
  \<open>G\<close> of its functions over an abstract world; a credential, a context and a name are handles of the
  library, with 0 for NULL, and an output buffer is \<open>None\<close> when its value pointer is NULL. Releasing a
  buffer has no effect the program can see and is left out; releasing names, contexts and
  credentials is kept.
\<close>

section \<open>The library\<close>

type_synonym gss_h = nat

datatype gss_oid = NT_HOSTBASED_SERVICE | Oid bytes

record gss_accepted =
  ga_major :: u32
  ga_minor :: u32
  ga_ctx :: gss_h
  ga_name :: gss_h
  ga_out :: "bytes option"

record 'w gss =
  gss_import_name :: "bytes \<Rightarrow> gss_oid \<Rightarrow> 'w \<Rightarrow> (u32 \<times> u32 \<times> gss_h) \<times> 'w"
  gss_release_name :: "gss_h \<Rightarrow> 'w \<Rightarrow> 'w"
  gss_acquire_cred :: "gss_h \<Rightarrow> 'w \<Rightarrow> (u32 \<times> u32 \<times> gss_h) \<times> 'w"
  gss_release_cred :: "gss_h \<Rightarrow> 'w \<Rightarrow> 'w"
  gss_accept_sec_context :: "gss_h \<Rightarrow> gss_h \<Rightarrow> bytes \<Rightarrow> 'w \<Rightarrow> gss_accepted \<times> 'w"
  gss_delete_sec_context :: "gss_h \<Rightarrow> 'w \<Rightarrow> 'w"
  gss_inquire_by_oid :: "gss_h \<Rightarrow> bytes \<Rightarrow> 'w \<Rightarrow> (u32 \<times> u32 \<times> bytes option list option) \<times> 'w"
  gss_display_name :: "gss_h \<Rightarrow> 'w \<Rightarrow> (u32 \<times> bytes option) \<times> 'w"
  gss_get_name_attribute :: "gss_h \<Rightarrow> bytes \<Rightarrow> 'w \<Rightarrow> (u32 \<times> int \<times> bytes option) \<times> 'w"
  gss_display_status :: "u32 \<Rightarrow> int \<Rightarrow> u32 \<Rightarrow> 'w \<Rightarrow> (u32 \<times> bytes option \<times> u32) \<times> 'w"
  os_setenv :: "rstr \<Rightarrow> path \<Rightarrow> 'w \<Rightarrow> 'w"

abbreviation (input) GSS_S_COMPLETE :: u32 where "GSS_S_COMPLETE \<equiv> 0"
abbreviation (input) GSS_S_CONTINUE_NEEDED :: u32 where "GSS_S_CONTINUE_NEEDED \<equiv> 1"
abbreviation (input) GSS_C_GSS_CODE :: int where "GSS_C_GSS_CODE \<equiv> 1"
abbreviation (input) GSS_C_MECH_CODE :: int where "GSS_C_MECH_CODE \<equiv> 2"

definition SESSION_KEY_OID :: bytes where
  "SESSION_KEY_OID = [0x2A, 0x86, 0x48, 0x86, 0xF7, 0x12, 0x01, 0x02, 0x02, 0x05, 0x05]"

definition NT_KRB5_PRINCIPAL_OID :: bytes where
  "NT_KRB5_PRINCIPAL_OID = [0x2A, 0x86, 0x48, 0x86, 0xF7, 0x12, 0x01, 0x02, 0x02, 0x01]"

definition take_buf :: "bytes option \<Rightarrow> bytes" where
  "take_buf b = (case b of None \<Rightarrow> [] | Some v \<Rightarrow> v)"

definition release_name :: "'w gss \<Rightarrow> gss_h \<Rightarrow> 'w \<Rightarrow> 'w" where
  "release_name G name w = (if name \<noteq> 0 then gss_release_name G name w else w)"

definition set_keytab_env :: "'w gss \<Rightarrow> path option \<Rightarrow> 'w \<Rightarrow> 'w" where
  "set_keytab_env G keytab w =
     (case keytab of None \<Rightarrow> w | Some kt \<Rightarrow> os_setenv G (str ''KRB5_KTNAME'') kt w)"

section \<open>Status texts\<close>

text \<open>The loop of \<open>display_status\<close>, with the rounds left.\<close>

primrec status_parts :: "nat \<Rightarrow> 'w gss \<Rightarrow> u32 \<Rightarrow> int \<Rightarrow> u32 \<Rightarrow> 'w \<Rightarrow> rstr list \<times> 'w" where
  "status_parts 0 G v ty msg_ctx w = ([], w)"
| "status_parts (Suc n) G v ty msg_ctx w =
     (case gss_display_status G v ty msg_ctx w of
        ((major, buf, msg_ctx), w) \<Rightarrow>
          if major \<noteq> GSS_S_COMPLETE then ([], w)
          else
            (let part = (case buf of Some b \<Rightarrow> if b \<noteq> [] then [from_utf8_lossy b] else [] | None \<Rightarrow> [])
             in if msg_ctx = 0 then (part, w)
                else (case status_parts n G v ty msg_ctx w of (parts, w) \<Rightarrow> (part @ parts, w))))"

definition display_status :: "'w gss \<Rightarrow> u32 \<Rightarrow> int \<Rightarrow> 'w \<Rightarrow> rstr \<times> 'w" where
  "display_status G v ty w =
     (if v = 0 then ([], w)
      else (case status_parts 8 G v ty 0 w of (parts, w) \<Rightarrow> (join (str ''; '') parts, w)))"

definition status_str :: "'w gss \<Rightarrow> u32 \<Rightarrow> u32 \<Rightarrow> 'w \<Rightarrow> rstr \<times> 'w" where
  "status_str G major minor w =
     (case display_status G major GSS_C_GSS_CODE w of
        (maj, w) \<Rightarrow>
          (case display_status G minor GSS_C_MECH_CODE w of
             (mi, w) \<Rightarrow>
               (str ''major=0x'' @ show_hex8 major @ (if maj \<noteq> [] then str '' ('' @ maj @ str '')'' else []) @
                str '' minor=0x'' @ show_hex8 minor @ (if mi \<noteq> [] then str '' ('' @ mi @ str '')'' else []), w)))"

definition status_for_failure :: "rstr \<Rightarrow> u32" where
  "status_for_failure reason =
     (let r = map ascii_lower reason
      in if contains (str ''clock skew'') r \<or> contains (str ''time'') r \<and> contains (str ''skew'') r
         then TIME_DIFFERENCE_AT_DC else LOGON_FAILURE)"

section \<open>The acceptor\<close>

definition import_name :: "'w gss \<Rightarrow> rstr \<Rightarrow> gss_oid \<Rightarrow> 'w \<Rightarrow> (rstr + gss_h) \<times> 'w" where
  "import_name G s ty w =
     (case gss_import_name G (as_bytes s) ty w of
        ((major, minor, name), w) \<Rightarrow>
          if major \<noteq> GSS_S_COMPLETE
          then (case status_str G major minor w of
                  (e, w) \<Rightarrow> (Inl (str ''gss_import_name('' @ s @ str '') failed: '' @ e), w))
          else (Inr name, w))"

definition acceptor_new :: "'w gss \<Rightarrow> acceptor_name \<Rightarrow> 'w \<Rightarrow> (rstr + gss_h) \<times> 'w" where
  "acceptor_new G an w =
     (let (shown, ty) = (case an of HostBased n \<Rightarrow> (n, NT_HOSTBASED_SERVICE)
                                  | Principal n \<Rightarrow> (n, Oid NT_KRB5_PRINCIPAL_OID))
      in case import_name G shown ty w of
           (Inl e, w) \<Rightarrow> (Inl e, w)
         | (Inr name, w) \<Rightarrow>
             (case gss_acquire_cred G name w of
                ((major, minor, cred), w) \<Rightarrow>
                  (let w = release_name G name w
                   in if major \<noteq> GSS_S_COMPLETE
                      then (case status_str G major minor w of
                              (e, w) \<Rightarrow> (Inl (str ''gss_acquire_cred('' @ shown @ str '') failed: '' @ e), w))
                      else (Inr cred, w))))"

definition acceptor_drop :: "'w gss \<Rightarrow> gss_h \<Rightarrow> 'w \<Rightarrow> 'w" where
  "acceptor_drop G cred w = gss_release_cred G cred w"

section \<open>A context\<close>

record established =
  e_client :: rstr
  e_session_key :: bytes
  e_pac :: "logon_info option"
  e_out :: bytes

datatype step = Continue bytes | Done established | Failed rstr

definition ctx_drop :: "'w gss \<Rightarrow> gss_h \<Rightarrow> 'w \<Rightarrow> 'w" where
  "ctx_drop G ctx w = (if ctx \<noteq> 0 then gss_delete_sec_context G ctx w else w)"

definition display_name :: "'w gss \<Rightarrow> gss_h \<Rightarrow> 'w \<Rightarrow> rstr \<times> 'w" where
  "display_name G name w =
     (if name = 0 then ([], w)
      else (case gss_display_name G name w of
              ((major, out), w) \<Rightarrow>
                if major \<noteq> GSS_S_COMPLETE then ([], w) else (from_utf8_lossy (take_buf out), w)))"

definition session_key :: "'w gss \<Rightarrow> gss_h \<Rightarrow> 'w \<Rightarrow> (rstr + bytes) \<times> 'w" where
  "session_key G ctx w =
     (case gss_inquire_by_oid G ctx SESSION_KEY_OID w of
        ((major, minor, bufs), w) \<Rightarrow>
          if major \<noteq> GSS_S_COMPLETE \<or> bufs = None
          then (case status_str G major minor w of (e, w) \<Rightarrow> (Inl e, w))
          else
            (let key = (case bufs of Some (b # _) \<Rightarrow> take_buf b | _ \<Rightarrow> [])
             in if key = [] then (Inl (str ''empty session key''), w) else (Inr key, w)))"

text \<open>The attributes that may carry the PAC, in the order they are asked for. Every decoding error,
  a PAC without LOGON\_INFO among them, is no groups.\<close>

definition pac_attrs :: "(rstr \<times> (bytes \<Rightarrow> logon_info option)) list" where
  "pac_attrs =
     [(str ''urn:mspac:logon-info'', parse_logon_info),
      (str ''urn:mspac:'', \<lambda>v. case parse_pac v of Inl _ \<Rightarrow> None | Inr li \<Rightarrow> Some li)]"

fun name_attrs ::
  "'w gss \<Rightarrow> gss_h \<Rightarrow> (rstr \<times> (bytes \<Rightarrow> logon_info option)) list \<Rightarrow> 'w \<Rightarrow> logon_info option \<times> 'w" where
  "name_attrs G name [] w = (None, w)"
| "name_attrs G name ((attr, parse) # as) w =
     (case gss_get_name_attribute G name (as_bytes attr) w of
        ((major, authenticated, v), w) \<Rightarrow>
          if major \<noteq> GSS_S_COMPLETE then name_attrs G name as w
          else if authenticated = 0 then (None, w)
          else (parse (take_buf v), w))"

definition name_pac :: "'w gss \<Rightarrow> gss_h \<Rightarrow> 'w \<Rightarrow> logon_info option \<times> 'w" where
  "name_pac G name w = (if name = 0 then (None, w) else name_attrs G name pac_attrs w)"

text \<open>One client token: the result, the context handle afterwards, the world.\<close>

definition ctx_step :: "'w gss \<Rightarrow> gss_h \<Rightarrow> gss_h \<Rightarrow> bytes \<Rightarrow> 'w \<Rightarrow> step \<times> gss_h \<times> 'w" where
  "ctx_step G ctx cred token w =
     (case gss_accept_sec_context G ctx cred token w of
        (a, w) \<Rightarrow>
          (let ctx = ga_ctx a; name = ga_name a; out = take_buf (ga_out a)
           in if ga_major a = GSS_S_COMPLETE
              then (case display_name G name w of
                      (client, w) \<Rightarrow>
                        (case name_pac G name w of
                           (pac, w) \<Rightarrow>
                             (case session_key G ctx (release_name G name w) of
                                (Inr key, w) \<Rightarrow>
                                  (Done \<lparr>e_client = client, e_session_key = key, e_pac = pac, e_out = out\<rparr>, ctx, w)
                              | (Inl e, w) \<Rightarrow> (Failed (str ''session-key inquire failed: '' @ e), ctx, w))))
              else
                (let w = release_name G name w
                 in if ga_major a AND GSS_S_CONTINUE_NEEDED \<noteq> 0 then (Continue out, ctx, w)
                    else (case status_str G (ga_major a) (ga_minor a) w of
                            (e, w) \<Rightarrow> (Failed (str ''gss_accept_sec_context failed: '' @ e), ctx, w)))))"

section \<open>Facts\<close>

text \<open>Groups come only from an attribute the library has authenticated.\<close>

definition authentic_pac :: "'w gss \<Rightarrow> logon_info \<Rightarrow> bool" where
  "authentic_pac G li \<longleftrightarrow>
     (\<exists>name attr parse w authenticated v w'. (attr, parse) \<in> set pac_attrs \<and>
        gss_get_name_attribute G name (as_bytes attr) w = ((GSS_S_COMPLETE, authenticated, v), w') \<and>
        authenticated \<noteq> 0 \<and> parse (take_buf v) = Some li)"

lemma name_attrs_authentic:
  assumes "name_attrs G name as w = (Some li, w')" and "set as \<subseteq> set pac_attrs"
  shows "authentic_pac G li"
  using assms
proof (induction G name as w rule: name_attrs.induct)
  case (2 G name attr parse as w)
  obtain major auth v w1 where q: "gss_get_name_attribute G name (as_bytes attr) w = ((major, auth, v), w1)"
    by (metis prod_cases4 prod.collapse)
  show ?case
  proof (cases "major = GSS_S_COMPLETE")
    case True
    then have "(attr, parse) \<in> set pac_attrs" "auth \<noteq> 0" "parse (take_buf v) = Some li"
      using 2(2,3) q by (auto split: if_splits)
    then show ?thesis using q True unfolding authentic_pac_def by blast
  next
    case False
    then show ?thesis using 2 q by auto
  qed
qed simp

lemma step_done:
  assumes "ctx_step G ctx cred token w = (Done est, ctx', w')"
  shows "ga_major (fst (gss_accept_sec_context G ctx cred token w)) = GSS_S_COMPLETE"
    and "e_session_key est \<noteq> []" and "e_pac est = Some li \<Longrightarrow> authentic_pac G li"
  using assms name_attrs_authentic [of G _ pac_attrs]
  by (auto simp: ctx_step_def Let_def session_key_def name_pac_def split: prod.splits if_splits sum.splits option.splits list.splits)

end
