(* ===== verification/Handlers_Krb.thy ===== *)
theory Handlers_Krb
  imports Krb5 Setup_Ok
begin

text \<open>
  SESSION\_SETUP of the build with the \<open>kerberos\<close> feature, \<open>src/src/smb2/handlers.rs\<close>: routing a
  token to its mechanism and the exchange with the acceptor of \<open>Krb5\<close>. The two fields the feature
  adds to the connection, the acceptor's credential and the context a channel keeps between legs,
  are beside the state of the default build.
\<close>

section \<open>Operations\<close>

record 'w kst =
  kx_st :: "'w st"
  kx_acceptor :: "gss_h option"
  kx_pending :: "(u64, gss_h) hmap"

definition krb_pending_of :: "u64 \<Rightarrow> 'w kst \<Rightarrow> gss_h option" where
  "krb_pending_of sid k =
     (case hget (pc_channels (g_pc (kx_st k))) sid of None \<Rightarrow> None | Some _ \<Rightarrow> hget (kx_pending k) sid)"

text \<open>The credential, acquired on first use, or the status of the refusal.\<close>

definition krb_acquire :: "'w gss \<Rightarrow> srv \<Rightarrow> 'w kst \<Rightarrow> (u32 + gss_h) \<times> 'w kst" where
  "krb_acquire G srv k =
     (case kx_acceptor k of
        Some a \<Rightarrow> (Inr a, k)
      | None \<Rightarrow>
          if (case c_kerberos (sv_cfg srv) of None \<Rightarrow> False | Some kc \<Rightarrow> \<not> k_enabled kc) then (Inl NOT_SUPPORTED, k)
          else
            (case acceptor_new G (krb_acceptor_name (sv_cfg srv)) (g_w (kx_st k)) of
               (r, w) \<Rightarrow>
                 (let k = k\<lparr>kx_st := (kx_st k)\<lparr>g_w := w\<rparr>\<rparr>
                  in case r of Inl _ \<Rightarrow> (Inl LOGON_FAILURE, k) | Inr a \<Rightarrow> (Inr a, k\<lparr>kx_acceptor := Some a\<rparr>))))"

definition krb_refuse :: "req_hdr \<Rightarrow> u32 \<Rightarrow> u64 option \<Rightarrow> 'w st \<Rightarrow> 'w st" where
  "krb_refuse h st existing s =
     (case existing of None \<Rightarrow> err_r h st s | Some sid \<Rightarrow> drop_setup h st sid s)"

definition krb_failed :: "'w gss \<Rightarrow> req_hdr \<Rightarrow> u64 option \<Rightarrow> rstr \<Rightarrow> gss_h \<Rightarrow> 'w st \<Rightarrow> 'w st" where
  "krb_failed G h existing e ctx s =
     (let s = krb_refuse h (status_for_failure e) existing s in s\<lparr>g_w := ctx_drop G ctx (g_w s)\<rparr>)"

definition krb_continue ::
  "'w ext \<Rightarrow> 'w gss \<Rightarrow> srv \<Rightarrow> req_hdr \<Rightarrow> u64 option \<Rightarrow> bool \<Rightarrow> bytes \<Rightarrow> bytes \<Rightarrow> gss_h \<Rightarrow> 'w kst \<Rightarrow> 'w kst option" where
  "krb_continue E G srv h existing wrapped preauth out ctx k = do {
     r \<leftarrow> (case existing of Some sid \<Rightarrow> Some (Inr (sid, kx_st k)) | None \<Rightarrow> setup_sid E srv h False (kx_st k));
     Some (case r of
             Inl st \<Rightarrow> (let s = err_r h st (kx_st k) in k\<lparr>kx_st := s\<lparr>g_w := ctx_drop G ctx (g_w s)\<rparr>\<rparr>)
           | Inr (sid, s) \<Rightarrow>
               (let ch = (case hget (pc_channels (g_pc s)) sid of None \<Rightarrow> channel_default | Some c \<Rightarrow> c);
                    s = set_sid sid (put_channel sid (ch\<lparr>ch_preauth := preauth\<rparr>) s);
                    token = (if wrapped then neg_resp ACCEPT_INCOMPLETE Krb5 out else out)
                in k\<lparr>kx_st := ss_resp h MORE_PROCESSING_REQUIRED sid 0 token s,
                     kx_pending := hput sid ctx (kx_pending k)\<rparr>)) }"

text \<open>The session a multi-leg exchange already created, or a fresh one.\<close>

definition krb_session :: "'w ext \<Rightarrow> u64 option \<Rightarrow> 'w st \<Rightarrow> (u64 \<times> session \<times> 'w st) option" where
  "krb_session E existing s =
     (case Option.bind existing (\<lambda>sid. map_option (Pair sid) (reg_get (g_sessions s) sid)) of
        Some (sid, ss) \<Rightarrow> Some (sid, ss, s)
      | None \<Rightarrow> do {
          (sid, m, w) \<leftarrow> reg_create E (g_sessions s) (g_w s);
          ss \<leftarrow> reg_get m sid;
          Some (sid, ss, s\<lparr>g_sessions := m, g_w := w\<rparr>) })"

definition krb_login :: "bytes \<Rightarrow> bool \<Rightarrow> established \<Rightarrow> session \<Rightarrow> session" where
  "krb_login key signing_req est ss =
     ss\<lparr>ss_key := key, ss_established := True, ss_guest := False, ss_signing_required := signing_req,
        ss_user := e_client est, ss_kerberos := True, ss_pac := e_pac est, ss_channels := 1\<rparr>"

definition krb_done ::
  "'w ext \<Rightarrow> srv \<Rightarrow> req_hdr \<Rightarrow> u64 option \<Rightarrow> bool \<Rightarrow> bool \<Rightarrow> bytes \<Rightarrow> established \<Rightarrow> 'w st \<Rightarrow> 'w st option" where
  "krb_done E srv h existing wrapped signing_req preauth est s =
     (if c_encrypt (sv_cfg srv) \<and> \<not> can_encrypt (g_pc s) then Some (krb_refuse h ACCESS_DENIED existing s)
      else do {
        let key = take 16 (e_session_key est @ zbytes 16);
        (sid, ss, s) \<leftarrow> krb_session E existing s;
        let s = put_session sid (krb_login key signing_req est ss) (set_sid sid s);
        (ch, flags) \<leftarrow> keyed_channel E srv (g_pc s) key signing_req (channel_default\<lparr>ch_preauth := preauth\<rparr>);
        let token = (if wrapped then neg_resp ACCEPT_COMPLETED Krb5 (e_out est) else e_out est);
        Some (ss_resp h SUCCESS sid flags token (put_channel sid ch s)) })"

text \<open>The 3.1.1 preauth hash chains over every leg: from the negotiate hash, or from the channel's.\<close>

definition krb_preauth :: "'w ext \<Rightarrow> proto_conn \<Rightarrow> u64 option \<Rightarrow> bytes \<Rightarrow> bytes" where
  "krb_preauth E pc existing msg =
     (let base = (case existing of
                    None \<Rightarrow> pc_preauth_neg pc
                  | Some sid \<Rightarrow> (case hget (pc_channels pc) sid of None \<Rightarrow> pc_preauth_neg pc | Some c \<Rightarrow> ch_preauth c))
      in if pc_dialect pc = 0x0311 then cr_sha512 E (base @ msg) else zbytes 64)"

text \<open>The three outcomes of a leg. The context is dropped unless it is kept for the next leg.\<close>

definition krb_result ::
  "'w ext \<Rightarrow> 'w gss \<Rightarrow> srv \<Rightarrow> req_hdr \<Rightarrow> u64 option \<Rightarrow> bool \<Rightarrow> bool \<Rightarrow> bytes \<Rightarrow> step \<times> gss_h \<times> 'w \<Rightarrow> 'w kst \<Rightarrow> 'w kst option" where
  "krb_result E G srv h existing wrapped signing_req preauth r k =
     (case r of
        (st, ctx, w) \<Rightarrow>
          (let s = (kx_st k)\<lparr>g_w := w\<rparr>
           in case st of
                Done est \<Rightarrow>
                  map_option (\<lambda>s. k\<lparr>kx_st := s\<rparr>)
                    (krb_done E srv h existing wrapped signing_req preauth est (s\<lparr>g_w := ctx_drop G ctx w\<rparr>))
              | Continue out \<Rightarrow> krb_continue E G srv h existing wrapped preauth out ctx (k\<lparr>kx_st := s\<rparr>)
              | Failed e \<Rightarrow> Some (k\<lparr>kx_st := krb_failed G h existing e ctx s\<rparr>)))"

text \<open>The request is parsed as in \<open>ntlm_session_setup\<close>; the flags are not used.\<close>

definition kerberos_session_setup ::
  "'w ext \<Rightarrow> 'w gss \<Rightarrow> srv \<Rightarrow> req_hdr \<Rightarrow> bytes \<Rightarrow> 'w kst \<Rightarrow> 'w kst option" where
  "kerberos_session_setup E G srv h msg k =
     (case parse_ntlm_setup msg of
        None \<Rightarrow> Some (k\<lparr>kx_st := err_r h INVALID_PARAMETER (kx_st k)\<rparr>)
      | Some (_, client_secmode, blob) \<Rightarrow>
          (let incoming = classify blob;
               signing_req = (signing_required (sv_cfg srv) \<or> client_secmode AND 2 \<noteq> 0)
           in case krb_acquire G srv k of
                (Inl st, k) \<Rightarrow> Some (k\<lparr>kx_st := err_r h st (kx_st k)\<rparr>)
              | (Inr cred, k) \<Rightarrow>
                  (let continuing = krb_pending_of (h_session_id h) k;
                       k = (if continuing = None then k else k\<lparr>kx_pending := hdel (h_session_id h) (kx_pending k)\<rparr>);
                       existing = map_option (\<lambda>_. h_session_id h) continuing;
                       preauth = krb_preauth E (g_pc (kx_st k)) existing msg;
                       ctx = (case continuing of None \<Rightarrow> 0 | Some ctx \<Rightarrow> ctx)
                   in krb_result E G srv h existing (in_spnego incoming) signing_req preauth
                        (ctx_step G ctx cred (in_token incoming) (g_w (kx_st k))) k)))"

definition session_setup_krb ::
  "'w ext \<Rightarrow> 'w gss \<Rightarrow> srv \<Rightarrow> req_hdr \<Rightarrow> bytes \<Rightarrow> 'w kst \<Rightarrow> 'w kst option" where
  "session_setup_krb E G srv h msg k =
     (case setup_blob msg of
        None \<Rightarrow> Some (k\<lparr>kx_st := err_r h INVALID_PARAMETER (kx_st k)\<rparr>)
      | Some blob \<Rightarrow>
          (let mech = (if krb_pending_of (h_session_id h) k \<noteq> None then Krb5 else in_mech (classify blob))
           in if mech = Krb5 \<and> allows_kerberos (c_auth (sv_cfg srv))
              then kerberos_session_setup E G srv h msg k
              else if (mech = Ntlmssp \<or> mech = Unknown) \<and> allows_ntlm (c_auth (sv_cfg srv))
              then map_option (\<lambda>s. k\<lparr>kx_st := s\<rparr>) (ntlm_session_setup E srv h msg (kx_st k))
              else Some (k\<lparr>kx_st := err_r h NOT_SUPPORTED (kx_st k)\<rparr>)))"

section \<open>The contract\<close>

lemma krb_acquire_st: "\<exists>w. kx_st (snd (krb_acquire G srv k)) = (kx_st k)\<lparr>g_w := w\<rparr>"
proof -
  have "\<exists>w. kx_st k = (kx_st k)\<lparr>g_w := w\<rparr>" by (rule exI [of _ "g_w (kx_st k)"]) simp
  then show ?thesis
    by (auto simp: krb_acquire_def Let_def split: option.split prod.split sum.split)
qed

lemma krb_refuse_ok: "quiet srv s t \<Longrightarrow> step_ok srv s (krb_refuse h st existing t)"
  by (simp add: krb_refuse_def step_err step_drop_setup split: option.split)

lemma grow_w: "grow_ok srv s t \<Longrightarrow> grow_ok srv s (t\<lparr>g_w := w\<rparr>)"
  by (simp add: grow_ok_def)

lemma krb_failed_ok: "st_ok srv s \<Longrightarrow> grow_ok srv s (krb_failed G h existing e ctx s)"
  unfolding krb_failed_def Let_def by (intro grow_w step_grow krb_refuse_ok quiet_refl)

lemma krb_continue_ok:
  assumes "host_ok E" and "st_ok srv (kx_st k)" and "length (g_sessions (kx_st k)) < SESSION_ROOM" and "length preauth = 64"
  shows "\<exists>u. krb_continue E G srv h existing wrapped preauth out ctx k = Some u \<and> grow_ok srv (kx_st k) (kx_st u)"
proof -
  have c: "chan_ok (c\<lparr>ch_preauth := preauth\<rparr>)" if "chan_ok c" for c
    using that assms(4) by (simp add: chan_ok_def)
  have d: "chan_ok channel_default" by (simp add: chan_ok_def channel_default_def)
  have ch: "chan_ok ((case hget (pc_channels (g_pc t)) sid of None \<Rightarrow> channel_default | Some c \<Rightarrow> c)\<lparr>ch_preauth := preauth\<rparr>)"
    if "st_ok srv t" for t sid
    using st_ok_chan [OF that] d by (intro c) (auto split: option.split)
  have fin: "step_ok srv t (ss_resp h MORE_PROCESSING_REQUIRED sid 0 tok (set_sid sid (put_channel sid
      ((case hget (pc_channels (g_pc t)) sid of None \<Rightarrow> channel_default | Some c \<Rightarrow> c)\<lparr>ch_preauth := preauth\<rparr>) t)))"
    if "st_ok srv t" for t sid tok
    using that ch [OF that] by (intro setup_rules)
  show ?thesis
  proof (cases existing)
    case (Some sid)
    then show ?thesis using step_grow [OF fin [OF assms(2)]] by (simp add: krb_continue_def Let_def)
  next
    case None
    obtain r where r: "setup_sid E srv h False (kx_st k) = Some r"
      and q: "\<And>sid t. r = Inr (sid, t) \<Longrightarrow> st_ok srv t"
      and g: "\<And>sid t u. r = Inr (sid, t) \<Longrightarrow> step_ok srv t u \<Longrightarrow> grow_ok srv (kx_st k) u"
      using setup_sid_ok [OF assms(1-3), of h False] by blast
    show ?thesis
      using None r g [OF _ fin [OF q]] grow_w [OF step_grow [OF step_err [OF quiet_refl [OF assms(2)]]]]
      by (auto simp: krb_continue_def Let_def split: sum.split prod.split)
  qed
qed

lemma krb_login_ok: "sess_ok srv ss \<Longrightarrow> length key = 16 \<Longrightarrow> sess_ok srv (krb_login key sr est ss)"
  by (simp add: krb_login_def sess_ok_def)

lemma krb_session_ok:
  assumes "host_ok E" and "st_ok srv s" and "length (g_sessions s) < SESSION_ROOM"
  shows "\<exists>sid ss t. krb_session E existing s = Some (sid, ss, t) \<and> st_ok srv t \<and> sess_ok srv ss \<and> g_pc t = g_pc s \<and>
    reg_get (g_sessions t) sid = Some ss \<and> (\<forall>u. step_ok srv t u \<longrightarrow> grow_ok srv s u)"
proof (cases "Option.bind existing (\<lambda>sid. map_option (Pair sid) (reg_get (g_sessions s) sid))")
  case (Some p)
  then show ?thesis
    using assms(2) st_ok_sess [OF assms(2)] step_grow
    by (auto simp: krb_session_def reg_get_def bind_eq_Some_conv)
next
  case None
  have r: "reg_ok srv (g_sessions s)" using assms(2) by (simp add: st_ok_def)
  obtain sid w where cr: "reg_create E (g_sessions s) (g_w s) = Some (sid, hput sid session_new (g_sessions s), w)"
      "reg_ok srv (hput sid session_new (g_sessions s))"
    using reg_create_ok [OF assms(1) r assms(3)] by blast
  have "st_ok srv (s\<lparr>g_sessions := hput sid session_new (g_sessions s), g_w := w\<rparr>)"
    using st_ok_sessions [OF assms(2) cr(2)] by simp
  then show ?thesis
    using None cr sess_ok_new created_grow by (auto simp: krb_session_def reg_get_def)
qed

lemma krb_done_ok:
  assumes "host_ok E" and "st_ok srv s" and "length (g_sessions s) < SESSION_ROOM" and "length preauth = 64"
  shows "\<exists>u. krb_done E srv h existing wrapped sr preauth est s = Some u \<and> grow_ok srv s u"
proof -
  let ?key = "take 16 (e_session_key est @ zbytes 16)"
  have k: "length ?key = 16" by simp
  obtain sid ss t where t: "krb_session E existing s = Some (sid, ss, t)" "st_ok srv t" "sess_ok srv ss" "g_pc t = g_pc s"
      "\<And>u. step_ok srv t u \<Longrightarrow> grow_ok srv s u"
    using krb_session_ok [OF assms(1-3)] by blast
  have "chan_ok (channel_default\<lparr>ch_preauth := preauth\<rparr>)" using assms(4) by (simp add: chan_ok_def channel_default_def)
  then obtain ch fl where c: "keyed_channel E srv (g_pc s) ?key sr (channel_default\<lparr>ch_preauth := preauth\<rparr>) = Some (ch, fl)" "chan_ok ch"
    using keyed_channel_ok [OF host_okD(1) [OF assms(1)] _ k] by blast
  have "grow_ok srv s (ss_resp h SUCCESS sid fl tok (put_channel sid ch (put_session sid (krb_login ?key sr est ss) (set_sid sid t))))" for tok
    using t(2,3) c(2) k by (intro t(5) setup_rules krb_login_ok)
  moreover have "g_pc (set_sid sid t) = g_pc s" using t(4) by (simp add: set_sid_def)
  ultimately show ?thesis
    using t(1) c(1) step_grow [OF krb_refuse_ok [OF quiet_refl [OF assms(2)]]]
    by (simp add: krb_done_def Let_def)
qed

lemma krb_preauth_length: "crypto_ok E \<Longrightarrow> length (krb_preauth E pc existing msg) = 64"
  by (simp add: krb_preauth_def Let_def crypto_okD)

lemma krb_result_ok:
  assumes "host_ok E" and "st_ok srv (kx_st k)" and "length (g_sessions (kx_st k)) < SESSION_ROOM" and "length preauth = 64"
  shows "\<exists>u. krb_result E G srv h ex wr sr preauth r k = Some u \<and> grow_ok srv (kx_st k) (kx_st u)"
proof -
  obtain st ctx w where r: "r = (st, ctx, w)" by (cases r)
  have up: "grow_ok srv ((kx_st k)\<lparr>g_w := w\<rparr>) u = grow_ok srv (kx_st k) u" for u w by (simp add: grow_ok_def)
  have ok: "st_ok srv ((kx_st k)\<lparr>g_w := w\<rparr>)" "length (g_sessions ((kx_st k)\<lparr>g_w := w\<rparr>)) < SESSION_ROOM" for w
    using assms(2,3) by simp_all
  show ?thesis
  proof (cases st)
    case (Continue out)
    then show ?thesis
      using krb_continue_ok [OF assms(1) _ _ assms(4), of srv "k\<lparr>kx_st := (kx_st k)\<lparr>g_w := w\<rparr>\<rparr>" G h ex wr out ctx] ok
      by (simp add: krb_result_def r up)
  next
    case (Done est)
    then show ?thesis
      using krb_done_ok [OF assms(1) ok assms(4), of h ex wr sr est "ctx_drop G ctx w"]
      by (auto simp: krb_result_def r up)
  next
    case (Failed e)
    then show ?thesis
      using krb_failed_ok [OF ok(1)] by (simp add: krb_result_def r up)
  qed
qed

text \<open>Whatever the library answers, the handler returns and keeps the invariant.\<close>

lemma kerberos_session_setup_ok:
  assumes "host_ok E" and "st_ok srv (kx_st k)" and "length (g_sessions (kx_st k)) < SESSION_ROOM"
  shows "\<exists>u. kerberos_session_setup E G srv h msg k = Some u \<and> grow_ok srv (kx_st k) (kx_st u)"
proof -
  obtain r k1 where a: "krb_acquire G srv k = (r, k1)" by fastforce
  obtain w1 where w1: "kx_st k1 = (kx_st k)\<lparr>g_w := w1\<rparr>" using krb_acquire_st [of G srv k] a by auto
  have e: "grow_ok srv (kx_st k) (err_r h st ((kx_st k)\<lparr>g_w := w\<rparr>))" "grow_ok srv (kx_st k) (err_r h st (kx_st k))" for st w
    using assms(2) by (auto intro!: step_grow step_err quiet_w quiet_refl)
  have "\<exists>u. krb_result E G srv h ex wr sr (krb_preauth E pc ex' msg) r' k' = Some u \<and> grow_ok srv (kx_st k) (kx_st u)"
    if "kx_st k' = (kx_st k)\<lparr>g_w := w1\<rparr>" for ex wr sr pc ex' r' k'
    using krb_result_ok [OF assms(1) _ _ krb_preauth_length [OF host_okD(1) [OF assms(1)]], of srv k'] assms(2,3) that
    by (fastforce simp: grow_ok_def)
  then show ?thesis
    unfolding kerberos_session_setup_def a Let_def
    using e by (auto simp: w1 split: option.split prod.split sum.split)
qed

lemma session_setup_krb_ok:
  assumes "host_ok E" and "st_ok srv (kx_st k)" and "length (g_sessions (kx_st k)) < SESSION_ROOM"
  shows "\<exists>u. session_setup_krb E G srv h msg k = Some u \<and> grow_ok srv (kx_st k) (kx_st u)"
proof -
  have "grow_ok srv (kx_st k) (err_r h st (kx_st k))" for st
    using assms(2) by (auto intro!: step_grow step_err quiet_refl)
  moreover have "\<exists>u. ntlm_session_setup E srv h msg (kx_st k) = Some u \<and> grow_ok srv (kx_st k) u"
    by (rule ntlm_session_setup_ok [OF assms])
  ultimately show ?thesis
    using kerberos_session_setup_ok [OF assms]
    by (auto simp: session_setup_krb_def Let_def split: option.split)
qed

section \<open>Who gets a session\<close>

definition open_channel :: "u64 \<Rightarrow> 'w st \<Rightarrow> bool" where
  "open_channel sid s \<longleftrightarrow> (case hget (pc_channels (g_pc s)) sid of None \<Rightarrow> False | Some c \<Rightarrow> ch_established c)"

lemma open_frames [simp]:
  "open_channel sid (err_r h st s) = open_channel sid s" "open_channel sid (ss_resp h st i fl b s) = open_channel sid s"
  "open_channel sid (set_sid i s) = open_channel sid s" "open_channel sid (s\<lparr>g_w := w\<rparr>) = open_channel sid s"
  "open_channel sid (put_session i ss s) = open_channel sid s" "open_channel sid (s\<lparr>g_sessions := m\<rparr>) = open_channel sid s"
  by (simp_all add: open_channel_def err_r_def ss_resp_def set_sid_def)

lemma open_put: "open_channel sid (put_channel i ch s) = (if sid = i then ch_established ch else open_channel sid s)"
  by (simp add: open_channel_def put_channel_def)

lemma open_refuse: "open_channel sid (krb_refuse h st existing s) \<Longrightarrow> open_channel sid s"
  by (auto simp: krb_refuse_def drop_setup_def Let_def open_channel_def err_r_def del_channel_def split: option.splits if_splits)

lemma krb_continue_open:
  assumes "krb_continue E G srv h ex wr pa out ctx k = Some u" and "open_channel sid (kx_st u)"
  shows "open_channel sid (kx_st k)"
proof -
  have c: "open_channel sid (put_channel i ((case hget (pc_channels (g_pc s)) i of None \<Rightarrow> channel_default | Some c \<Rightarrow> c)\<lparr>ch_preauth := pa\<rparr>) s)
      = open_channel sid s" for i and s :: "'a st"
    by (simp add: open_put) (simp add: open_channel_def channel_default_def split: option.split)
  let ?r = "case ex of Some sid \<Rightarrow> Some (Inr (sid, kx_st k)) | None \<Rightarrow> setup_sid E srv h False (kx_st k)"
  have s: "open_channel sid s = open_channel sid (kx_st k)" if "?r = Some (Inr (i, s))" for i s
    using that by (auto simp: setup_sid_def split: if_splits option.splits)
  obtain r where r: "?r = Some r" using assms(1) by (auto simp: krb_continue_def)
  show ?thesis
  proof (cases r)
    case (Inl st)
    then show ?thesis using assms r by (auto simp: krb_continue_def Let_def)
  next
    case (Inr p)
    obtain i t where p: "p = (i, t)" by (cases p)
    have "open_channel sid t" using assms r Inr p c [of i t] by (auto simp: krb_continue_def Let_def)
    then show ?thesis using s r Inr p by simp
  qed
qed

lemma krb_done_open:
  assumes "krb_done E srv h ex wr sr pa est s = Some u" and "open_channel sid u" and "\<not> open_channel sid s"
  shows "\<exists>ss. reg_get (g_sessions u) sid = Some (krb_login (take 16 (e_session_key est @ zbytes 16)) sr est ss)"
proof -
  have n: "\<not> (c_encrypt (sv_cfg srv) \<and> \<not> can_encrypt (g_pc s))"
    using assms open_refuse [of sid h ACCESS_DENIED ex s] by (auto simp: krb_done_def split: if_splits)
  then obtain i ss t ch fl tok where d: "krb_session E ex s = Some (i, ss, t)"
      "u = ss_resp h SUCCESS i fl tok (put_channel i ch (put_session i (krb_login (take 16 (e_session_key est @ zbytes 16)) sr est ss) (set_sid i t)))"
    using assms(1) by (auto simp: krb_done_def Let_def split: if_splits)
  have ss: "reg_get (g_sessions t) i = Some ss" and o: "open_channel j t = open_channel j s" for j
    using d(1) by (auto simp: krb_session_def reg_create_def reg_get_def bind_eq_Some_conv split: option.splits)
  have "sid = i" using assms(2,3) by (auto simp: d(2) open_put o split: if_splits)
  then show ?thesis
    using ss by (simp add: d(2) reg_get_def ss_resp_def put_channel_def put_session_def set_sid_def) blast
qed

lemma krb_acquire_open: "krb_acquire G srv k = (r, k') \<Longrightarrow> open_channel sid (kx_st k') = open_channel sid (kx_st k)"
  using krb_acquire_st [of G srv k] by auto


definition demo_gss :: "'w gss" where
  "demo_gss = \<lparr>gss_import_name = (\<lambda>n t w. ((0, 0, 1), w)), gss_release_name = (\<lambda>n w. w),
     gss_acquire_cred = (\<lambda>n w. ((0, 0, 2), w)), gss_release_cred = (\<lambda>c w. w),
     gss_accept_sec_context = (\<lambda>ctx cred tok w. (\<lparr>ga_major = 0, ga_minor = 0, ga_ctx = 3, ga_name = 4, ga_out = None\<rparr>, w)),
     gss_delete_sec_context = (\<lambda>c w. w),
     gss_inquire_by_oid = (\<lambda>c oid w. ((0, 0, Some [Some (replicate 16 9)]), w)),
     gss_display_name = (\<lambda>n w. ((0, Some [0x61]), w)),
     gss_get_name_attribute = (\<lambda>n a w. ((1, 0, None), w)),
     gss_display_status = (\<lambda>v t c w. ((1, None, 0), w)), os_setenv = (\<lambda>n v w. w)\<rparr>"

definition demo_setup :: bytes where
  "demo_setup = zbytes 64 @ le16 25 @ zbytes 22"

definition demo_kst :: "u64 kst" where
  "demo_kst = \<lparr>kx_st = demo_st, kx_acceptor = None, kx_pending = []\<rparr>"

lemma krb_done_opens:
  assumes "krb_done E srv h ex wr sr pa est s = Some u" and "\<not> c_encrypt (sv_cfg srv)"
  shows "\<exists>sid. open_channel sid u"
  using assms by (auto simp: krb_done_def Let_def keyed_channel_def open_put split: if_splits)

lemma demo_step:
  "\<exists>est. ctx_step demo_gss ctx cred tok w = (Done est, 3, w)"
  by (simp add: ctx_step_def demo_gss_def display_name_def name_pac_def pac_attrs_def session_key_def take_buf_def release_name_def Let_def)

lemma demo_acquire: "c_kerberos (sv_cfg srv) = None \<Longrightarrow> \<exists>k. krb_acquire demo_gss srv demo_kst = (Inr 2, k) \<and> kx_pending k = []"
  by (simp add: krb_acquire_def acceptor_new_def import_name_def demo_gss_def demo_kst_def release_name_def Let_def
      split: acceptor_name.split)


end
