(* ===== verification/Fuzz.thy ===== *)
theory Fuzz
  imports Dispatch_Ok "HOL-Library.Sublist"
begin

text \<open>
  The fuzz entry points of \<open>src/src/fuzzing.rs\<close> and the server they run on. An entry point is \<open>None\<close>
  when it panics, which is what the fuzzer looks for; that includes the assertions they make. The
  server is kept between inputs, so its registry and lease table are state.
\<close>

section \<open>The server\<close>

definition srv_from_cfg :: "'w ext \<Rightarrow> config \<Rightarrow> srv option" where
  "srv_from_cfg E cfg = do {
     users \<leftarrow> user_db E cfg;
     Some \<lparr>sv_cfg = cfg, sv_guid = replicate 16 9, sv_max_read = 1048576, sv_start_ft = 0, sv_users = users,
           sv_allow_guest = guest_allowed cfg, sv_interfaces = []\<rparr> }"

definition plain_share :: "rstr \<Rightarrow> path \<Rightarrow> bool \<Rightarrow> share_cfg" where
  "plain_share name dir ro = \<lparr>sh_name = name, sh_path = dir, sh_read_only = ro, sh_valid_users = [],
     sh_invalid_users = [], sh_read_only_users = []\<rparr>"

text \<open>The configurations the two TOML texts stand for.\<close>

definition test_config :: "path \<Rightarrow> config" where
  "test_config dir = default_config\<lparr>c_workers := 1, c_server_name := str ''TESTSRV'', c_core_pinning := False,
     c_oplocks := False, c_shares := [plain_share (str ''t'') dir False]\<rparr>"

definition fuzz_config :: "path \<Rightarrow> config" where
  "fuzz_config dir = default_config\<lparr>c_workers := 1, c_server_name := str ''FUZZ'', c_allow_guest := Some True,
     c_multichannel := True, c_core_pinning := False, c_shares := [plain_share (str ''f'') dir True],
     c_users := [\<lparr>u_name = str ''u'', u_password = Some (str ''p''), u_nt_hash = None\<rparr>]\<rparr>"

definition test_srv :: "'w ext \<Rightarrow> path \<Rightarrow> srv option" where
  "test_srv E dir = srv_from_cfg E (test_config dir)"

definition fuzz_srv :: "'w ext \<Rightarrow> path \<Rightarrow> srv option" where
  "fuzz_srv E dir = srv_from_cfg E (fuzz_config dir)"

section \<open>The entry points\<close>

text \<open>What the inputs share, and the state of a fresh connection on it.\<close>

record 'w fuzz =
  z_sessions :: registry
  z_leases :: lease_table
  z_w :: 'w

definition fuzz_st :: "srv \<Rightarrow> (u64, channel) hmap \<Rightarrow> 'w fuzz \<Rightarrow> 'w st" where
  "fuzz_st srv chans z = \<lparr>g_sessions = z_sessions z, g_mail = [], g_leases = z_leases z, g_w = z_w z,
     g_pc = (proto_conn_new (sv_max_read srv) 0 0 0)\<lparr>pc_channels := chans\<rparr>, g_cx = chain_new None, g_tx = []\<rparr>"

definition fuzz_frame :: "'w ext \<Rightarrow> srv \<Rightarrow> (u64, channel) hmap \<Rightarrow> bytes \<Rightarrow> 'w fuzz \<Rightarrow> 'w fuzz option" where
  "fuzz_frame E srv chans data z = do {
     (_, s) \<leftarrow> process_frame E srv data (fuzz_st srv chans z);
     Some \<lparr>z_sessions = g_sessions s, z_leases = g_leases s, z_w = g_w s\<rparr> }"

definition fuzz_process_frame :: "'w ext \<Rightarrow> srv \<Rightarrow> bytes \<Rightarrow> 'w fuzz \<Rightarrow> 'w fuzz option" where
  "fuzz_process_frame E srv data z = fuzz_frame E srv [] data z"

definition fuzz_ntlm :: "bytes \<Rightarrow> bytes option \<times> token \<times> bool option" where
  "fuzz_ntlm data = (find_token data, token_classify data, map_option is_anonymous (parse_authenticate data))"

definition fuzz_spnego :: "bytes \<Rightarrow> unit option" where
  "fuzz_spnego data = (if length (in_token (classify data)) \<le> length data then Some () else None)"

abbreviation (input) FUZZ_SID :: u64 where "FUZZ_SID \<equiv> 0x1000000000000001"

definition fuzz_cipher :: "bytes \<Rightarrow> u16" where
  "fuzz_cipher data =
     [CIPHER_AES128_CCM, CIPHER_AES128_GCM, CIPHER_AES256_CCM, CIPHER_AES256_GCM] !
       (case data of [] \<Rightarrow> 1 | b # _ \<Rightarrow> unat b mod 4)"

text \<open>The raw input is also opened under every cipher, with the results unused; opening does not
  panic (\<open>decrypt_transform\<close> checks the length before it slices).\<close>

definition fuzz_transform :: "'w ext \<Rightarrow> srv \<Rightarrow> bytes \<Rightarrow> 'w fuzz \<Rightarrow> 'w fuzz option" where
  "fuzz_transform E srv data z = do {
     let enc = \<lparr>ec_cipher = fuzz_cipher data, ec_c2s = replicate 32 7, ec_s2c = replicate 32 7, ec_nonce_ctr = 0\<rparr>;
     (_, sealed) \<leftarrow> wrap_transform E data enc FUZZ_SID [];
     frame \<leftarrow> slice_from sealed 4;
     if decrypt_transform E frame enc \<noteq> Some data then None
     else fuzz_frame E srv [(FUZZ_SID, channel_default\<lparr>ch_enc := Some enc\<rparr>)] frame z }"

section \<open>A token is part of the blob\<close>

lemma tlv_parse_sublist: "tlv_parse buf = Some t \<Longrightarrow> sublist (tlv_val t) buf"
  by (auto simp: tlv_parse_def Let_def split: if_splits intro: sublist_order.order.trans [OF sublist_take sublist_drop])

lemma children_sublist: "t \<in> set (children buf) \<Longrightarrow> sublist (tlv_val t) buf"
proof (induction buf rule: children.induct)
  case (1 buf)
  obtain x where x: "tlv_parse buf = Some x" "t = x \<or> t \<in> set (children (drop (tlv_len x) buf))"
    using 1(2) unfolding children.simps [of buf] by (cases "tlv_parse buf") auto
  then show ?case using 1(1) [OF x(1)] tlv_parse_sublist sublist_drop sublist_order.order.trans by blast
qed

lemma filter_tag_Some: "filter_tag tag t = Some x \<Longrightarrow> t = Some x"
  by (auto simp: filter_tag_def split: option.splits if_splits)

lemma neg_fields_sublist:
  assumes "\<forall>f \<in> set fs. sublist (tlv_val f) blob" and "sublist token blob"
  shows "sublist (snd (neg_init_fields fs m token)) blob" and "sublist (snd (neg_resp_fields fs m token)) blob"
  using assms
  by (induction fs arbitrary: m token)
    (auto split: option.split dest!: filter_tag_Some dest: tlv_parse_sublist intro: sublist_order.order.trans)

lemma classify_sublist: "sublist (in_token (classify blob)) blob"
proof -
  have i: "sublist (in_token (parse_neg_init v)) blob" if "sublist v blob" for v
  proof (cases "filter_tag 0x30 (tlv_parse v)")
    case (Some q)
    then have "sublist (tlv_val q) blob" using that tlv_parse_sublist filter_tag_Some sublist_order.order.trans by blast
    then have "sublist (snd (neg_init_fields (children (tlv_val q)) Unknown [])) blob"
      by (intro neg_fields_sublist) (auto dest: children_sublist intro: sublist_order.order.trans)
    then show ?thesis using Some by (simp add: parse_neg_init_def case_prod_beta)
  qed (simp add: parse_neg_init_def)
  have r: "sublist (in_token (parse_neg_resp blob)) blob"
  proof (cases "filter_tag 0x30 (do { outer \<leftarrow> filter_tag 0xA1 (tlv_parse blob); tlv_parse (tlv_val outer) })")
    case (Some q)
    then have "sublist (tlv_val q) blob"
      by (auto dest!: filter_tag_Some tlv_parse_sublist intro: sublist_order.order.trans)
    then have "sublist (snd (neg_resp_fields (children (tlv_val q)) Unknown [])) blob"
      by (intro neg_fields_sublist) (auto dest: children_sublist intro: sublist_order.order.trans)
    then show ?thesis using Some by (simp add: parse_neg_resp_def case_prod_beta)
  qed (simp add: parse_neg_resp_def)
  have c: "sublist (tlv_val y) blob" if "children (tlv_val t) = x # y # ys" "sublist (tlv_val t) blob" for t x y ys
    using children_sublist [of y "tlv_val t"] that sublist_order.order.trans by auto
  have "sublist (in_token (classify_app0 blob)) blob"
    unfolding classify_app0_def Let_def
    by (auto split: option.split list.split intro!: i intro: c dest!: tlv_parse_sublist)
  then show ?thesis using r by (simp add: classify_def)
qed

section \<open>No input panics\<close>

lemma fuzz_st_ok:
  assumes "reg_ok srv (z_sessions z)" and "lt_ok (z_leases z)" and "chans_ok chans"
  shows "st_ok srv (fuzz_st srv chans z)"
  using assms pc_ok_channels [OF pc_ok_new] by (simp add: fuzz_st_def st_ok_def)

lemma fuzz_srv_ok: "fuzz_srv E dir = Some srv \<Longrightarrow> srv_ok srv"
  by (auto simp: fuzz_srv_def srv_from_cfg_def fuzz_config_def plain_share_def srv_ok_def list_ok_def)

lemma fuzz_frame_ok:
  assumes "srv_ok srv" and "host_ok E" and "reg_ok srv (z_sessions z)" and "lt_ok (z_leases z)" and "chans_ok chans"
    and "length (z_sessions z) + MAX_COMPOUND \<le> SESSION_ROOM"
  shows "\<exists>z'. fuzz_frame E srv chans data z = Some z' \<and> reg_ok srv (z_sessions z') \<and> lt_ok (z_leases z')"
proof -
  have "length (g_sessions (fuzz_st srv chans z)) + MAX_COMPOUND \<le> SESSION_ROOM" using assms(6) by (simp add: fuzz_st_def)
  from process_frame_ok [OF assms(1,2) fuzz_st_ok [OF assms(3-5)] this, of data] show ?thesis
    by (auto simp: fuzz_frame_def frame_ok_def framed_st_def st_ok_def)
qed

lemma fuzz_transform_eq:
  assumes "crypto_ok E" and "aead_ok E" and "length data < 2 ^ 32"
  shows "\<exists>frame chans. fuzz_transform E srv data z = fuzz_frame E srv chans frame z \<and> chans_ok chans"
proof -
  define enc where "enc = \<lparr>ec_cipher = fuzz_cipher data, ec_c2s = replicate 32 7, ec_s2c = replicate 32 7, ec_nonce_ctr = 0\<rparr>"
  obtain frame where w: "wrap_transform E data enc FUZZ_SID [] =
      Some (enc\<lparr>ec_nonce_ctr := ec_nonce_ctr enc + 1\<rparr>, nbt_bytes (word_of_nat (length frame)) @ frame)"
      "decrypt_transform E frame (enc\<lparr>ec_c2s := ec_s2c enc\<rparr>) = Some data"
    using wrap_opens [OF assms, of enc FUZZ_SID "[]"] by auto
  have "decrypt_transform E frame enc = Some data" using w(2) by (simp add: enc_def)
  moreover have "slice_from (nbt_bytes l @ frame) 4 = Some frame" for l by (simp add: slice_from_def nbt_bytes_def)
  ultimately have "fuzz_transform E srv data z = fuzz_frame E srv [(FUZZ_SID, channel_default\<lparr>ch_enc := Some enc\<rparr>)] frame z"
    unfolding fuzz_transform_def Let_def enc_def [symmetric] w(1) by simp
  moreover have "chans_ok [(FUZZ_SID, channel_default\<lparr>ch_enc := Some enc\<rparr>)]"
    by (simp add: chans_ok_def hmap_ok_def chan_ok_def channel_default_def enc_ok_def enc_def)
  ultimately show ?thesis by blast
qed



end
