(* ===== verification/Spec2Isabelle.thy ===== *)
theory Spec2Isabelle
  imports Boot Handlers_Krb Fuzz
begin

text \<open>
  rocketsmbd, an SMB2/3 file server, as an Isabelle/HOL development. The sources are under
  \<^verbatim>\<open>src/src/\<close>; file names below are relative to it. The model is of the default build on
  Linux (feature \<^verbatim>\<open>ntlm\<close>), with the \<^verbatim>\<open>kerberos\<close> feature's acceptor and session set-up beside it.

  \<^bold>\<open>The program.\<close> A process starts one worker thread per core. Each worker owns an io_uring and
  its connections (\<^verbatim>\<open>uring.rs\<close>): it accepts sockets, receives bytes into a per-connection buffer,
  cuts them into frames and hands each to the SMB2 core (\<^verbatim>\<open>smb2/mod.rs\<close>), which opens encrypted
  frames, splits compounds, and dispatches every request (\<^verbatim>\<open>smb2/handlers.rs\<close>) after the replay,
  credit and integrity checks. Handlers work on the session registry shared by all workers
  (\<^verbatim>\<open>session.rs\<close>), on a session's trees and its table of open files (\<^verbatim>\<open>vfs.rs\<close>), on the shared
  lease table (\<^verbatim>\<open>lease.rs\<close>), whose breaks reach other workers through mailboxes, and on the file
  system. Authentication goes through SPNEGO (\<^verbatim>\<open>spnego.rs\<close>) and NTLMSSP (\<^verbatim>\<open>ntlm.rs\<close>) over the
  constructions of \<^verbatim>\<open>crypto.rs\<close>; who may use a share is decided by \<^verbatim>\<open>authz.rs\<close> from the
  configuration (\<^verbatim>\<open>config.rs\<close>) and, with Kerberos (\<^verbatim>\<open>krb5.rs\<close>), the groups decoded by \<^verbatim>\<open>pac.rs\<close>. An
  optional thread answers health probes (\<^verbatim>\<open>health.rs\<close>).

  \<^bold>\<open>Conventions.\<close> \<open>Prelude\<close> has the shared vocabulary. \<open>u8\<close> to \<open>u64\<close> are words of that width and
  wrap where the code wraps; \<open>usize\<close> is \<open>nat\<close>, and where the code subtracts or slices, a definition
  is \<open>None\<close> when Rust would panic. A Rust \<open>Option\<close> or \<open>Result\<close> inside is an option or a sum. A
  string is the list of its code points (\<open>Strings\<close>, \<open>Utf8\<close>), a hash map an association list with
  distinct keys. Mutable state is passed explicitly: \<open>'w st\<close> of \<open>Server\<close> is what one request sees
  (shared registry, leases and mailboxes, the connection, the compound's context, the response
  buffer and the outside world), \<open>'w wk\<close> of \<open>Uring\<close> is a worker. What the program calls and does
  not contain is an argument: the record \<open>E\<close> (\<open>Ext\<close>: system calls over an abstract world \<open>'w\<close>, the
  random source, the clock, the crypto primitives), the record \<open>K\<close> (\<open>Uring\<close>: the reactor's own
  system calls), \<open>G\<close> (\<open>Krb5\<close>: the GSS library), \<open>H\<close> (\<open>Health\<close>: the probe's socket) and \<open>Y\<close> (\<open>Boot\<close>:
  what only start-up uses, the TOML decoder among it).

  \<^bold>\<open>Theories and code.\<close>
  \<^item> \<open>Wire\<close>: \<^verbatim>\<open>wire.rs\<close>. Reader, writer, padding, UTF-16LE. The locale \<open>wire_field\<close> states the
    contract of a field codec and is interpreted for the four integer widths.
  \<^item> \<open>Nt_Status\<close>: \<^verbatim>\<open>status.rs\<close>. \<open>Strings\<close>, \<open>Utf8\<close>: the standard library's string functions used.
  \<^item> \<open>Vfs\<close>: path resolution, open, metadata, positioned I/O, byte-range locks and directory snapshots
    of \<^verbatim>\<open>vfs.rs\<close>. \<open>Handles\<close>: its \<open>HandleTable\<close>; the locale \<open>handle_store\<close> is the promise made to the
    handlers (a finite map from ids, never reusing a live one), interpreted on the slab.
  \<^item> \<open>Lease\<close>: \<^verbatim>\<open>lease.rs\<close>; the locale \<open>lease_store\<close> abstracts the table to a map from files and keys
    to grants and is interpreted on it.
  \<^item> \<open>Pac\<close>, \<open>Config\<close>, \<open>Authz\<close>, \<open>Crypto\<close>, \<open>Spnego\<close>, \<open>Ntlm\<close>, \<open>Session\<close>, \<open>Net\<close>: the files of these
    names.
  \<^item> \<open>Smb2\<close>, \<open>Smb2_Msg\<close>: headers, connection state, signing, sealing and the frames the reactor
    builds, \<^verbatim>\<open>smb2/mod.rs\<close>. \<open>Server\<close>: replay window, credits, closing and teardown of
    \<^verbatim>\<open>smb2/handlers.rs\<close>.
  \<^item> \<open>Handlers_File\<close>, \<open>Handlers_Query\<close>, \<open>Handlers_Set\<close>, \<open>Handlers_Setup\<close>: one definition per command
    handler of \<^verbatim>\<open>smb2/handlers.rs\<close>. \<open>Dispatch\<close>: \<open>dispatch\<close> there and \<open>process_frame\<close> of
    \<^verbatim>\<open>smb2/mod.rs\<close>.
  \<^item> \<open>Uring\<close>: the worker of \<^verbatim>\<open>uring.rs\<close>: user data, submission, accept, receive, frame loop, sends,
    zero-copy reads in both forms, change notification, break delivery, closing, \<open>handle_cqe\<close>.
  \<^item> \<open>Krb5\<close>: \<^verbatim>\<open>krb5.rs\<close>. \<open>Handlers_Krb\<close>: \<open>session_setup\<close> of the Kerberos build and
    \<open>kerberos_session_setup\<close>, \<^verbatim>\<open>smb2/handlers.rs\<close>, on the state of the default build extended by the
    acceptor and the pending contexts.
  \<^item> \<open>Boot\<close>: \<open>main\<close> and \<open>run\<close> of \<^verbatim>\<open>main.rs\<close>, \<open>Config::load\<close>, \<open>Mailbox::new\<close>, and the listener, ring and
    worker set-up of \<open>run_worker\<close>. \<open>Health\<close>: \<^verbatim>\<open>health.rs\<close>. \<open>Fuzz\<close>: \<^verbatim>\<open>fuzzing.rs\<close>.

  \<^bold>\<open>What is proved.\<close>
  \<^item> \<open>Server_Facts\<close>, \<open>Handles\<close>, \<open>Lease\<close>, \<open>Vfs\<close>, \<open>Authz\<close>, \<open>Ntlm\<close>, \<open>Session\<close>, \<open>Net\<close>: each component's
    functional contract on every branch: replay protection and liveness of in-order clients, the
    credit window, handle lookup and staleness, exact lease breaks, path confinement, the access
    decision, NTLMv2 acceptance.
  \<^item> \<open>Wire\<close>, \<open>Spnego\<close>, \<open>Pac\<close>, \<open>Crypto\<close>, \<open>Smb2_Msg\<close>: round trips of every codec, of signing and of
    sealing, and bounds on what the decoders return.
  \<^item> \<open>Access\<close>: before authentication nothing but the connection's own window changes, and a request
    without the protection its channel demands reaches no handler.
  \<^item> \<open>Invariant\<close>, \<open>Handlers_Ok\<close>, \<open>Setup_Ok\<close>, \<open>Dispatch_Ok\<close>: the well-formedness invariant \<open>st_ok\<close>
    (handle tables, trees pointing at configured shares, key lengths, the credit window), that every
    handler returns and keeps it, and so that processing any bytes as a frame is total.
  \<^item> \<open>Async_Ok\<close>, \<open>Uring_Inv\<close>, \<open>Uring_Ok\<close>, \<open>Drive_Ok\<close>, \<open>Cqe_Ok\<close>, \<open>Accept_Ok\<close>: the worker's invariant
    \<open>wk_inv\<close> (which entries are outstanding in which transmit state, that each lies within a live
    buffer, that operation counts are exact) and that every function of the reactor returns and
    keeps it. \<open>Reactor\<close> closes the loop: the kernel (\<open>completes\<close>: what it may post for an entry) and the
    other workers as a transition system, with the invariant on every reachable state.
  \<^item> \<open>Boot\<close> ties the ends together: a process that starts to serve has a context satisfying \<open>srv_ok\<close>, and
    every worker it starts is in that transition system.
  \<^item> \<open>Handlers_Krb\<close>: the Kerberos set-up keeps \<open>st_ok\<close> whatever the library answers, and opens a channel
    only for a principal the library accepted. \<open>Health\<close>: when the endpoint says 200. \<open>Fuzz\<close>: no input
    makes an entry point panic.

  \<^bold>\<open>Hypotheses.\<close> \<open>crypto_ok\<close> and \<open>aead_ok\<close> (\<open>Ext\<close>): output lengths of the primitives, and that opening
  undoes sealing. \<open>host_ok\<close> (\<open>Invariant\<close>): positioned reads and writes return, the random source
  gives the bytes asked for and, while fewer than \<open>2^63\<close> sessions exist, eventually a fresh id.
  \<open>srv_ok\<close>: the configuration's share lists parse (\<open>Config::validate\<close> refuses others), there are at
  most \<open>2^32\<close> shares, and the addresses are IP addresses. \<open>calm\<close> (\<open>Reactor\<close>): at most \<open>2^62\<close> sessions
  and \<open>2^24\<close> queued breaks, so that the ids one completion can use are available. Each is shown to be
  satisfiable on a concrete instance (\<open>demo_host\<close>, \<open>demo_srv\<close>, \<open>demo_worker\<close>).

  \<open>sys_ok\<close> (\<open>Boot\<close>): interface addresses have their family's length and the number of cores is not zero.

  \<^bold>\<open>Loops.\<close> Every loop is a total function: structural recursion or a measure (\<open>drive_loop\<close> on the
  bytes left in the receive buffer, \<open>parse_events\<close> on the bytes left of the event buffer,
  \<open>read_request\<close> on the room left). Those whose end depends on the outside, drawing a fresh session id
  (\<open>fresh_id\<close>), reading and writing at a position (\<open>pread\<close>, \<open>pwrite_all\<close>) and the key derivation
  (\<open>kdf_loop\<close>, on the primitive's output length), are partial functions into an option, with their return
  stated in \<open>host_ok\<close> or proved from what the calls do (\<open>Vfs\<close>, \<open>Session\<close>, \<open>Crypto\<close>).
  Bounds the code has itself (128 compound members, 8 status messages) are kept; no definition uses
  fuel of its own.

  \<^bold>\<open>Not modelled.\<close>
  \<^item> \<^verbatim>\<open>crypto_rustcrypto.rs\<close>, \<^verbatim>\<open>crypto_openssl.rs\<close>: adapters around third-party primitives, which
    are parameters.
  \<^item> \<^verbatim>\<open>log.rs\<close>, \<^verbatim>\<open>lib.rs\<close> and every log line: nothing in the program reads them.
  \<^item> Memory itself: a buffer is its contents, so that an outstanding operation's pointer is the
    offset and length \<open>buf_ok\<close> keeps inside the buffer.
  \<^item> Mutexes and parallelism: a request is one step, and between the steps of a worker the others may
    change the shared state arbitrarily within its invariant (\<open>kstep.world\<close>). \<open>run_worker\<close>'s wait for
    completions is the kernel's choice of the next one.
  \<^item> The accept loop of the health thread, joining the worker threads, and decoding TOML and socket
    addresses.
\<close>

end
